theory Spec2Isabelle
  imports Complex_Main "HOL-Library.List_Lexorder" "HOL-Library.Char_ord" "HOL-Library.Log_Nat"
begin

section \<open>Entities (pkg/entities)\<close>

text \<open>
  \<open>time.Time\<close> values are instants, modelled as integers (nanoseconds since the epoch).
  \<open>gorm.DeletedAt\<close> is a nullable time: the pair of the time and the flag \<open>Valid\<close>.
  The columns of a row that none of the functions below reads or writes on its own
  (description, address, policies, photos, rooms, ...) are kept together in \<open>Columns\<close>.
\<close>

record DeletedAt =
  Time :: int
  Valid :: bool

record HotelData =
  ID :: string
  HotelID :: int
  Name :: string
  Status :: string
  Source :: string
  Columns :: string
  CreatedAt :: int
  UpdatedAt :: int
  DeletedAt :: DeletedAt
  NextUpdateAt :: int

record HotelTranslation =
  TID :: string
  THotelID :: int
  TLang :: string
  TName :: string
  TStatus :: string
  TSource :: string
  TColumns :: string
  TCreatedAt :: int
  TUpdatedAt :: int
  TDeletedAt :: DeletedAt
  TNextUpdateAt :: int

record ReviewData =
  RID :: string
  RHotelID :: int
  ReviewID :: int
  Language :: string
  RColumns :: string
  RCreatedAt :: int
  RUpdatedAt :: int
  RDeletedAt :: DeletedAt
  RNextUpdateAt :: int

text \<open>
  The hooks. \<open>now\<close> is the value of \<open>time.Now()\<close>, \<open>uuid\<close> the value of
  \<open>uuid.New().String()\<close>.
\<close>

definition HotelData_BeforeCreate :: "int \<Rightarrow> string \<Rightarrow> HotelData \<Rightarrow> HotelData" where
  "HotelData_BeforeCreate now uuid h =
     (let h1 = (if ID h = [] then h\<lparr>ID := uuid\<rparr> else h);
          h2 = h1\<lparr>CreatedAt := now, UpdatedAt := now, NextUpdateAt := now\<rparr>;
          h3 = (if Status h2 = [] then h2\<lparr>Status := ''active''\<rparr> else h2)
      in (if Source h3 = [] then h3\<lparr>Source := ''cupid_api''\<rparr> else h3))"

definition HotelData_BeforeUpdate :: "int \<Rightarrow> HotelData \<Rightarrow> HotelData" where
  "HotelData_BeforeUpdate now h =
     (let h1 = h\<lparr>UpdatedAt := now\<rparr>
      in (if \<not> Valid (DeletedAt h1) then h1\<lparr>Status := ''active''\<rparr> else h1))"

definition HotelTranslation_BeforeCreate ::
  "int \<Rightarrow> string \<Rightarrow> HotelTranslation \<Rightarrow> HotelTranslation" where
  "HotelTranslation_BeforeCreate now uuid t =
     (let t1 = (if TID t = [] then t\<lparr>TID := uuid\<rparr> else t);
          t2 = t1\<lparr>TCreatedAt := now, TUpdatedAt := now, TNextUpdateAt := now\<rparr>;
          t3 = (if TStatus t2 = [] then t2\<lparr>TStatus := ''active''\<rparr> else t2)
      in (if TSource t3 = [] then t3\<lparr>TSource := ''cupid_api''\<rparr> else t3))"

definition HotelTranslation_BeforeUpdate :: "int \<Rightarrow> HotelTranslation \<Rightarrow> HotelTranslation" where
  "HotelTranslation_BeforeUpdate now t =
     (let t1 = t\<lparr>TUpdatedAt := now\<rparr>
      in (if \<not> Valid (TDeletedAt t1) then t1\<lparr>TStatus := ''active''\<rparr> else t1))"

definition ReviewData_BeforeCreate :: "int \<Rightarrow> string \<Rightarrow> ReviewData \<Rightarrow> ReviewData" where
  "ReviewData_BeforeCreate now uuid r =
     (let r1 = (if RID r = [] then r\<lparr>RID := uuid\<rparr> else r);
          r2 = r1\<lparr>RCreatedAt := now, RUpdatedAt := now, RNextUpdateAt := now\<rparr>
      in (if Language r2 = [] then r2\<lparr>Language := ''en''\<rparr> else r2))"

definition ReviewData_BeforeUpdate :: "int \<Rightarrow> ReviewData \<Rightarrow> ReviewData" where
  "ReviewData_BeforeUpdate now r = r\<lparr>RUpdatedAt := now\<rparr>"

section \<open>Strings (the functions of Go's \<open>strings\<close>, \<open>strconv\<close> and \<open>fmt\<close> that the code calls)\<close>

text \<open>
  A Go string is a sequence of bytes, here a \<open>char list\<close>. \<open>Split\<close> is only ever
  called with the one-byte separator \<open>":"\<close>. \<open>TrimSpace\<close> removes the ASCII white
  space characters (the multi-byte Unicode spaces are not modelled). \<open>Atoi\<close> reads an
  optional sign and decimal digits into a 64-bit \<open>int\<close> and fails on anything else.
\<close>

fun HasPrefix :: "string \<Rightarrow> string \<Rightarrow> bool" where
  "HasPrefix s [] = True"
| "HasPrefix [] (p # ps) = False"
| "HasPrefix (c # s) (p # ps) = (c = p \<and> HasPrefix s ps)"

fun Contains :: "string \<Rightarrow> string \<Rightarrow> bool" where
  "Contains [] substr = (substr = [])"
| "Contains (c # s) substr = (HasPrefix (c # s) substr \<or> Contains s substr)"

fun Split :: "string \<Rightarrow> char \<Rightarrow> string list" where
  "Split [] sep = [[]]"
| "Split (c # s) sep =
     (if c = sep then [] # Split s sep
      else (case Split s sep of [] \<Rightarrow> [[c]] | p # ps \<Rightarrow> (c # p) # ps))"

definition isSpace :: "char \<Rightarrow> bool" where
  "isSpace c = (c \<in> set [CHR '' '', CHR 0x09, CHR 0x0A, CHR 0x0B, CHR 0x0C, CHR 0x0D])"

definition TrimSpace :: "string \<Rightarrow> string" where
  "TrimSpace s = rev (dropWhile isSpace (rev (dropWhile isSpace s)))"

definition TrimPrefix :: "string \<Rightarrow> string \<Rightarrow> string" where
  "TrimPrefix s p = (if HasPrefix s p then drop (length p) s else s)"

definition isDigit :: "char \<Rightarrow> bool" where
  "isDigit c = (48 \<le> (of_char c :: nat) \<and> (of_char c :: nat) \<le> 57)"

definition digitsValue :: "string \<Rightarrow> int" where
  "digitsValue ds = foldl (\<lambda>acc c. acc * 10 + (int (of_char c) - 48)) 0 ds"

definition Atoi :: "string \<Rightarrow> int option" where
  "Atoi s =
     (let neg = (case s of [] \<Rightarrow> False | c # _ \<Rightarrow> c = CHR ''-'');
          ds = (case s of [] \<Rightarrow> [] | c # r \<Rightarrow> if c = CHR ''-'' \<or> c = CHR ''+'' then r else s);
          v = (if neg then - digitsValue ds else digitsValue ds)
      in if ds = [] \<or> \<not> list_all isDigit ds then None
         else if v < - (2 ^ 63) \<or> 2 ^ 63 - 1 < v then None
         else Some v)"

fun FormatNat :: "nat \<Rightarrow> string" where
  "FormatNat n =
     (if n < 10 then [char_of (48 + n)]
      else FormatNat (n div 10) @ [char_of (48 + n mod 10)])"

declare FormatNat.simps [simp del]

definition FormatInt :: "int \<Rightarrow> string" where
  "FormatInt i = (if i < 0 then CHR ''-'' # FormatNat (nat (- i)) else FormatNat (nat i))"

section \<open>The upstream HTTP client (worker/adapter/cupid\_api\_adapter.go)\<close>

subsection \<open>The type \<open>float64\<close>\<close>

text \<open>
  Go's \<open>float64\<close> is the binary64 format of IEEE 754, every operation rounded to the
  nearest representable value, ties to the even significand. A finite value is modelled
  by the rational number it denotes. The sign of a zero is not kept: of the operations
  below only a division by zero tells \<open>-0\<close> from \<open>+0\<close>, and the one division of the
  code is by the constant 1000.

  \<open>exponent x\<close>, for \<open>x > 0\<close>, is the integer \<open>e\<close> with \<open>2^e \<le> x < 2^(e+1)\<close>.
  \<open>roundFloat64 x\<close> is the \<open>float64\<close> nearest to the rational \<open>x\<close>: the multiple of
  \<open>2^(e-52)\<close> nearest to \<open>x\<close> (53 significant bits; \<open>e\<close> is not taken below \<open>-1022\<close>,
  which gives the subnormal numbers), and an infinity when that multiple reaches
  \<open>2^1024\<close>.
\<close>

datatype float64 = Finite rat | PosInf | NegInf | NaN

definition roundHalfEven :: "rat \<Rightarrow> int" where
  "roundHalfEven q =
     (let f = \<lfloor>q\<rfloor>; r = q - of_int f
      in if r < 1 / 2 then f
         else if 1 / 2 < r then f + 1
         else if even f then f else f + 1)"

definition exponent :: "rat \<Rightarrow> int" where
  "exponent x =
     (let (p, q) = quotient_of x; k = bitlen p - bitlen q
      in if 2 powi k \<le> x then k else k - 1)"

definition roundFloat64 :: "rat \<Rightarrow> float64" where
  "roundFloat64 x =
     (if x = 0 then Finite 0
      else
        (let e = max (exponent \<bar>x\<bar>) (- 1022);
             ulp = 2 powi (e - 52);
             m = roundHalfEven (x / ulp)
         in if 1023 < e \<or> (e = 1023 \<and> \<bar>m\<bar> = 2 ^ 53)
            then (if 0 < x then PosInf else NegInf)
            else Finite (of_int m * ulp)))"

definition fsign :: "float64 \<Rightarrow> int" where
  "fsign x =
     (case x of
        Finite a \<Rightarrow> (if 0 < a then 1 else if a < 0 then - 1 else 0)
      | PosInf \<Rightarrow> 1
      | NegInf \<Rightarrow> - 1
      | NaN \<Rightarrow> 0)"

text \<open>The operations \<open>x * y\<close>, \<open>x / y\<close> and \<open>x - y\<close> on \<open>float64\<close>.\<close>

definition fmul :: "float64 \<Rightarrow> float64 \<Rightarrow> float64" where
  "fmul x y =
     (case (x, y) of
        (Finite a, Finite b) \<Rightarrow> roundFloat64 (a * b)
      | _ \<Rightarrow>
          (if x = NaN \<or> y = NaN \<or> fsign x * fsign y = 0 then NaN
           else if 0 < fsign x * fsign y then PosInf else NegInf))"

definition fdiv :: "float64 \<Rightarrow> float64 \<Rightarrow> float64" where
  "fdiv x y =
     (case (x, y) of
        (Finite a, Finite b) \<Rightarrow>
          (if b = 0 then (if a = 0 then NaN else if 0 < a then PosInf else NegInf)
           else roundFloat64 (a / b))
      | (Finite a, PosInf) \<Rightarrow> Finite 0
      | (Finite a, NegInf) \<Rightarrow> Finite 0
      | (PosInf, Finite b) \<Rightarrow> (if b < 0 then NegInf else PosInf)
      | (NegInf, Finite b) \<Rightarrow> (if b < 0 then PosInf else NegInf)
      | _ \<Rightarrow> NaN)"

definition fsub :: "float64 \<Rightarrow> float64 \<Rightarrow> float64" where
  "fsub x y =
     (case (x, y) of
        (Finite a, Finite b) \<Rightarrow> roundFloat64 (a - b)
      | (Finite a, PosInf) \<Rightarrow> NegInf
      | (Finite a, NegInf) \<Rightarrow> PosInf
      | (PosInf, Finite b) \<Rightarrow> PosInf
      | (PosInf, NegInf) \<Rightarrow> PosInf
      | (NegInf, Finite b) \<Rightarrow> NegInf
      | (NegInf, PosInf) \<Rightarrow> NegInf
      | _ \<Rightarrow> NaN)"

text \<open>
  The conversions. \<open>float64(i)\<close> of an integer rounds. \<open>time.Duration(f)\<close> and
  \<open>int64(f)\<close> of a float discard the fraction (truncation towards zero); when the
  truncated value does not fit into an \<open>int64\<close>, or \<open>f\<close> is not finite, the language
  leaves the result to the implementation, which is \<open>None\<close> here. The sum of two
  \<open>int64\<close> wraps around.
\<close>

definition float64OfInt :: "int \<Rightarrow> float64" where
  "float64OfInt i = roundFloat64 (of_int i)"

definition truncRat :: "rat \<Rightarrow> int" where
  "truncRat r = (if 0 \<le> r then \<lfloor>r\<rfloor> else - \<lfloor>- r\<rfloor>)"

definition int64OfFloat64 :: "float64 \<Rightarrow> int option" where
  "int64OfFloat64 x =
     (case x of
        Finite a \<Rightarrow>
          (let t = truncRat a
           in if - (2 ^ 63) \<le> t \<and> t < 2 ^ 63 then Some t else None)
      | _ \<Rightarrow> None)"

definition int64 :: "int \<Rightarrow> int" where
  "int64 x = (x + 2 ^ 63) mod 2 ^ 64 - 2 ^ 63"

subsection \<open>Retry configuration and retry delay\<close>

text \<open>
  Durations are \<open>int64\<close> numbers of nanoseconds. Go's \<open>%\<close> takes the sign of the
  dividend. \<open>nanos\<close> is the value of \<open>time.Now().UnixNano()\<close>. The delay is \<open>None\<close>
  where one of the three conversions of a float to a duration is left to the
  implementation.
\<close>

record retryConfig =
  MaxRetries :: int
  BaseDelay :: int
  MaxDelay :: int
  Multiplier :: float64
  Jitter :: bool
  RetryableCode :: "int list"

definition second :: int where
  "second = 1000000000"

text \<open>The configuration that \<open>NewCupidAPIAdapter\<close> builds from \<open>APIConfig\<close>.\<close>

definition NewRetryConfig :: "int \<Rightarrow> int \<Rightarrow> retryConfig" where
  "NewRetryConfig maxRetries retryInterval =
     \<lparr>MaxRetries = maxRetries, BaseDelay = retryInterval, MaxDelay = 30 * second,
      Multiplier = Finite 2, Jitter = True, RetryableCode = [429, 500, 502, 503, 504]\<rparr>"

definition goRem :: "int \<Rightarrow> int \<Rightarrow> int" where
  "goRem a b = (if 0 \<le> a then a mod \<bar>b\<bar> else - ((- a) mod \<bar>b\<bar>))"

text \<open>The constant \<open>0.1\<close>, as a \<open>float64\<close>.\<close>

definition tenth :: float64 where
  "tenth = roundFloat64 (1 / 10)"

text \<open>The factor \<open>2*float64(time.Now().UnixNano()%1000)/1000 - 1\<close>.\<close>

definition jitterFactor :: "int \<Rightarrow> float64" where
  "jitterFactor nanos =
     fsub (fdiv (fmul (Finite 2) (float64OfInt (goRem nanos 1000))) (Finite 1000)) (Finite 1)"

definition calculateRetryDelay :: "retryConfig \<Rightarrow> int \<Rightarrow> int \<Rightarrow> int option" where
  "calculateRetryDelay cfg attempt nanos =
     (case int64OfFloat64
             (fmul (fmul (float64OfInt (BaseDelay cfg)) (float64OfInt attempt)) (Multiplier cfg)) of
        None \<Rightarrow> None
      | Some delay0 \<Rightarrow>
          (let delay = (if delay0 > MaxDelay cfg then MaxDelay cfg else delay0)
           in if Jitter cfg then
                (case int64OfFloat64 (fmul (float64OfInt delay) tenth) of
                   None \<Rightarrow> None
                 | Some jitter \<Rightarrow>
                     (case int64OfFloat64 (fmul (float64OfInt jitter) (jitterFactor nanos)) of
                        None \<Rightarrow> None
                      | Some shift \<Rightarrow> Some (int64 (delay + shift))))
              else Some delay))"

subsection \<open>Classifying errors by their text\<close>

text \<open>
  An \<open>error\<close> is its message; \<open>nil\<close> is \<open>None\<close>. \<open>is404Error\<close> and
  \<open>isRetryableError\<close> read the status code out of the message in the same way; that
  part is \<open>statusOfError\<close>, which is \<open>None\<close> wherever the two functions fall through
  to their last \<open>return\<close>.
\<close>

definition statusOfError :: "string \<Rightarrow> int option" where
  "statusOfError errStr =
     (if Contains errStr ''HTTP error'' then
        (case Split errStr CHR '':'' of
           [] \<Rightarrow> None
         | part0 # _ \<Rightarrow>
             (let httpPart = TrimSpace part0
              in if HasPrefix httpPart ''HTTP error ''
                 then Atoi (TrimPrefix httpPart ''HTTP error '')
                 else None))
      else None)"

definition is404Error :: "string option \<Rightarrow> bool" where
  "is404Error err =
     (case err of
        None \<Rightarrow> False
      | Some errStr \<Rightarrow>
          (case statusOfError errStr of
             Some statusCode \<Rightarrow> statusCode = 404
           | None \<Rightarrow> False))"

definition isRetryableError :: "retryConfig \<Rightarrow> string option \<Rightarrow> bool" where
  "isRetryableError cfg err =
     (case err of
        None \<Rightarrow> False
      | Some errStr \<Rightarrow>
          (case statusOfError errStr of
             Some statusCode \<Rightarrow>
               (if statusCode = 404 then False
                else list_ex (\<lambda>retryableCode. statusCode = retryableCode) (RetryableCode cfg))
           | None \<Rightarrow> True))"

subsection \<open>The circuit breaker (library \<open>sony/gobreaker\<close>)\<close>

text \<open>
  The breaker is the library's; the model keeps its state, its counters and the two
  settings the adapter passes. A request refused by the breaker never runs. A request
  that ran is recorded as a success when the callback's error is \<open>nil\<close> and as a failure
  otherwise. The library's time-driven transitions (clearing the counters when the
  interval ends, leaving the open state after the timeout) happen between requests and
  are not modelled.
\<close>

datatype State = StateClosed | StateHalfOpen | StateOpen

record Counts =
  Requests :: nat
  TotalSuccesses :: nat
  TotalFailures :: nat
  ConsecutiveSuccesses :: nat
  ConsecutiveFailures :: nat

record CircuitBreaker =
  state :: State
  counts :: Counts
  maxRequests :: nat
  readyToTrip :: "Counts \<Rightarrow> bool"

definition clearCounts :: Counts where
  "clearCounts = \<lparr>Requests = 0, TotalSuccesses = 0, TotalFailures = 0,
                   ConsecutiveSuccesses = 0, ConsecutiveFailures = 0\<rparr>"

text \<open>The default that \<open>NewCupidAPIAdapter\<close> installs when \<open>ReadyToTrip\<close> is nil.\<close>

definition defaultReadyToTrip :: "Counts \<Rightarrow> bool" where
  "defaultReadyToTrip c = (ConsecutiveFailures c \<ge> 5)"

definition NewCircuitBreaker :: "nat \<Rightarrow> CircuitBreaker" where
  "NewCircuitBreaker maxReq =
     \<lparr>state = StateClosed, counts = clearCounts,
      maxRequests = (if maxReq = 0 then 1 else maxReq), readyToTrip = defaultReadyToTrip\<rparr>"

definition beforeRequest :: "CircuitBreaker \<Rightarrow> string + CircuitBreaker" where
  "beforeRequest cb =
     (if state cb = StateOpen then Inl ''circuit breaker is open''
      else if state cb = StateHalfOpen \<and> Requests (counts cb) \<ge> maxRequests cb
      then Inl ''too many requests''
      else Inr (cb\<lparr>counts := (counts cb)\<lparr>Requests := Requests (counts cb) + 1\<rparr>\<rparr>))"

definition countsOnSuccess :: "Counts \<Rightarrow> Counts" where
  "countsOnSuccess c =
     c\<lparr>TotalSuccesses := TotalSuccesses c + 1,
       ConsecutiveSuccesses := ConsecutiveSuccesses c + 1,
       ConsecutiveFailures := 0\<rparr>"

definition countsOnFailure :: "Counts \<Rightarrow> Counts" where
  "countsOnFailure c =
     c\<lparr>TotalFailures := TotalFailures c + 1,
       ConsecutiveFailures := ConsecutiveFailures c + 1,
       ConsecutiveSuccesses := 0\<rparr>"

definition onSuccess :: "CircuitBreaker \<Rightarrow> CircuitBreaker" where
  "onSuccess cb =
     (case state cb of
        StateClosed \<Rightarrow> cb\<lparr>counts := countsOnSuccess (counts cb)\<rparr>
      | StateHalfOpen \<Rightarrow>
          (let c = countsOnSuccess (counts cb)
           in if ConsecutiveSuccesses c \<ge> maxRequests cb
              then cb\<lparr>state := StateClosed, counts := clearCounts\<rparr>
              else cb\<lparr>counts := c\<rparr>)
      | StateOpen \<Rightarrow> cb)"

definition onFailure :: "CircuitBreaker \<Rightarrow> CircuitBreaker" where
  "onFailure cb =
     (case state cb of
        StateClosed \<Rightarrow>
          (let c = countsOnFailure (counts cb)
           in if readyToTrip cb c
              then cb\<lparr>state := StateOpen, counts := clearCounts\<rparr>
              else cb\<lparr>counts := c\<rparr>)
      | StateHalfOpen \<Rightarrow> cb\<lparr>state := StateOpen, counts := clearCounts\<rparr>
      | StateOpen \<Rightarrow> cb)"

definition afterRequest :: "CircuitBreaker \<Rightarrow> bool \<Rightarrow> CircuitBreaker" where
  "afterRequest cb success = (if success then onSuccess cb else onFailure cb)"

subsection \<open>One request\<close>

text \<open>
  What the outside world does with one HTTP round trip: building the request fails,
  \<open>client.Do\<close> fails, or a response arrives with a status code, a body and, for a
  status below 400, the outcome of decoding the body (\<open>None\<close>: decoded).
  The callers pass no request body, so nothing is marshalled.
\<close>

datatype roundtrip =
    NewRequestFailed string
  | DoFailed string
  | Responded int string "string option"

text \<open>The first component of what the breaker's callback returns.\<close>

datatype result = Nil | Response | NotFoundResult string

text \<open>\<open>fmt.Errorf("HTTP error %d: %s", statusCode, body)\<close>\<close>

definition httpError :: "int \<Rightarrow> string \<Rightarrow> string" where
  "httpError statusCode body = ''HTTP error '' @ FormatInt statusCode @ '': '' @ body"

definition doHTTPRequest :: "roundtrip \<Rightarrow> result \<times> string option" where
  "doHTTPRequest rt =
     (case rt of
        NewRequestFailed e \<Rightarrow> (Nil, Some (''failed to create request: '' @ e))
      | DoFailed e \<Rightarrow> (Nil, Some (''HTTP request failed: '' @ e))
      | Responded statusCode body decodeErr \<Rightarrow>
          (if statusCode \<ge> 400
           then (Nil, Some (httpError statusCode body))
           else (case decodeErr of
                   Some e \<Rightarrow> (Nil, Some (''failed to decode response: '' @ e))
                 | None \<Rightarrow> (Response, None))))"

text \<open>The function that \<open>performRequest\<close> hands to \<open>circuitBreaker.Execute\<close>.\<close>

definition breakerCallback :: "roundtrip \<Rightarrow> result \<times> string option" where
  "breakerCallback rt =
     (let (res, httpErr) = doHTTPRequest rt
      in if is404Error httpErr then (NotFoundResult (the httpErr), None)
         else (res, httpErr))"

text \<open>
  The adapter's mutable state: the breaker, and a log of what the adapter did (the
  status line of every HTTP request it sent, and every delay that the retry loop passed
  to \<open>time.After\<close> and waited out).
\<close>

record adapter =
  circuitBreaker :: CircuitBreaker
  sent :: "roundtrip list"
  slept :: "int option list"

text \<open>
  What one attempt meets: the outcome of \<open>rateLimiter.Wait\<close> (an error, or \<open>None\<close>),
  the round trip, whether the context is done while the retry loop waits before this
  attempt (\<open>Some\<close> of \<open>ctx.Err()\<close>), and the clock read by the delay computation.
\<close>

record attempt_io =
  waitErr :: "string option"
  trip :: roundtrip
  ctxDone :: "string option"
  unixNano :: int

definition Execute ::
  "CircuitBreaker \<Rightarrow> roundtrip \<Rightarrow> (result \<times> string option) \<times> CircuitBreaker \<times> bool" where
  "Execute cb rt =
     (case beforeRequest cb of
        Inl e \<Rightarrow> ((Nil, Some e), cb, False)
      | Inr cb1 \<Rightarrow>
          (let (res, err) = breakerCallback rt
           in ((res, err), afterRequest cb1 (err = None), True)))"

definition performRequest :: "adapter \<Rightarrow> attempt_io \<Rightarrow> string option \<times> adapter" where
  "performRequest a io =
     (case waitErr io of
        Some e \<Rightarrow> (Some (''rate limiter error: '' @ e), a)
      | None \<Rightarrow>
          (let ((res, err), cb', ran) = Execute (circuitBreaker a) (trip io);
               a' = a\<lparr>circuitBreaker := cb',
                      sent := (if ran then sent a @ [trip io] else sent a)\<rparr>
           in (case err of
                 Some e \<Rightarrow> (Some e, a')
               | None \<Rightarrow>
                   (case res of
                      NotFoundResult e \<Rightarrow> (Some e, a')
                    | _ \<Rightarrow> (None, a')))))"

subsection \<open>The retry loop\<close>

definition failedAfter :: "retryConfig \<Rightarrow> string option \<Rightarrow> string" where
  "failedAfter cfg lastErr =
     ''operation failed after '' @ FormatInt (MaxRetries cfg) @ '' retries: ''
       @ (case lastErr of None \<Rightarrow> ''%!w(<nil>)'' | Some e \<Rightarrow> e)"

text \<open>
  \<open>retryLoop cfg ios k attempt lastErr a\<close> is the \<open>for\<close> loop of
  \<open>executeWithRetry\<close> at the head of the iteration numbered \<open>attempt\<close>, with \<open>k\<close>
  iterations left before \<open>attempt\<close> exceeds \<open>MaxRetries\<close>.
\<close>

fun retryLoop ::
  "retryConfig \<Rightarrow> (nat \<Rightarrow> attempt_io) \<Rightarrow> nat \<Rightarrow> nat \<Rightarrow> string option \<Rightarrow> adapter
     \<Rightarrow> string option \<times> adapter" where
  "retryLoop cfg ios 0 attempt lastErr a = (Some (failedAfter cfg lastErr), a)"
| "retryLoop cfg ios (Suc k) attempt lastErr a =
     (if attempt > 0 \<and> ctxDone (ios attempt) \<noteq> None then (ctxDone (ios attempt), a)
      else
        (let a1 = (if attempt > 0
                   then a\<lparr>slept := slept a @
                          [calculateRetryDelay cfg (int attempt) (unixNano (ios attempt))]\<rparr>
                   else a);
             (err, a2) = performRequest a1 (ios attempt)
         in (case err of
               None \<Rightarrow> (None, a2)
             | Some e \<Rightarrow>
                 (if \<not> isRetryableError cfg (Some e) then (Some (failedAfter cfg (Some e)), a2)
                  else retryLoop cfg ios k (Suc attempt) (Some e) a2))))"

definition executeWithRetry ::
  "retryConfig \<Rightarrow> (nat \<Rightarrow> attempt_io) \<Rightarrow> adapter \<Rightarrow> string option \<times> adapter" where
  "executeWithRetry cfg ios a = retryLoop cfg ios (nat (MaxRetries cfg + 1)) 0 None a"

section \<open>The dispatcher (cmd/orchestrator)\<close>

subsection \<open>The canonical store, as the dispatcher's queries see it\<close>

record database =
  hotels_tbl :: "HotelData list"
  reviews_tbl :: "ReviewData list"
  translations_tbl :: "HotelTranslation list"
  fault :: "string option"

record IDWithHotelID =
  QID :: string
  QHotelID :: int

record HotelMissingLang =
  MHotelID :: int
  MissingLang :: string

text \<open>
  The five queries. Each returns an error while the store has a fault. None of them
  filters on \<open>deleted_at\<close> (they name the tables directly). \<open>ORDER BY\<close> is a stable
  sort of the table's rows, \<open>LIMIT\<close> keeps the first \<open>limit\<close> rows (\<open>processBatch\<close>
  only passes a positive limit). \<open>now\<close> is the value of \<open>NOW()\<close>.
\<close>

definition cursorFilter :: "int \<Rightarrow> int \<Rightarrow> bool" where
  "cursorFilter lastHotelID h = (if lastHotelID > 0 then h > lastHotelID else True)"

definition limitRows :: "int \<Rightarrow> 'a list \<Rightarrow> 'a list" where
  "limitRows limit rows = take (nat limit) rows"

definition QueryHotelIDsByID :: "database \<Rightarrow> int \<Rightarrow> int \<Rightarrow> int \<Rightarrow> string + IDWithHotelID list" where
  "QueryHotelIDsByID db now lastHotelID limit =
     (case fault db of
        Some e \<Rightarrow> Inl e
      | None \<Rightarrow>
          Inr (limitRows limit (sort_key QHotelID
            (map (\<lambda>h. \<lparr>QID = ID h, QHotelID = HotelID h\<rparr>)
              (filter (\<lambda>h. NextUpdateAt h < now \<and> HotelID h > 0 \<and> cursorFilter lastHotelID (HotelID h))
                 (hotels_tbl db))))))"

definition QueryReviewIDsByID :: "database \<Rightarrow> int \<Rightarrow> int \<Rightarrow> int \<Rightarrow> string + IDWithHotelID list" where
  "QueryReviewIDsByID db now lastHotelID limit =
     (case fault db of
        Some e \<Rightarrow> Inl e
      | None \<Rightarrow>
          Inr (limitRows limit (sort_key QHotelID
            (map (\<lambda>r. \<lparr>QID = RID r, QHotelID = RHotelID r\<rparr>)
              (filter (\<lambda>r. RNextUpdateAt r < now \<and> RHotelID r > 0 \<and> cursorFilter lastHotelID (RHotelID r))
                 (reviews_tbl db))))))"

definition QueryTranslationIDsByID :: "database \<Rightarrow> int \<Rightarrow> int \<Rightarrow> int \<Rightarrow> string + IDWithHotelID list" where
  "QueryTranslationIDsByID db now lastHotelID limit =
     (case fault db of
        Some e \<Rightarrow> Inl e
      | None \<Rightarrow>
          Inr (limitRows limit
            (map (\<lambda>t. \<lparr>QID = TID t, QHotelID = THotelID t\<rparr>)
              (sort_key THotelID (sort_key TLang
                (filter (\<lambda>t. TNextUpdateAt t < now \<and> THotelID t > 0 \<and> cursorFilter lastHotelID (THotelID t))
                   (translations_tbl db)))))))"

definition missingLang :: "database \<Rightarrow> int \<Rightarrow> string \<Rightarrow> HotelMissingLang list" where
  "missingLang db lastHotelID lang =
     map (\<lambda>h. \<lparr>MHotelID = HotelID h, MissingLang = lang\<rparr>)
       (filter (\<lambda>h. \<not> list_ex (\<lambda>t. THotelID t = HotelID h \<and> TLang t = lang) (translations_tbl db)
                     \<and> HotelID h > 0 \<and> cursorFilter lastHotelID (HotelID h))
          (hotels_tbl db))"

definition GetHotelsWithMissingTranslationsRaw ::
  "database \<Rightarrow> int \<Rightarrow> int \<Rightarrow> string + HotelMissingLang list" where
  "GetHotelsWithMissingTranslationsRaw db lastHotelID limit =
     (case fault db of
        Some e \<Rightarrow> Inl e
      | None \<Rightarrow>
          Inr (limitRows limit (sort_key MHotelID (sort_key MissingLang
            (missingLang db lastHotelID ''es'' @ missingLang db lastHotelID ''fr'')))))"

definition GetMissingReviewsFromHotelID ::
  "database \<Rightarrow> int \<Rightarrow> int \<Rightarrow> string + IDWithHotelID list" where
  "GetMissingReviewsFromHotelID db lastHotelID limit =
     (case fault db of
        Some e \<Rightarrow> Inl e
      | None \<Rightarrow>
          Inr (limitRows limit (sort_key QHotelID
            (map (\<lambda>h. \<lparr>QID = ID h, QHotelID = HotelID h\<rparr>)
              (filter (\<lambda>h. \<not> list_ex (\<lambda>r. RHotelID r = HotelID h) (reviews_tbl db)
                            \<and> HotelID h > 0 \<and> cursorFilter lastHotelID (HotelID h))
                 (hotels_tbl db))))))"


subsection \<open>Message kinds and jobs\<close>

definition MessageTypeUpdateHotel :: string where "MessageTypeUpdateHotel = ''update_hotel''"
definition MessageTypeUpdateReview :: string where "MessageTypeUpdateReview = ''update_review''"
definition MessageTypeUpdateTranslation :: string where
  "MessageTypeUpdateTranslation = ''update_translation''"
definition MessageTypeFetchTranslation :: string where
  "MessageTypeFetchTranslation = ''fetch_translation''"
definition MessageTypeFetchReview :: string where "MessageTypeFetchReview = ''fetch_review''"

text \<open>
  Modelled from the spec: the package \<open>pkg/constants\<close> is not among the sources; the
  keys of a job's \<open>data\<close> are \<open>hotel_id\<close> and \<open>lang\<close> (section 6, work queue message).
\<close>

definition HotelId :: string where "HotelId = ''hotel_id''"
definition Lang :: string where "Lang = ''lang''"

record Message =
  MsgID :: string
  MsgType :: string
  MsgData :: "(string \<times> string) list"

datatype MessageType =
    MessageType_UNSPECIFIED
  | MessageType_UPDATE_HOTEL
  | MessageType_UPDATE_REVIEW
  | MessageType_UPDATE_TRANSLATION
  | MessageType_FETCH_MISSING_TRANSLATIONS
  | MessageType_FETCH_MISSING_REVIEWS

text \<open>\<open>JobInfo.HotelId\<close> is an \<open>int32\<close>: the conversion wraps.\<close>

definition int32 :: "int \<Rightarrow> int" where
  "int32 x = (x + 2 ^ 31) mod 2 ^ 32 - 2 ^ 31"

record JobInfo =
  JHotelId :: int
  JMessageType :: MessageType

subsection \<open>\<open>processBatch\<close>\<close>

text \<open>
  The server: the store and the instant \<open>NOW()\<close> of its queries (both fixed during a
  run), the configured batch size, and what the run meets from outside, by message kind
  and by iteration of the page loop: \<open>ctx.Err()\<close> when the context is done at the head
  of the iteration, and the outcome of \<open>PublishWithRetry\<close> for the page's jobs.
\<close>

record server =
  db :: database
  clock :: int
  BatchSize :: int
  ctxErr :: "string \<Rightarrow> nat \<Rightarrow> string option"
  publishErr :: "string \<Rightarrow> nat \<Rightarrow> Message list \<Rightarrow> string option"

datatype page =
    Records "IDWithHotelID list"
  | MissingTranslations "HotelMissingLang list"
  | MissingReviews "IDWithHotelID list"

definition queryPage :: "server \<Rightarrow> string \<Rightarrow> int \<Rightarrow> int \<Rightarrow> string + page" where
  "queryPage s messageTypeStr lastHotelID batchSize =
     (if messageTypeStr = MessageTypeUpdateHotel then
        map_sum id Records (QueryHotelIDsByID (db s) (clock s) lastHotelID batchSize)
      else if messageTypeStr = MessageTypeUpdateReview then
        map_sum id Records (QueryReviewIDsByID (db s) (clock s) lastHotelID batchSize)
      else if messageTypeStr = MessageTypeUpdateTranslation then
        map_sum id Records (QueryTranslationIDsByID (db s) (clock s) lastHotelID batchSize)
      else if messageTypeStr = MessageTypeFetchTranslation then
        map_sum id MissingTranslations
          (GetHotelsWithMissingTranslationsRaw (db s) lastHotelID batchSize)
      else if messageTypeStr = MessageTypeFetchReview then
        map_sum id MissingReviews (GetMissingReviewsFromHotelID (db s) lastHotelID batchSize)
      else
        map_sum id Records (QueryHotelIDsByID (db s) (clock s) lastHotelID batchSize))"

definition pageHotelIDs :: "page \<Rightarrow> int list" where
  "pageHotelIDs p =
     (case p of
        Records rs \<Rightarrow> map QHotelID rs
      | MissingTranslations ms \<Rightarrow> map MHotelID ms
      | MissingReviews rs \<Rightarrow> map QHotelID rs)"

definition recordJob :: "string \<Rightarrow> IDWithHotelID \<Rightarrow> Message" where
  "recordJob messageTypeStr r =
     \<lparr>MsgID = QID r, MsgType = messageTypeStr,
      MsgData = [(HotelId, FormatInt (QHotelID r))]\<rparr>"

definition missingTranslationJob :: "string \<Rightarrow> HotelMissingLang \<Rightarrow> Message" where
  "missingTranslationJob messageTypeStr m =
     \<lparr>MsgID = FormatInt (MHotelID m) @ ''_'' @ MissingLang m, MsgType = messageTypeStr,
      MsgData = [(HotelId, FormatInt (MHotelID m)), (Lang, MissingLang m)]\<rparr>"

definition pageJobs :: "string \<Rightarrow> page \<Rightarrow> Message list" where
  "pageJobs messageTypeStr p =
     (case p of
        Records rs \<Rightarrow> map (recordJob messageTypeStr) rs
      | MissingTranslations ms \<Rightarrow> map (missingTranslationJob messageTypeStr) ms
      | MissingReviews rs \<Rightarrow> map (recordJob messageTypeStr) rs)"

definition recordMessageType :: "string \<Rightarrow> MessageType" where
  "recordMessageType messageTypeStr =
     (if messageTypeStr = MessageTypeUpdateHotel then MessageType_UPDATE_HOTEL
      else if messageTypeStr = MessageTypeUpdateReview then MessageType_UPDATE_REVIEW
      else if messageTypeStr = MessageTypeUpdateTranslation then MessageType_UPDATE_TRANSLATION
      else if messageTypeStr = MessageTypeFetchReview then MessageType_FETCH_MISSING_REVIEWS
      else MessageType_UNSPECIFIED)"

definition pageJobInfos :: "string \<Rightarrow> page \<Rightarrow> JobInfo list" where
  "pageJobInfos messageTypeStr p =
     (case p of
        Records rs \<Rightarrow>
          map (\<lambda>r. \<lparr>JHotelId = int32 (QHotelID r),
                     JMessageType = recordMessageType messageTypeStr\<rparr>) rs
      | MissingTranslations ms \<Rightarrow>
          map (\<lambda>m. \<lparr>JHotelId = int32 (MHotelID m),
                     JMessageType = MessageType_FETCH_MISSING_TRANSLATIONS\<rparr>) ms
      | MissingReviews rs \<Rightarrow>
          map (\<lambda>r. \<lparr>JHotelId = int32 (QHotelID r),
                     JMessageType = MessageType_FETCH_MISSING_REVIEWS\<rparr>) rs)"

text \<open>
  What \<open>processBatch\<close> returns (\<open>jobsTotal\<close>, \<open>jobInfos\<close>, \<open>err\<close>), with a log of what
  it did: for every query, the cursor it was issued with and the number of rows it
  returned, and every batch it published.
\<close>

record batch =
  jobsTotal :: nat
  jobInfos :: "JobInfo list"
  err :: "string option"
  queries :: "(int \<times> nat) list"
  published :: "Message list list"

datatype step = Stop batch | Continue int batch

text \<open>
  One iteration of the \<open>for\<close> loop of \<open>processBatch\<close>, numbered \<open>i\<close>. The
  pause \<open>time.Sleep(batchDelay)\<close> at its end changes no value and is left out.
\<close>

definition iteration ::
  "server \<Rightarrow> string \<Rightarrow> bool \<Rightarrow> int \<Rightarrow> nat \<Rightarrow> int \<Rightarrow> batch \<Rightarrow> step" where
  "iteration s messageTypeStr collectJobInfos batchSize i lastHotelID acc =
     (case ctxErr s messageTypeStr i of
        Some e \<Rightarrow> Stop (acc\<lparr>err := Some e\<rparr>)
      | None \<Rightarrow>
          (case queryPage s messageTypeStr lastHotelID batchSize of
             Inl e \<Rightarrow> Stop (acc\<lparr>err := Some e, queries := queries acc @ [(lastHotelID, 0)]\<rparr>)
           | Inr p \<Rightarrow>
               (let acc1 = acc\<lparr>queries := queries acc @ [(lastHotelID, length (pageHotelIDs p))]\<rparr>
                in if pageHotelIDs p = [] then Stop acc1
                   else
                     (let jobs = pageJobs messageTypeStr p;
                          acc2 = (if collectJobInfos
                                  then acc1\<lparr>jobInfos := jobInfos acc1 @ pageJobInfos messageTypeStr p\<rparr>
                                  else acc1)
                      in (case publishErr s messageTypeStr i jobs of
                            Some e \<Rightarrow> Stop (acc2\<lparr>err := Some e\<rparr>)
                          | None \<Rightarrow>
                              Continue (last (pageHotelIDs p))
                                (acc2\<lparr>jobsTotal := jobsTotal acc2 + length jobs,
                                       published := published acc2 @ [jobs]\<rparr>))))))"

text \<open>The hotel ids of the table a kind's query reads its rows from.\<close>

definition sourceHotelIDs :: "database \<Rightarrow> string \<Rightarrow> int list" where
  "sourceHotelIDs d messageTypeStr =
     (if messageTypeStr = MessageTypeUpdateReview then map RHotelID (reviews_tbl d)
      else if messageTypeStr = MessageTypeUpdateTranslation then map THotelID (translations_tbl d)
      else map HotelID (hotels_tbl d))"

function pageLoop ::
  "server \<Rightarrow> string \<Rightarrow> bool \<Rightarrow> int \<Rightarrow> nat \<Rightarrow> int \<Rightarrow> batch \<Rightarrow> batch" where
  "pageLoop s messageTypeStr collectJobInfos batchSize i lastHotelID acc =
     (case iteration s messageTypeStr collectJobInfos batchSize i lastHotelID acc of
        Stop r \<Rightarrow> r
      | Continue lastHotelID' acc' \<Rightarrow>
          pageLoop s messageTypeStr collectJobInfos batchSize (Suc i) lastHotelID' acc')"
  by pat_completeness auto

lemma cursorFilter_gt: "0 < h \<Longrightarrow> cursorFilter c h \<Longrightarrow> c < h"
  by (auto simp: cursorFilter_def split: if_splits)

lemma in_limitRows: "r \<in> set (limitRows n xs) \<Longrightarrow> r \<in> set xs"
  by (auto simp: limitRows_def dest: in_set_takeD)

lemma QueryHotelIDsByID_ids:
  assumes "QueryHotelIDsByID d t c n = Inr rs" and "r \<in> set rs"
  shows "QHotelID r \<in> HotelID ` set (hotels_tbl d) \<and> c < QHotelID r"
proof -
  from assms have "r \<in> set (map (\<lambda>h. \<lparr>QID = ID h, QHotelID = HotelID h\<rparr>)
      (filter (\<lambda>h. NextUpdateAt h < t \<and> HotelID h > 0 \<and> cursorFilter c (HotelID h)) (hotels_tbl d)))"
    by (auto simp: QueryHotelIDsByID_def split: option.splits dest!: in_limitRows)
  then show ?thesis by (auto intro: cursorFilter_gt)
qed

lemma QueryReviewIDsByID_ids:
  assumes "QueryReviewIDsByID d t c n = Inr rs" and "r \<in> set rs"
  shows "QHotelID r \<in> RHotelID ` set (reviews_tbl d) \<and> c < QHotelID r"
proof -
  from assms have "r \<in> set (map (\<lambda>r. \<lparr>QID = RID r, QHotelID = RHotelID r\<rparr>)
      (filter (\<lambda>r. RNextUpdateAt r < t \<and> RHotelID r > 0 \<and> cursorFilter c (RHotelID r)) (reviews_tbl d)))"
    by (auto simp: QueryReviewIDsByID_def split: option.splits dest!: in_limitRows)
  then show ?thesis by (auto intro: cursorFilter_gt)
qed

lemma QueryTranslationIDsByID_ids:
  assumes "QueryTranslationIDsByID d t c n = Inr rs" and "r \<in> set rs"
  shows "QHotelID r \<in> THotelID ` set (translations_tbl d) \<and> c < QHotelID r"
proof -
  from assms have "r \<in> set (map (\<lambda>t. \<lparr>QID = TID t, QHotelID = THotelID t\<rparr>)
      (filter (\<lambda>x. TNextUpdateAt x < t \<and> THotelID x > 0 \<and> cursorFilter c (THotelID x)) (translations_tbl d)))"
    by (auto simp: QueryTranslationIDsByID_def split: option.splits dest!: in_limitRows)
  then show ?thesis by (auto intro: cursorFilter_gt)
qed

lemma missingLang_ids:
  "m \<in> set (missingLang d c l) \<Longrightarrow> MHotelID m \<in> HotelID ` set (hotels_tbl d) \<and> c < MHotelID m"
  by (auto simp: missingLang_def intro: cursorFilter_gt)

lemma GetHotelsWithMissingTranslationsRaw_ids:
  assumes "GetHotelsWithMissingTranslationsRaw d c n = Inr ms" and "m \<in> set ms"
  shows "MHotelID m \<in> HotelID ` set (hotels_tbl d) \<and> c < MHotelID m"
proof -
  from assms have "m \<in> set (missingLang d c ''es'') \<or> m \<in> set (missingLang d c ''fr'')"
    by (auto simp: GetHotelsWithMissingTranslationsRaw_def split: option.splits dest!: in_limitRows)
  then show ?thesis using missingLang_ids by blast
qed

lemma GetMissingReviewsFromHotelID_ids:
  assumes "GetMissingReviewsFromHotelID d c n = Inr rs" and "r \<in> set rs"
  shows "QHotelID r \<in> HotelID ` set (hotels_tbl d) \<and> c < QHotelID r"
proof -
  from assms have "r \<in> set (map (\<lambda>h. \<lparr>QID = ID h, QHotelID = HotelID h\<rparr>)
      (filter (\<lambda>h. \<not> list_ex (\<lambda>r. RHotelID r = HotelID h) (reviews_tbl d)
                            \<and> HotelID h > 0 \<and> cursorFilter c (HotelID h)) (hotels_tbl d)))"
    by (auto simp: GetMissingReviewsFromHotelID_def split: option.splits dest!: in_limitRows)
  then show ?thesis by (auto intro: cursorFilter_gt)
qed

lemma kinds_distinct:
  "MessageTypeUpdateHotel \<noteq> MessageTypeUpdateReview"
  "MessageTypeUpdateHotel \<noteq> MessageTypeUpdateTranslation"
  "MessageTypeUpdateHotel \<noteq> MessageTypeFetchTranslation"
  "MessageTypeUpdateHotel \<noteq> MessageTypeFetchReview"
  "MessageTypeUpdateReview \<noteq> MessageTypeUpdateTranslation"
  "MessageTypeUpdateReview \<noteq> MessageTypeFetchTranslation"
  "MessageTypeUpdateReview \<noteq> MessageTypeFetchReview"
  "MessageTypeUpdateTranslation \<noteq> MessageTypeFetchTranslation"
  "MessageTypeUpdateTranslation \<noteq> MessageTypeFetchReview"
  "MessageTypeFetchTranslation \<noteq> MessageTypeFetchReview"
  by (simp_all add: MessageTypeUpdateHotel_def MessageTypeUpdateReview_def
      MessageTypeUpdateTranslation_def MessageTypeFetchTranslation_def MessageTypeFetchReview_def)

lemma queryPage_ids:
  assumes q: "queryPage s k c n = Inr p" and h: "h \<in> set (pageHotelIDs p)"
  shows "h \<in> set (sourceHotelIDs (db s) k) \<and> c < h"
proof -
  consider (uh) "k = MessageTypeUpdateHotel" | (ur) "k = MessageTypeUpdateReview"
    | (ut) "k = MessageTypeUpdateTranslation" | (ft) "k = MessageTypeFetchTranslation"
    | (fr) "k = MessageTypeFetchReview"
    | (other) "k \<noteq> MessageTypeUpdateHotel" "k \<noteq> MessageTypeUpdateReview"
        "k \<noteq> MessageTypeUpdateTranslation" "k \<noteq> MessageTypeFetchTranslation"
        "k \<noteq> MessageTypeFetchReview"
    by blast
  then show ?thesis
  proof cases
    case uh
    with q obtain rs where "QueryHotelIDsByID (db s) (clock s) c n = Inr rs" "p = Records rs"
      by (auto simp: queryPage_def map_sum_def split: sum.splits)
    with h uh kinds_distinct show ?thesis
      using QueryHotelIDsByID_ids by (auto simp: pageHotelIDs_def sourceHotelIDs_def)
  next
    case ur
    with q kinds_distinct obtain rs where "QueryReviewIDsByID (db s) (clock s) c n = Inr rs" "p = Records rs"
      by (auto simp: queryPage_def map_sum_def split: sum.splits)
    with h ur kinds_distinct show ?thesis
      using QueryReviewIDsByID_ids by (auto simp: pageHotelIDs_def sourceHotelIDs_def)
  next
    case ut
    with q kinds_distinct obtain rs where "QueryTranslationIDsByID (db s) (clock s) c n = Inr rs" "p = Records rs"
      by (auto simp: queryPage_def map_sum_def split: sum.splits)
    with h ut kinds_distinct show ?thesis
      using QueryTranslationIDsByID_ids by (auto simp: pageHotelIDs_def sourceHotelIDs_def)
  next
    case ft
    with q kinds_distinct obtain ms where "GetHotelsWithMissingTranslationsRaw (db s) c n = Inr ms" "p = MissingTranslations ms"
      by (auto simp: queryPage_def map_sum_def split: sum.splits)
    with h ft kinds_distinct show ?thesis
      using GetHotelsWithMissingTranslationsRaw_ids by (auto simp: pageHotelIDs_def sourceHotelIDs_def)
  next
    case fr
    with q kinds_distinct obtain rs where "GetMissingReviewsFromHotelID (db s) c n = Inr rs" "p = MissingReviews rs"
      by (auto simp: queryPage_def map_sum_def split: sum.splits)
    with h fr kinds_distinct show ?thesis
      using GetMissingReviewsFromHotelID_ids by (auto simp: pageHotelIDs_def sourceHotelIDs_def)
  next
    case other
    with q obtain rs where "QueryHotelIDsByID (db s) (clock s) c n = Inr rs" "p = Records rs"
      by (auto simp: queryPage_def map_sum_def split: sum.splits)
    with h other show ?thesis
      using QueryHotelIDsByID_ids by (auto simp: pageHotelIDs_def sourceHotelIDs_def)
  qed
qed

lemma iteration_Continue:
  assumes "iteration s k col n i c acc = Continue c' acc'"
  shows "c' \<in> set (sourceHotelIDs (db s) k) \<and> c < c'"
proof -
  from assms obtain p where p: "queryPage s k c n = Inr p" "pageHotelIDs p \<noteq> []"
      "c' = last (pageHotelIDs p)"
    by (auto simp: iteration_def Let_def split: option.splits sum.splits if_splits)
  then have "c' \<in> set (pageHotelIDs p)" by simp
  with p(1) show ?thesis by (rule queryPage_ids)
qed

lemma length_filter_gt_less:
  assumes "c' \<in> set xs" and "c < (c'::int)"
  shows "length (filter (\<lambda>h. c' < h) xs) < length (filter (\<lambda>h. c < h) xs)"
  using assms
proof (induction xs)
  case Nil
  then show ?case by simp
next
  case (Cons x xs)
  have le: "length (filter (\<lambda>h. c' < h) xs) \<le> length (filter (\<lambda>h. c < h) xs)"
    using Cons.prems(2) by (induction xs) auto
  show ?case
  proof (cases "x = c'")
    case True
    with le Cons.prems(2) show ?thesis by simp
  next
    case False
    with Cons have "length (filter (\<lambda>h. c' < h) xs) < length (filter (\<lambda>h. c < h) xs)" by simp
    then show ?thesis using Cons.prems(2) by auto
  qed
qed

termination pageLoop
proof (relation "measure (\<lambda>(s, k, col, n, i, c, acc).
          length (filter (\<lambda>h. c < h) (sourceHotelIDs (db s) k)))", goal_cases)
  case 1
  show ?case by simp
next
  case (2 s k col n i c acc c' acc')
  from iteration_Continue[OF 2] show ?case
    by (simp add: length_filter_gt_less)
qed

declare pageLoop.simps [simp del]

definition emptyBatch :: batch where
  "emptyBatch = \<lparr>jobsTotal = 0, jobInfos = [], err = None, queries = [], published = []\<rparr>"

definition processBatch :: "server \<Rightarrow> string \<Rightarrow> bool \<Rightarrow> batch" where
  "processBatch s messageTypeStr collectJobInfos =
     (let batchSize = (if BatchSize s \<le> 0 then 1000 else BatchSize s)
      in pageLoop s messageTypeStr collectJobInfos batchSize 0 0 emptyBatch)"

text \<open>
  \<open>runOnce\<close> returns nothing; the model returns the runs of \<open>processBatch\<close> it made,
  each with its kind.
\<close>

definition runOnce :: "server \<Rightarrow> (string \<times> batch) list" where
  "runOnce s =
     (let hotelRun = processBatch s MessageTypeUpdateHotel False
      in if err hotelRun \<noteq> None then [(MessageTypeUpdateHotel, hotelRun)]
         else
           (let translationRun = processBatch s MessageTypeFetchTranslation False
            in if err translationRun \<noteq> None
               then [(MessageTypeUpdateHotel, hotelRun), (MessageTypeFetchTranslation, translationRun)]
               else
                 (let reviewRun = processBatch s MessageTypeFetchReview False
                  in [(MessageTypeUpdateHotel, hotelRun),
                      (MessageTypeFetchTranslation, translationRun),
                      (MessageTypeFetchReview, reviewRun)])))"

section \<open>The worker's repository (worker/adapter/gorm\_repository.go)\<close>

subsection \<open>The statements of the library \<open>gorm\<close> that the repository issues\<close>

text \<open>
  A table is the list of its rows, in the order in which \<open>First\<close> visits them.
  \<open>First\<close> returns the first row that is not soft-deleted and meets the condition, or
  \<open>ErrRecordNotFound\<close>. \<open>Create\<close> runs the entity's \<open>BeforeCreate\<close> hook and inserts
  the row; the insert fails when the row clashes with a stored row on the primary key or
  on a unique index. \<open>Save\<close> of a record whose primary key is empty is \<open>Create\<close>;
  otherwise it runs the \<open>BeforeUpdate\<close> hook and writes every column of the record to
  the row with its primary key (inserting the record when there is no such row), and
  fails when the record clashes with another row on a unique index. Every statement
  fails while the store has a fault.
\<close>

datatype gorm_error = ErrRecordNotFound | DBError string

definition errorText :: "gorm_error \<Rightarrow> string" where
  "errorText e = (case e of ErrRecordNotFound \<Rightarrow> ''record not found'' | DBError m \<Rightarrow> m)"

definition duplicateKey :: gorm_error where
  "duplicateKey = DBError ''duplicate key value violates unique constraint''"

definition firstRow :: "('r \<Rightarrow> DeletedAt) \<Rightarrow> ('r \<Rightarrow> bool) \<Rightarrow> 'r list \<Rightarrow> gorm_error + 'r" where
  "firstRow del cond rows =
     (case find (\<lambda>r. \<not> Valid (del r) \<and> cond r) rows of
        None \<Rightarrow> Inl ErrRecordNotFound
      | Some r \<Rightarrow> Inr r)"

definition insertRow :: "('r \<Rightarrow> 'r \<Rightarrow> bool) \<Rightarrow> 'r \<Rightarrow> 'r list \<Rightarrow> gorm_error + 'r list" where
  "insertRow clash r rows =
     (if list_ex (clash r) rows then Inl duplicateKey else Inr (rows @ [r]))"

definition saveRow ::
  "('r \<Rightarrow> string) \<Rightarrow> ('r \<Rightarrow> 'r \<Rightarrow> bool) \<Rightarrow> 'r \<Rightarrow> 'r list \<Rightarrow> gorm_error + 'r list" where
  "saveRow key clash r rows =
     (if list_ex (\<lambda>x. key x \<noteq> key r \<and> clash r x) rows then Inl duplicateKey
      else if list_ex (\<lambda>x. key x = key r) rows
      then Inr (map (\<lambda>x. if key x = key r then r else x) rows)
      else Inr (rows @ [r]))"

text \<open>
  The keys of the three tables, from the entities' tags: each has the primary key
  \<open>id\<close>; only \<open>reviews\<close> has a unique index, on \<open>review_id\<close>.
\<close>

definition hotelClash :: "HotelData \<Rightarrow> HotelData \<Rightarrow> bool" where
  "hotelClash a b = (ID a = ID b)"

definition translationClash :: "HotelTranslation \<Rightarrow> HotelTranslation \<Rightarrow> bool" where
  "translationClash a b = (TID a = TID b)"

definition reviewClash :: "ReviewData \<Rightarrow> ReviewData \<Rightarrow> bool" where
  "reviewClash a b = (RID a = RID b \<or> ReviewID a = ReviewID b)"

definition Create_HotelData ::
  "int \<Rightarrow> string \<Rightarrow> database \<Rightarrow> HotelData \<Rightarrow> gorm_error option \<times> database" where
  "Create_HotelData now uuid d h =
     (case fault d of
        Some e \<Rightarrow> (Some (DBError e), d)
      | None \<Rightarrow>
          (case insertRow hotelClash (HotelData_BeforeCreate now uuid h) (hotels_tbl d) of
             Inl e \<Rightarrow> (Some e, d)
           | Inr rows \<Rightarrow> (None, d\<lparr>hotels_tbl := rows\<rparr>)))"

definition Save_HotelData ::
  "int \<Rightarrow> string \<Rightarrow> database \<Rightarrow> HotelData \<Rightarrow> gorm_error option \<times> database" where
  "Save_HotelData now uuid d h =
     (if ID h = [] then Create_HotelData now uuid d h
      else
        (case fault d of
           Some e \<Rightarrow> (Some (DBError e), d)
         | None \<Rightarrow>
             (case saveRow ID hotelClash (HotelData_BeforeUpdate now h) (hotels_tbl d) of
                Inl e \<Rightarrow> (Some e, d)
              | Inr rows \<Rightarrow> (None, d\<lparr>hotels_tbl := rows\<rparr>))))"

definition Create_HotelTranslation ::
  "int \<Rightarrow> string \<Rightarrow> database \<Rightarrow> HotelTranslation \<Rightarrow> gorm_error option \<times> database" where
  "Create_HotelTranslation now uuid d t =
     (case fault d of
        Some e \<Rightarrow> (Some (DBError e), d)
      | None \<Rightarrow>
          (case insertRow translationClash (HotelTranslation_BeforeCreate now uuid t)
                  (translations_tbl d) of
             Inl e \<Rightarrow> (Some e, d)
           | Inr rows \<Rightarrow> (None, d\<lparr>translations_tbl := rows\<rparr>)))"

definition Save_HotelTranslation ::
  "int \<Rightarrow> string \<Rightarrow> database \<Rightarrow> HotelTranslation \<Rightarrow> gorm_error option \<times> database" where
  "Save_HotelTranslation now uuid d t =
     (if TID t = [] then Create_HotelTranslation now uuid d t
      else
        (case fault d of
           Some e \<Rightarrow> (Some (DBError e), d)
         | None \<Rightarrow>
             (case saveRow TID translationClash (HotelTranslation_BeforeUpdate now t)
                     (translations_tbl d) of
                Inl e \<Rightarrow> (Some e, d)
              | Inr rows \<Rightarrow> (None, d\<lparr>translations_tbl := rows\<rparr>))))"

definition Create_ReviewData ::
  "int \<Rightarrow> string \<Rightarrow> database \<Rightarrow> ReviewData \<Rightarrow> gorm_error option \<times> database" where
  "Create_ReviewData now uuid d r =
     (case fault d of
        Some e \<Rightarrow> (Some (DBError e), d)
      | None \<Rightarrow>
          (case insertRow reviewClash (ReviewData_BeforeCreate now uuid r) (reviews_tbl d) of
             Inl e \<Rightarrow> (Some e, d)
           | Inr rows \<Rightarrow> (None, d\<lparr>reviews_tbl := rows\<rparr>)))"

definition Save_ReviewData ::
  "int \<Rightarrow> string \<Rightarrow> database \<Rightarrow> ReviewData \<Rightarrow> gorm_error option \<times> database" where
  "Save_ReviewData now uuid d r =
     (if RID r = [] then Create_ReviewData now uuid d r
      else
        (case fault d of
           Some e \<Rightarrow> (Some (DBError e), d)
         | None \<Rightarrow>
             (case saveRow RID reviewClash (ReviewData_BeforeUpdate now r) (reviews_tbl d) of
                Inl e \<Rightarrow> (Some e, d)
              | Inr rows \<Rightarrow> (None, d\<lparr>reviews_tbl := rows\<rparr>))))"

definition First_HotelData :: "database \<Rightarrow> (HotelData \<Rightarrow> bool) \<Rightarrow> gorm_error + HotelData" where
  "First_HotelData d cond =
     (case fault d of Some e \<Rightarrow> Inl (DBError e) | None \<Rightarrow> firstRow DeletedAt cond (hotels_tbl d))"

definition First_HotelTranslation ::
  "database \<Rightarrow> (HotelTranslation \<Rightarrow> bool) \<Rightarrow> gorm_error + HotelTranslation" where
  "First_HotelTranslation d cond =
     (case fault d of
        Some e \<Rightarrow> Inl (DBError e)
      | None \<Rightarrow> firstRow TDeletedAt cond (translations_tbl d))"

definition First_ReviewData :: "database \<Rightarrow> (ReviewData \<Rightarrow> bool) \<Rightarrow> gorm_error + ReviewData" where
  "First_ReviewData d cond =
     (case fault d of Some e \<Rightarrow> Inl (DBError e) | None \<Rightarrow> firstRow RDeletedAt cond (reviews_tbl d))"

subsection \<open>The repository\<close>

definition UpsertHotel ::
  "int \<Rightarrow> string \<Rightarrow> database \<Rightarrow> HotelData \<Rightarrow> gorm_error option \<times> database" where
  "UpsertHotel now uuid d hotel =
     (case First_HotelData d (\<lambda>x. HotelID x = HotelID hotel) of
        Inl e \<Rightarrow>
          (if e = ErrRecordNotFound then Create_HotelData now uuid d hotel else (Some e, d))
      | Inr existingHotel \<Rightarrow>
          Save_HotelData now uuid d
            (hotel\<lparr>ID := ID existingHotel, CreatedAt := CreatedAt existingHotel\<rparr>))"

definition UpsertHotelTranslations ::
  "int \<Rightarrow> string \<Rightarrow> database \<Rightarrow> HotelTranslation \<Rightarrow> gorm_error option \<times> database" where
  "UpsertHotelTranslations now uuid d tr =
     (case First_HotelTranslation d (\<lambda>x. THotelID x = THotelID tr \<and> TLang x = TLang tr) of
        Inl e \<Rightarrow>
          (if e = ErrRecordNotFound then Create_HotelTranslation now uuid d tr else (Some e, d))
      | Inr existingTranslations \<Rightarrow>
          Save_HotelTranslation now uuid d
            (tr\<lparr>TID := TID existingTranslations,
                TCreatedAt := TCreatedAt existingTranslations\<rparr>))"

definition CreateReview ::
  "int \<Rightarrow> string \<Rightarrow> database \<Rightarrow> ReviewData \<Rightarrow> gorm_error option \<times> database" where
  "CreateReview now uuid d review = Create_ReviewData now uuid d review"

definition UpdateReview ::
  "int \<Rightarrow> string \<Rightarrow> database \<Rightarrow> ReviewData \<Rightarrow> gorm_error option \<times> database" where
  "UpdateReview now uuid d review = Save_ReviewData now uuid d review"

definition GetReviewByReviewID :: "database \<Rightarrow> int \<Rightarrow> gorm_error + ReviewData" where
  "GetReviewByReviewID d reviewID = First_ReviewData d (\<lambda>x. ReviewID x = reviewID)"

definition GetHotelIdByPk :: "database \<Rightarrow> string \<Rightarrow> int" where
  "GetHotelIdByPk d pk =
     (case First_HotelData d (\<lambda>x. ID x = pk) of Inl e \<Rightarrow> 0 | Inr h \<Rightarrow> HotelID h)"

definition ReviewCountByHotelId :: "database \<Rightarrow> int \<Rightarrow> int" where
  "ReviewCountByHotelId d hotelId =
     (case fault d of
        Some e \<Rightarrow> 0
      | None \<Rightarrow>
          int (length (filter (\<lambda>r. \<not> Valid (RDeletedAt r) \<and> RHotelID r = hotelId)
                         (reviews_tbl d))))"

definition GetHotelIdFromReviewByPk :: "database \<Rightarrow> string \<Rightarrow> int" where
  "GetHotelIdFromReviewByPk d pk =
     (case First_ReviewData d (\<lambda>x. RID x = pk) of Inl e \<Rightarrow> 0 | Inr r \<Rightarrow> RHotelID r)"

definition GetLangById :: "database \<Rightarrow> string \<Rightarrow> string" where
  "GetLangById d pk =
     (case First_HotelTranslation d (\<lambda>x. TID x = pk) of Inl e \<Rightarrow> [] | Inr t \<Rightarrow> TLang t)"

section \<open>The worker (cmd/worker/message\_processor.go)\<close>

subsection \<open>Messages, configuration, collaborators\<close>

text \<open>
  The values of a job's \<open>data\<close> are of type \<open>any\<close>; the worker only ever asserts them to
  be strings. \<open>Data\<close> is \<open>None\<close> for a nil map.
\<close>

datatype any = String string | NotAString

record queueMessage =
  MID :: string
  MMessageType :: string
  Data :: "(string \<times> any) list option"

record EntityTTLConfig =
  LockSeconds :: int
  CacheSeconds :: int
  NextUpdateSeconds :: int

record TTLConfig =
  Hotels :: EntityTTLConfig
  Reviews :: EntityTTLConfig
  Translations :: EntityTTLConfig

definition getTTLConfigForEntity :: "TTLConfig \<Rightarrow> string \<Rightarrow> EntityTTLConfig" where
  "getTTLConfigForEntity cfg messageType =
     (if messageType = MessageTypeUpdateHotel then Hotels cfg
      else if messageType = MessageTypeUpdateReview then Reviews cfg
      else if messageType = MessageTypeUpdateTranslation then Translations cfg
      else Hotels cfg)"

text \<open>
  The responses of the upstream API, and their conversion to entities. The nested
  aggregates that the conversions marshal to JSON (values that were themselves decoded
  from JSON) are carried in one field; the conversions set neither \<open>ID\<close>, \<open>Status\<close>,
  \<open>Source\<close> nor any timestamp, which are the zero values.
\<close>

record HotelAPIResponse =
  AHotelID :: int
  AHotelName :: string
  AColumns :: string

record TranslationAPIResponse =
  BHotelID :: int
  BHotelName :: string
  BColumns :: string

record ReviewAPIResponse =
  CReviewID :: int
  CLanguage :: string
  CColumns :: string

definition zeroDeletedAt :: DeletedAt where
  "zeroDeletedAt = \<lparr>Time = 0, Valid = False\<rparr>"

definition ToHotelData :: "HotelAPIResponse \<Rightarrow> HotelData" where
  "ToHotelData a =
     \<lparr>ID = [], HotelID = AHotelID a, Name = AHotelName a, Status = [], Source = [],
      Columns = AColumns a, CreatedAt = 0, UpdatedAt = 0, DeletedAt = zeroDeletedAt,
      NextUpdateAt = 0\<rparr>"

definition ToHotelTranslations :: "TranslationAPIResponse \<Rightarrow> string \<Rightarrow> HotelTranslation" where
  "ToHotelTranslations b lang =
     \<lparr>TID = [], THotelID = BHotelID b, TLang = lang, TName = BHotelName b, TStatus = [],
      TSource = [], TColumns = BColumns b, TCreatedAt = 0, TUpdatedAt = 0,
      TDeletedAt = zeroDeletedAt, TNextUpdateAt = 0\<rparr>"

definition ToReviewData :: "ReviewAPIResponse \<Rightarrow> int \<Rightarrow> ReviewData" where
  "ToReviewData c hotelID =
     \<lparr>RID = [], RHotelID = hotelID, ReviewID = CReviewID c, Language = CLanguage c,
      RColumns = CColumns c, RCreatedAt = 0, RUpdatedAt = 0, RDeletedAt = zeroDeletedAt,
      RNextUpdateAt = 0\<rparr>"

definition ToReviewDataList :: "ReviewAPIResponse list \<Rightarrow> int \<Rightarrow> ReviewData list" where
  "ToReviewDataList cs hotelID = map (\<lambda>c. ToReviewData c hotelID) cs"

text \<open>
  What the worker meets from outside while it handles one message: the lock service
  (\<open>Acquire\<close> returns an error, or whether the lock was acquired), the cache (whether
  \<open>Get\<close> found the key without error), the API client (an error or the response),
  the clock, and the identifiers that \<open>uuid.New()\<close> hands out.
\<close>

record world =
  Acquire :: "string \<Rightarrow> int \<Rightarrow> string + bool"
  cacheFound :: "string \<Rightarrow> bool"
  FetchHotelData :: "int \<Rightarrow> string + HotelAPIResponse"
  FetchHotelReviews :: "int \<Rightarrow> int \<Rightarrow> string + ReviewAPIResponse list"
  FetchTranslations :: "string \<Rightarrow> string \<Rightarrow> string + TranslationAPIResponse"
  timeNow :: int
  newUUID :: "nat \<Rightarrow> string"
  TTL :: TTLConfig

datatype api_call =
    CallFetchHotelData int
  | CallFetchHotelReviews int int
  | CallFetchTranslations string string

text \<open>
  What the worker changes: the store, and a log of its calls to the API client, of the
  cache keys it set, of the locks it released and of the identifiers it drew.
\<close>

record worker =
  store :: database
  apiCalls :: "api_call list"
  cacheSets :: "string list"
  released :: "string list"
  uuidsDrawn :: nat

text \<open>How a handler ends: it returns nil, it returns an error, or it panics.\<close>

datatype outcome = Success | Failure string | Panic string

definition nextUpdateAt :: "world \<Rightarrow> EntityTTLConfig \<Rightarrow> int" where
  "nextUpdateAt w ttl = timeNow w + NextUpdateSeconds ttl * second"

subsection \<open>The handlers\<close>

definition processHotelMessage :: "world \<Rightarrow> worker \<Rightarrow> queueMessage \<Rightarrow> outcome \<times> worker" where
  "processHotelMessage w st message =
     (let cacheKey = ''hotel_data_'' @ MID message
      in if cacheFound w cacheKey then (Success, st)
         else
           (let hotelId = GetHotelIdByPk (store st) (MID message);
                st1 = st\<lparr>apiCalls := apiCalls st @ [CallFetchHotelData hotelId]\<rparr>
            in (case FetchHotelData w hotelId of
                  Inl e \<Rightarrow> (Failure (''failed to fetch hotel data: '' @ e), st1)
                | Inr hotelAPIResponse \<Rightarrow>
                    (let hotelTTL = getTTLConfigForEntity (TTL w) (MMessageType message);
                         hotelData = (ToHotelData hotelAPIResponse)
                                       \<lparr>NextUpdateAt := nextUpdateAt w hotelTTL\<rparr>;
                         (e, d) = UpsertHotel (timeNow w) (newUUID w (uuidsDrawn st1))
                                    (store st1) hotelData;
                         st2 = st1\<lparr>store := d, uuidsDrawn := Suc (uuidsDrawn st1)\<rparr>
                     in (case e of
                           Some e \<Rightarrow> (Failure (''failed to persist hotel data: '' @ errorText e), st2)
                         | None \<Rightarrow> (Success, st2\<lparr>cacheSets := cacheSets st2 @ [cacheKey]\<rparr>))))))"

text \<open>
  The loop over the mapped reviews (lines 300 to 312 of the file): \<open>upsertReview\<close> is
  its body for one review, \<open>upsertReviews\<close> the loop, which returns at the first error.
\<close>

definition upsertReview ::
  "world \<Rightarrow> EntityTTLConfig \<Rightarrow> worker \<Rightarrow> ReviewData \<Rightarrow> string option \<times> worker" where
  "upsertReview w reviewsTTL st review0 =
     (let review = review0\<lparr>RNextUpdateAt := nextUpdateAt w reviewsTTL\<rparr>;
          uuid = newUUID w (uuidsDrawn st);
          existing = GetReviewByReviewID (store st) (ReviewID review);
          found = (case existing of Inl e \<Rightarrow> False | Inr x \<Rightarrow> RID x \<noteq> [])
      in if found then
           (let (e, d) = UpdateReview (timeNow w) uuid (store st)
                           (review\<lparr>RID := RID (projr existing)\<rparr>);
                st1 = st\<lparr>store := d, uuidsDrawn := Suc (uuidsDrawn st)\<rparr>
            in (case e of
                  Some e \<Rightarrow>
                    (Some (''failed to update review '' @ FormatInt (ReviewID review) @ '': ''
                             @ errorText e), st1)
                | None \<Rightarrow> (None, st1)))
         else
           (let (e, d) = CreateReview (timeNow w) uuid (store st) review;
                st1 = st\<lparr>store := d, uuidsDrawn := Suc (uuidsDrawn st)\<rparr>
            in (case e of
                  Some e \<Rightarrow>
                    (Some (''failed to create review '' @ FormatInt (ReviewID review) @ '': ''
                             @ errorText e), st1)
                | None \<Rightarrow> (None, st1))))"

fun upsertReviews ::
  "world \<Rightarrow> EntityTTLConfig \<Rightarrow> worker \<Rightarrow> ReviewData list \<Rightarrow> string option \<times> worker" where
  "upsertReviews w reviewsTTL st [] = (None, st)"
| "upsertReviews w reviewsTTL st (review # rest) =
     (case upsertReview w reviewsTTL st review of
        (Some e, st1) \<Rightarrow> (Some e, st1)
      | (None, st1) \<Rightarrow> upsertReviews w reviewsTTL st1 rest)"

text \<open>
  The first part of \<open>processReviewsMessage\<close>: the hotel id and the number of reviews
  to ask for. \<open>Inl\<close> ends the handler with that outcome.
\<close>

definition reviewsTarget :: "worker \<Rightarrow> queueMessage \<Rightarrow> outcome + int \<times> int" where
  "reviewsTarget st message =
     (if MMessageType message = MessageTypeFetchReview then
        (case Data message of
           None \<Rightarrow> Inl (Failure ''message data is nil'')
         | Some data \<Rightarrow>
             (case map_of data HotelId of
                Some (String hotelIdStr) \<Rightarrow>
                  (case Atoi hotelIdStr of
                     None \<Rightarrow> Inl (Failure (''failed to parse hotel_id: strconv.ParseInt: parsing ''
                                            @ hotelIdStr))
                   | Some hotelId \<Rightarrow> Inr (hotelId, 10))
              | _ \<Rightarrow> Inl (Panic ''interface conversion: interface {} is not string'')))
      else
        (let hotelId = GetHotelIdFromReviewByPk (store st) (MID message)
         in if hotelId = 0 then Inl Success
            else
              (let reviewCount = ReviewCountByHotelId (store st) hotelId
               in if reviewCount = 0 then Inl Success else Inr (hotelId, reviewCount))))"

definition processReviewsMessage :: "world \<Rightarrow> worker \<Rightarrow> queueMessage \<Rightarrow> outcome \<times> worker" where
  "processReviewsMessage w st message =
     (let cacheKey = ''reviews_data_'' @ MID message
      in if cacheFound w cacheKey then (Success, st)
         else
           (case reviewsTarget st message of
              Inl out \<Rightarrow> (out, st)
            | Inr (hotelId, reviewCount) \<Rightarrow>
                (let st1 = st\<lparr>apiCalls := apiCalls st @ [CallFetchHotelReviews hotelId reviewCount]\<rparr>
                 in (case FetchHotelReviews w hotelId reviewCount of
                       Inl e \<Rightarrow> (Failure (''failed to fetch reviews: '' @ e), st1)
                     | Inr fetchedReviews \<Rightarrow>
                         (let mappedReviews = ToReviewDataList fetchedReviews hotelId;
                              reviewsTTL = getTTLConfigForEntity (TTL w) ''reviews'';
                              (e, st2) = upsertReviews w reviewsTTL st1 mappedReviews
                          in (case e of
                                Some e \<Rightarrow> (Failure e, st2)
                              | None \<Rightarrow>
                                  (Success, st2\<lparr>cacheSets := cacheSets st2 @ [cacheKey]\<rparr>)))))))"

definition processTranslationsMessage ::
  "world \<Rightarrow> worker \<Rightarrow> queueMessage \<Rightarrow> outcome \<times> worker" where
  "processTranslationsMessage w st message =
     (let cacheKey = ''translations_data_'' @ MID message
      in if cacheFound w cacheKey then (Success, st)
         else
           (case Data message of
              None \<Rightarrow> (Failure ''message data is nil'', st)
            | Some data \<Rightarrow>
                (case map_of data HotelId of
                   Some (String hotelId) \<Rightarrow>
                     (let langValue =
                            (if MMessageType message = MessageTypeFetchTranslation
                             then (case map_of data Lang of
                                     Some (String l) \<Rightarrow> Some l
                                   | _ \<Rightarrow> None)
                             else if MMessageType message = MessageTypeUpdateTranslation
                             then Some (GetLangById (store st) (MID message))
                             else Some [])
                      in (case langValue of
                            None \<Rightarrow> (Panic ''interface conversion: interface {} is not string'', st)
                          | Some lang \<Rightarrow>
                              (if lang = [] then (Failure ''lang is empty'', st)
                               else
                                 (let st1 = st\<lparr>apiCalls := apiCalls st
                                                   @ [CallFetchTranslations hotelId lang]\<rparr>
                                  in (case FetchTranslations w hotelId lang of
                                        Inl e \<Rightarrow>
                                          (Failure (''failed to fetch translations data: '' @ e), st1)
                                      | Inr translationsAPIResponse \<Rightarrow>
                                          (let translationsTTL =
                                                 getTTLConfigForEntity (TTL w) ''translations'';
                                               translationsData =
                                                 (ToHotelTranslations translationsAPIResponse lang)
                                                   \<lparr>TNextUpdateAt := nextUpdateAt w translationsTTL\<rparr>;
                                               (e, d) = UpsertHotelTranslations (timeNow w)
                                                          (newUUID w (uuidsDrawn st1)) (store st1)
                                                          translationsData;
                                               st2 = st1\<lparr>store := d,
                                                          uuidsDrawn := Suc (uuidsDrawn st1)\<rparr>
                                           in (case e of
                                                 Some e \<Rightarrow>
                                                   (Failure (''failed to persist translations data: ''
                                                               @ errorText e), st2)
                                               | None \<Rightarrow>
                                                   (Success,
                                                    st2\<lparr>cacheSets := cacheSets st2 @ [cacheKey]\<rparr>))))))))
                 | _ \<Rightarrow> (Panic ''interface conversion: interface {} is not string'', st))))"

subsection \<open>\<open>processMessage\<close> and the consumer loop\<close>

text \<open>
  \<open>processMessage\<close> receives the outcome of \<open>json.Unmarshal\<close> on the delivery's body:
  an error, or the decoded message. The deferred \<open>Release\<close> runs whenever the lock was
  acquired, also when the handler panics.
\<close>

definition lockKey :: "queueMessage \<Rightarrow> string" where
  "lockKey message = ''hotel_lock_'' @ MID message"

definition dispatch :: "world \<Rightarrow> worker \<Rightarrow> queueMessage \<Rightarrow> outcome \<times> worker" where
  "dispatch w st message =
     (if MMessageType message = MessageTypeUpdateHotel
      then processHotelMessage w st message
      else if MMessageType message = MessageTypeUpdateReview
              \<or> MMessageType message = MessageTypeFetchReview
      then processReviewsMessage w st message
      else if MMessageType message = MessageTypeUpdateTranslation
              \<or> MMessageType message = MessageTypeFetchTranslation
      then processTranslationsMessage w st message
      else (Success, st))"

definition processMessage ::
  "world \<Rightarrow> worker \<Rightarrow> string + queueMessage \<Rightarrow> outcome \<times> worker" where
  "processMessage w st body =
     (case body of
        Inl e \<Rightarrow> (Failure (''failed to unmarshal message: '' @ e), st)
      | Inr message \<Rightarrow>
          (let entityTTL = getTTLConfigForEntity (TTL w) (MMessageType message);
               lockTTL = LockSeconds entityTTL * second
           in (case Acquire w (lockKey message) lockTTL of
                 Inl e \<Rightarrow> (Failure (''failed to acquire lock: '' @ e), st)
               | Inr locked \<Rightarrow>
                   (if \<not> locked then (Success, st)
                    else
                      (let (out, st1) = dispatch w st message;
                           st2 = st1\<lparr>released := released st1 @ [lockKey message]\<rparr>
                       in (case out of
                             Failure e \<Rightarrow>
                               (Failure (''failed to process '' @ MMessageType message
                                           @ '' job: '' @ e), st2)
                           | _ \<Rightarrow> (out, st2)))))))"

text \<open>
  What the consumer loop does with a delivery once \<open>processMessage\<close> has returned:
  \<open>Ack(false)\<close> on nil, \<open>Nack(false, false)\<close> (no requeue: the broker dead-letters the
  message) on an error. A panic is not recovered: the delivery is not settled.
\<close>

datatype settlement = Ack bool | Nack bool bool | Unsettled

definition settle :: "outcome \<Rightarrow> settlement" where
  "settle out =
     (case out of
        Success \<Rightarrow> Ack False
      | Failure e \<Rightarrow> Nack False False
      | Panic e \<Rightarrow> Unsettled)"

text \<open>
  The consumer loop over the deliveries that arrive: each is processed and settled in
  turn; a panic ends the loop.
\<close>

fun consumeMessages ::
  "world \<Rightarrow> worker \<Rightarrow> (string + queueMessage) list \<Rightarrow> settlement list \<times> worker" where
  "consumeMessages w st [] = ([], st)"
| "consumeMessages w st (msg # msgs) =
     (let (out, st1) = processMessage w st msg
      in (case out of
            Panic e \<Rightarrow> ([Unsettled], st1)
          | _ \<Rightarrow> (let (ss, st2) = consumeMessages w st1 msgs in (settle out # ss, st2))))"

subsection \<open>Notions used to state the properties of the review loop\<close>

text \<open>
  \<open>receives w st message r\<close>: handling \<open>message\<close> in the state \<open>st\<close>, the worker
  reaches the API call and upstream answers with a list that holds a review whose
  \<open>review_id\<close> is \<open>r\<close>. \<open>fetched w st message\<close>: the hotel id the worker asks
  for and the list upstream answers with, when the worker reaches the API call and the
  call succeeds. \<open>reviewsUnique\<close>: the two uniqueness constraints of the
  table \<open>reviews\<close> (primary key, unique index on \<open>review_id\<close>). \<open>reviewKeys\<close>: the
  pairs of primary key and \<open>review_id\<close> of its rows.
\<close>

definition receives :: "world \<Rightarrow> worker \<Rightarrow> queueMessage \<Rightarrow> int \<Rightarrow> bool" where
  "receives w st message r =
     (\<not> cacheFound w (''reviews_data_'' @ MID message) \<and>
      (case reviewsTarget st message of
         Inl out \<Rightarrow> False
       | Inr (hotelId, reviewCount) \<Rightarrow>
           (case FetchHotelReviews w hotelId reviewCount of
              Inl e \<Rightarrow> False
            | Inr fetchedReviews \<Rightarrow> r \<in> CReviewID ` set fetchedReviews)))"

definition fetched ::
  "world \<Rightarrow> worker \<Rightarrow> queueMessage \<Rightarrow> (int \<times> ReviewAPIResponse list) option" where
  "fetched w st message =
     (if cacheFound w (''reviews_data_'' @ MID message) then None
      else
        (case reviewsTarget st message of
           Inl out \<Rightarrow> None
         | Inr (hotelId, reviewCount) \<Rightarrow>
             (case FetchHotelReviews w hotelId reviewCount of
                Inl e \<Rightarrow> None
              | Inr fetchedReviews \<Rightarrow> Some (hotelId, fetchedReviews))))"

definition reviewsUnique :: "database \<Rightarrow> bool" where
  "reviewsUnique d =
     (distinct (map RID (reviews_tbl d)) \<and> distinct (map ReviewID (reviews_tbl d)))"

definition reviewKeys :: "database \<Rightarrow> (string \<times> int) list" where
  "reviewKeys d = map (\<lambda>y. (RID y, ReviewID y)) (reviews_tbl d)"

subsection \<open>Notions used to state the properties of the page loop\<close>

text \<open>
  \<open>dueHotels s\<close>: the rows of \<open>hotels\<close> that are due at the dispatcher's clock (the
  predicate of \<open>QueryHotelIDsByID\<close> without the cursor and without the limit), by
  ascending hotel id.
\<close>

definition dueHotels :: "server \<Rightarrow> IDWithHotelID list" where
  "dueHotels s =
     sort_key QHotelID
       (map (\<lambda>h. \<lparr>QID = ID h, QHotelID = HotelID h\<rparr>)
          (filter (\<lambda>h. NextUpdateAt h < clock s \<and> HotelID h > 0) (hotels_tbl (db s))))"

section \<open>Example values\<close>

text \<open>Concrete inputs on which the theorems below are instantiated.\<close>

definition notDeleted :: DeletedAt where
  "notDeleted = \<lparr>Time = 0, Valid = False\<rparr>"

definition mkHotel :: "string \<Rightarrow> int \<Rightarrow> HotelData" where
  "mkHotel pk h =
     \<lparr>ID = pk, HotelID = h, Name = ''Hotel'', Status = ''active'', Source = ''cupid_api'',
      Columns = ''{}'', CreatedAt = 100, UpdatedAt = 100, DeletedAt = notDeleted,
      NextUpdateAt = 100\<rparr>"

definition mkReview :: "string \<Rightarrow> int \<Rightarrow> int \<Rightarrow> ReviewData" where
  "mkReview pk h r =
     \<lparr>RID = pk, RHotelID = h, ReviewID = r, Language = ''en'', RColumns = ''{}'',
      RCreatedAt = 100, RUpdatedAt = 100, RDeletedAt = notDeleted, RNextUpdateAt = 100\<rparr>"

definition mkTranslation :: "string \<Rightarrow> int \<Rightarrow> string \<Rightarrow> HotelTranslation" where
  "mkTranslation pk h l =
     \<lparr>TID = pk, THotelID = h, TLang = l, TName = ''Hotel'', TStatus = ''active'',
      TSource = ''cupid_api'', TColumns = ''{}'', TCreatedAt = 100, TUpdatedAt = 100,
      TDeletedAt = notDeleted, TNextUpdateAt = 100\<rparr>"

text \<open>Two records that carry a status other than \<open>active\<close>.\<close>

definition inactiveHotel :: HotelData where
  "inactiveHotel = (mkHotel ''h1'' 5)\<lparr>Status := ''inactive''\<rparr>"

definition inactiveTranslation :: HotelTranslation where
  "inactiveTranslation = (mkTranslation ''t2'' 7 ''fr'')\<lparr>TStatus := ''inactive''\<rparr>"

text \<open>
  A store with two hotels (hotel ids 5 and 7), three reviews (one of hotel 5, two of
  hotel 7) and the two translations of hotel 7, every row due for a refresh at the
  instant 200; and a server over it whose context is never cancelled and whose
  publishes all succeed.
\<close>

definition exampleDB :: database where
  "exampleDB =
     \<lparr>hotels_tbl = [mkHotel ''h1'' 5, mkHotel ''h2'' 7],
      reviews_tbl = [mkReview ''r1'' 5 501, mkReview ''r2'' 7 701, mkReview ''r3'' 7 702],
      translations_tbl = [mkTranslation ''t1'' 7 ''es'', mkTranslation ''t2'' 7 ''fr''],
      fault = None\<rparr>"

definition exampleServer :: "int \<Rightarrow> server" where
  "exampleServer n =
     \<lparr>db = exampleDB, clock = 200, BatchSize = n,
      ctxErr = (\<lambda>k i. None), publishErr = (\<lambda>k i jobs. None)\<rparr>"

text \<open>
  The adapter as the worker builds it (three retries, one second between them), after
  three consecutive failures, and an upstream that answers every request with 404.
\<close>

definition exampleConfig :: retryConfig where
  "exampleConfig = NewRetryConfig 3 second"

definition exampleAdapter :: adapter where
  "exampleAdapter =
     \<lparr>circuitBreaker = (NewCircuitBreaker 5)
        \<lparr>counts := \<lparr>Requests = 3, TotalSuccesses = 0, TotalFailures = 3,
                     ConsecutiveSuccesses = 0, ConsecutiveFailures = 3\<rparr>\<rparr>,
      sent = [], slept = []\<rparr>"

definition always404 :: "nat \<Rightarrow> attempt_io" where
  "always404 n = \<lparr>waitErr = None, trip = Responded 404 ''not found'' None,
                   ctxDone = None, unixNano = 500\<rparr>"

text \<open>An upstream that answers every request with 503, the clock reading 165 ns.\<close>

definition always503 :: "nat \<Rightarrow> attempt_io" where
  "always503 n = \<lparr>waitErr = None, trip = Responded 503 ''busy'' None,
                   ctxDone = None, unixNano = 165\<rparr>"

text \<open>
  A world for the worker: the lock service answers \<open>lock\<close>, the cache is empty,
  upstream knows the hotel 5 only (every other hotel id is a 404), answers a request
  for reviews with the reviews 701 and 703, and has a translation for every request.
\<close>

definition exampleTTL :: TTLConfig where
  "exampleTTL =
     \<lparr>Hotels = \<lparr>LockSeconds = 30, CacheSeconds = 300, NextUpdateSeconds = 3600\<rparr>,
      Reviews = \<lparr>LockSeconds = 30, CacheSeconds = 300, NextUpdateSeconds = 3600\<rparr>,
      Translations = \<lparr>LockSeconds = 30, CacheSeconds = 300, NextUpdateSeconds = 3600\<rparr>\<rparr>"

definition exampleWorld :: "(string + bool) \<Rightarrow> world" where
  "exampleWorld lock =
     \<lparr>Acquire = (\<lambda>k t. lock), cacheFound = (\<lambda>k. False),
      FetchHotelData =
        (\<lambda>h. if h = 5
              then Inr \<lparr>AHotelID = 5, AHotelName = ''Hotel Five'', AColumns = ''{}''\<rparr>
              else Inl (''failed to fetch hotel data for ID '' @ FormatInt h
                          @ '': operation failed after 3 retries: HTTP error 404: '')),
      FetchHotelReviews =
        (\<lambda>h n. Inr [\<lparr>CReviewID = 701, CLanguage = ''en'', CColumns = ''{new}''\<rparr>,
                      \<lparr>CReviewID = 703, CLanguage = [], CColumns = ''{}''\<rparr>]),
      FetchTranslations =
        (\<lambda>h l. Inr \<lparr>BHotelID = 7, BHotelName = ''Hotel Sept'', BColumns = ''{}''\<rparr>),
      timeNow = 1000, newUUID = (\<lambda>n. ''uuid-'' @ FormatNat n), TTL = exampleTTL\<rparr>"

text \<open>
  The same world later on: the clock has advanced, and upstream now answers with an
  edited review 703.
\<close>

definition laterWorld :: world where
  "laterWorld =
     (exampleWorld (Inr True))
       \<lparr>FetchHotelReviews :=
          (\<lambda>h n. Inr [\<lparr>CReviewID = 703, CLanguage = ''fr'', CColumns = ''{edited}''\<rparr>]),
        timeNow := 2000\<rparr>"

definition exampleWorker :: worker where
  "exampleWorker =
     \<lparr>store = exampleDB, apiCalls = [], cacheSets = [], released = [], uuidsDrawn = 0\<rparr>"

definition exampleMessage :: "string \<Rightarrow> string \<Rightarrow> queueMessage" where
  "exampleMessage pk kind =
     \<lparr>MID = pk, MMessageType = kind, Data = Some [(HotelId, String ''7'')]\<rparr>"

text \<open>The record that the worker maps from upstream's answer for the hotel 5.\<close>

definition incomingHotel :: HotelData where
  "incomingHotel =
     (ToHotelData \<lparr>AHotelID = 5, AHotelName = ''Hotel Five'', AColumns = ''{}''\<rparr>)
       \<lparr>NextUpdateAt := 5000\<rparr>"

definition incomingTranslation :: HotelTranslation where
  "incomingTranslation =
     (ToHotelTranslations \<lparr>BHotelID = 7, BHotelName = ''Hotel Sept'', BColumns = ''{}''\<rparr> ''fr'')
       \<lparr>TNextUpdateAt := 5000\<rparr>"

section \<open>Properties\<close>

subsection \<open>Soft delete and the status field\<close>

lemma saveRow_rows:
  assumes "saveRow key clash r rows = Inr rows'"
  shows "list_ex (\<lambda>x. key x = key r) rows' \<and> list_all (\<lambda>x. key x = key r \<longrightarrow> x = r) rows'"
  using assms
  by (auto simp: saveRow_def list_ex_iff list_all_iff split: if_splits)

text \<open>
  C9. Both \<open>BeforeUpdate\<close> hooks overwrite the status: for a hotel record and for a
  translation record whose \<open>deleted_at\<close> is unset, the hook leaves the status \<open>active\<close>,
  whatever status the record carried. So does every update: after a successful \<open>Save\<close>
  of such a record (with a non-empty primary key), the table holds a row with the
  record's primary key, and every such row has the status \<open>active\<close>.
\<close>

theorem BeforeUpdate_forces_active:
  "(\<not> Valid (DeletedAt h) \<longrightarrow> Status (HotelData_BeforeUpdate now h) = ''active'') \<and>
   (\<not> Valid (TDeletedAt t) \<longrightarrow> TStatus (HotelTranslation_BeforeUpdate now t) = ''active'') \<and>
   (ID h \<noteq> [] \<and> \<not> Valid (DeletedAt h) \<and> Save_HotelData now uuid d h = (None, d') \<longrightarrow>
      list_ex (\<lambda>x. ID x = ID h) (hotels_tbl d') \<and>
      list_all (\<lambda>x. ID x = ID h \<longrightarrow> Status x = ''active'') (hotels_tbl d')) \<and>
   (TID t \<noteq> [] \<and> \<not> Valid (TDeletedAt t) \<and> Save_HotelTranslation now uuid d t = (None, d'') \<longrightarrow>
      list_ex (\<lambda>x. TID x = TID t) (translations_tbl d'') \<and>
      list_all (\<lambda>x. TID x = TID t \<longrightarrow> TStatus x = ''active'') (translations_tbl d''))"
proof (intro conjI impI)
  show "Status (HotelData_BeforeUpdate now h) = ''active''" if "\<not> Valid (DeletedAt h)"
    using that by (simp add: HotelData_BeforeUpdate_def Let_def)
  show "TStatus (HotelTranslation_BeforeUpdate now t) = ''active''" if "\<not> Valid (TDeletedAt t)"
    using that by (simp add: HotelTranslation_BeforeUpdate_def Let_def)
next
  assume a: "ID h \<noteq> [] \<and> \<not> Valid (DeletedAt h) \<and> Save_HotelData now uuid d h = (None, d')"
  define r where "r = HotelData_BeforeUpdate now h"
  have r: "ID r = ID h" "Status r = ''active''"
    using a by (simp_all add: r_def HotelData_BeforeUpdate_def Let_def)
  from a obtain rows where s: "saveRow ID hotelClash r (hotels_tbl d) = Inr rows"
    and d': "hotels_tbl d' = rows"
    unfolding r_def by (auto simp: Save_HotelData_def split: option.splits sum.splits)
  from saveRow_rows[OF s] r
  show "list_ex (\<lambda>x. ID x = ID h) (hotels_tbl d')"
    "list_all (\<lambda>x. ID x = ID h \<longrightarrow> Status x = ''active'') (hotels_tbl d')"
    unfolding d' by (auto simp: list_all_iff)
next
  assume a: "TID t \<noteq> [] \<and> \<not> Valid (TDeletedAt t) \<and> Save_HotelTranslation now uuid d t = (None, d'')"
  define r where "r = HotelTranslation_BeforeUpdate now t"
  have r: "TID r = TID t" "TStatus r = ''active''"
    using a by (simp_all add: r_def HotelTranslation_BeforeUpdate_def Let_def)
  from a obtain rows where s: "saveRow TID translationClash r (translations_tbl d) = Inr rows"
    and d': "translations_tbl d'' = rows"
    unfolding r_def by (auto simp: Save_HotelTranslation_def split: option.splits sum.splits)
  from saveRow_rows[OF s] r
  show "list_ex (\<lambda>x. TID x = TID t) (translations_tbl d'')"
    "list_all (\<lambda>x. TID x = TID t \<longrightarrow> TStatus x = ''active'') (translations_tbl d'')"
    unfolding d' by (auto simp: list_all_iff)
qed

theorem BeforeUpdate_forces_active_witness:
  "Status inactiveHotel = ''inactive'' \<and> TStatus inactiveTranslation = ''inactive'' \<and>
   Status (HotelData_BeforeUpdate 200 inactiveHotel) = ''active'' \<and>
   TStatus (HotelTranslation_BeforeUpdate 200 inactiveTranslation) = ''active'' \<and>
   fst (Save_HotelData 200 ''u'' exampleDB inactiveHotel) = None \<and>
   list_all (\<lambda>x. ID x = ''h1'' \<longrightarrow> Status x = ''active'')
     (hotels_tbl (snd (Save_HotelData 200 ''u'' exampleDB inactiveHotel))) \<and>
   fst (Save_HotelTranslation 200 ''u'' exampleDB inactiveTranslation) = None \<and>
   list_all (\<lambda>x. TID x = ''t2'' \<longrightarrow> TStatus x = ''active'')
     (translations_tbl (snd (Save_HotelTranslation 200 ''u'' exampleDB inactiveTranslation)))"
proof -
  have hf: "fst (Save_HotelData 200 ''u'' exampleDB inactiveHotel) = None"
    by code_simp
  then have h: "Save_HotelData 200 ''u'' exampleDB inactiveHotel
             = (None, snd (Save_HotelData 200 ''u'' exampleDB inactiveHotel))"
    by (metis prod.collapse)
  have tf: "fst (Save_HotelTranslation 200 ''u'' exampleDB inactiveTranslation) = None"
    by code_simp
  then have t: "Save_HotelTranslation 200 ''u'' exampleDB inactiveTranslation
             = (None, snd (Save_HotelTranslation 200 ''u'' exampleDB inactiveTranslation))"
    by (metis prod.collapse)
  have i: "ID inactiveHotel = ''h1''" "\<not> Valid (DeletedAt inactiveHotel)"
    "Status inactiveHotel = ''inactive''"
    "TID inactiveTranslation = ''t2''" "\<not> Valid (TDeletedAt inactiveTranslation)"
    "TStatus inactiveTranslation = ''inactive''"
    by (simp_all add: inactiveHotel_def inactiveTranslation_def mkHotel_def mkTranslation_def
        notDeleted_def)
  show ?thesis
    using BeforeUpdate_forces_active [of inactiveHotel 200 inactiveTranslation "''u''" exampleDB
                "snd (Save_HotelData 200 ''u'' exampleDB inactiveHotel)"
                "snd (Save_HotelTranslation 200 ''u'' exampleDB inactiveTranslation)"]
      h t i hf tf
    by simp
qed

subsection \<open>A 404 from upstream\<close>

lemma FormatInt_404: "FormatInt 404 = ''404''"
  by code_simp

lemma statusOfError_404: "statusOfError (httpError 404 body) = Some 404"
  by (simp add: httpError_def FormatInt_404 statusOfError_def TrimSpace_def isSpace_def
      TrimPrefix_def Atoi_def isDigit_def digitsValue_def)

lemma doHTTPRequest_404:
  "doHTTPRequest (Responded 404 body d) = (Nil, Some (httpError 404 body))"
  by (simp add: doHTTPRequest_def)

lemma breakerCallback_404:
  "breakerCallback (Responded 404 body d) = (NotFoundResult (httpError 404 body), None)"
  by (simp add: breakerCallback_def doHTTPRequest_404 is404Error_def statusOfError_404)

lemma not_retryable_404: "\<not> isRetryableError cfg (Some (httpError 404 body))"
  by (simp add: isRetryableError_def statusOfError_404)

lemma beforeRequest_Inr:
  "beforeRequest cb = Inr cb1 \<Longrightarrow> state cb1 = state cb \<and> state cb \<noteq> StateOpen"
  by (auto simp: beforeRequest_def split: if_splits)

lemma onSuccess_ConsecutiveFailures:
  "state cb \<noteq> StateOpen \<Longrightarrow>
     ConsecutiveFailures (counts (onSuccess cb)) = 0 \<and> state (onSuccess cb) \<noteq> StateOpen"
  by (cases "state cb") (auto simp: onSuccess_def countsOnSuccess_def clearCounts_def Let_def)

lemma Execute_404:
  assumes "beforeRequest cb = Inr cb1"
  shows "Execute cb (Responded 404 body d) =
           ((NotFoundResult (httpError 404 body), None), onSuccess cb1, True)"
  using assms by (simp add: Execute_def breakerCallback_404 afterRequest_def)

lemma performRequest_404:
  assumes admit: "beforeRequest (circuitBreaker a) = Inr cb1"
      and wait: "waitErr io = None"
      and resp: "trip io = Responded 404 body d"
  shows "performRequest a io =
           (Some (httpError 404 body),
            a\<lparr>circuitBreaker := onSuccess cb1, sent := sent a @ [Responded 404 body d]\<rparr>)"
  using wait resp by (simp add: performRequest_def Execute_404[OF admit])

text \<open>
  C1. Take any attempt of the retry loop that is not cut short by a cancelled context,
  that the rate limiter and the breaker let through, and that upstream answers with
  status 404 (whatever the body). Then
  \<open>performRequest\<close> returns the 404 error to its caller; the breaker records the
  request as a success (\<open>afterRequest\<close> with \<open>True\<close>), so that its consecutive-failures
  counter is 0 afterwards and the breaker is not open; the error is not retryable; and
  the retry loop, however many iterations it has left, returns the 404 error after this
  one request, having sent nothing else and leaving the breaker as that request left it.
\<close>

theorem upstream_404_surfaced_not_retried_not_counted:
  assumes admit: "beforeRequest (circuitBreaker a) = Inr cb1"
      and wait: "waitErr (ios attempt) = None"
      and ctx: "attempt = 0 \<or> ctxDone (ios attempt) = None"
      and resp: "trip (ios attempt) = Responded 404 body d"
  shows "\<exists>a'. performRequest a (ios attempt) = (Some (httpError 404 body), a')
           \<and> circuitBreaker a' = afterRequest cb1 True
           \<and> ConsecutiveFailures (counts (circuitBreaker a')) = 0
           \<and> state (circuitBreaker a') \<noteq> StateOpen
           \<and> sent a' = sent a @ [Responded 404 body d]
           \<and> \<not> isRetryableError cfg (Some (httpError 404 body))
           \<and> (\<exists>a''. retryLoop cfg ios (Suc k) attempt lastErr a =
                      (Some (failedAfter cfg (Some (httpError 404 body))), a'')
                 \<and> sent a'' = sent a @ [Responded 404 body d]
                 \<and> circuitBreaker a'' = circuitBreaker a')"
proof -
  have ns: "state cb1 \<noteq> StateOpen"
    using beforeRequest_Inr[OF admit] by simp
  let ?a1 = "(if attempt > 0
              then a\<lparr>slept := slept a @
                     [calculateRetryDelay cfg (int attempt) (unixNano (ios attempt))]\<rparr>
              else a)"
  have admit1: "beforeRequest (circuitBreaker ?a1) = Inr cb1"
    using admit by simp
  show ?thesis
    using performRequest_404[OF admit wait resp] performRequest_404[OF admit1 wait resp]
      onSuccess_ConsecutiveFailures[OF ns] ctx
    by (auto simp: not_retryable_404 afterRequest_def Let_def)
qed

theorem upstream_404_witness:
  "ConsecutiveFailures (counts (circuitBreaker exampleAdapter)) = 3 \<and>
   (\<exists>a'. performRequest exampleAdapter (always404 0) =
            (Some ''HTTP error 404: not found'', a')
        \<and> ConsecutiveFailures (counts (circuitBreaker a')) = 0
        \<and> (\<exists>a''. executeWithRetry exampleConfig always404 exampleAdapter =
                    (Some ''operation failed after 3 retries: HTTP error 404: not found'', a'')
               \<and> sent a'' = [Responded 404 ''not found'' None]
               \<and> circuitBreaker a'' = circuitBreaker a'))"
proof -
  have admit: "beforeRequest (circuitBreaker exampleAdapter) =
      Inr ((circuitBreaker exampleAdapter)
             \<lparr>counts := (counts (circuitBreaker exampleAdapter))\<lparr>Requests := 4\<rparr>\<rparr>)"
    by (simp add: beforeRequest_def exampleAdapter_def NewCircuitBreaker_def)
  have f3: "FormatInt 3 = ''3''"
    by code_simp
  have n: "nat (MaxRetries exampleConfig + 1) = Suc 3"
    by (simp add: exampleConfig_def NewRetryConfig_def)
  show ?thesis
    using upstream_404_surfaced_not_retried_not_counted
            [OF admit, of always404 0 "''not found''" None exampleConfig 3 None]
    unfolding executeWithRetry_def n
    by (simp add: always404_def failedAfter_def f3 httpError_def FormatInt_404
        exampleAdapter_def exampleConfig_def NewRetryConfig_def) blast
qed

subsection \<open>The retry delay\<close>

text \<open>
  Rounding to \<open>float64\<close>. \<open>exponent\<close> is the binade of its argument. A value between
  two integers is rounded to a value between them, so an integer below \<open>2^53\<close> in
  magnitude is a \<open>float64\<close>; truncation keeps a value between two integers there.
\<close>

lemma roundHalfEven_le:
  assumes "q \<le> of_int n"
  shows "roundHalfEven q \<le> n"
proof (cases "q = of_int n")
  case True
  then show ?thesis
    by (simp add: roundHalfEven_def)
next
  case False
  with assms have "q < of_int n"
    by simp
  then have "\<lfloor>q\<rfloor> < n"
    by (simp add: floor_less_iff)
  then show ?thesis
    by (simp add: roundHalfEven_def Let_def)
qed

lemma roundHalfEven_ge:
  assumes "of_int n \<le> q"
  shows "n \<le> roundHalfEven q"
proof -
  from assms have "n \<le> \<lfloor>q\<rfloor>"
    by (simp add: le_floor_iff)
  then show ?thesis
    by (simp add: roundHalfEven_def Let_def)
qed

lemma exponent_le:
  assumes "0 < x"
  shows "2 powi (exponent x) \<le> x"
proof -
  obtain p q where pq: "quotient_of x = (p, q)"
    by (cases "quotient_of x")
  have q: "0 < q"
    using quotient_of_denom_pos[OF pq] .
  have x: "x = of_int p / of_int q"
    using quotient_of_div[OF pq] .
  have p: "0 < p"
    using assms q unfolding x by (simp add: zero_less_divide_iff)
  define k where "k = bitlen p - bitlen q"
  have e: "exponent x = (if 2 powi k \<le> x then k else k - 1)"
    by (simp add: exponent_def pq k_def Let_def)
  show ?thesis
  proof (cases "2 powi k \<le> x")
    case True
    with e show ?thesis
      by simp
  next
    case False
    have bp: "1 \<le> bitlen p"
      using p by (simp add: bitlen_alt_def)
    have bq: "0 \<le> bitlen q"
      by (rule bitlen_nonneg)
    have lo: "(2::rat) ^ nat (bitlen p - 1) \<le> of_int p"
    proof -
      have "(2::int) ^ nat (bitlen p - 1) \<le> p"
        using bitlen_bounds[OF p] by simp
      then have "(of_int ((2::int) ^ nat (bitlen p - 1)) :: rat) \<le> of_int p"
        by (simp only: of_int_le_iff)
      then show ?thesis
        by simp
    qed
    have hi: "(of_int q :: rat) \<le> 2 ^ nat (bitlen q)"
    proof -
      have "q \<le> (2::int) ^ nat (bitlen q)"
        using bitlen_bounds[OF q] by simp
      then have "(of_int q :: rat) \<le> of_int ((2::int) ^ nat (bitlen q))"
        by (simp only: of_int_le_iff)
      then show ?thesis
        by simp
    qed
    have "(2::rat) powi (k - 1) = 2 powi (bitlen p - 1) / 2 powi (bitlen q)"
      unfolding k_def by (simp add: power_int_diff[symmetric] algebra_simps)
    also have "\<dots> = 2 ^ nat (bitlen p - 1) / 2 ^ nat (bitlen q)"
      using bp bq by (simp add: power_int_def)
    also have "\<dots> \<le> of_int p / of_int q"
      using lo hi q p by (intro frac_le) simp_all
    finally show ?thesis
      using e False x by simp
  qed
qed

lemma exponent_less:
  assumes "0 < x"
  shows "x < 2 powi (exponent x + 1)"
proof -
  obtain p q where pq: "quotient_of x = (p, q)"
    by (cases "quotient_of x")
  have q: "0 < q"
    using quotient_of_denom_pos[OF pq] .
  have x: "x = of_int p / of_int q"
    using quotient_of_div[OF pq] .
  have p: "0 < p"
    using assms q unfolding x by (simp add: zero_less_divide_iff)
  define k where "k = bitlen p - bitlen q"
  have e: "exponent x = (if 2 powi k \<le> x then k else k - 1)"
    by (simp add: exponent_def pq k_def Let_def)
  show ?thesis
  proof (cases "2 powi k \<le> x")
    case True
    have bp: "0 \<le> bitlen p"
      by (rule bitlen_nonneg)
    have bq: "1 \<le> bitlen q"
      using q by (simp add: bitlen_alt_def)
    have hi: "(of_int p :: rat) < 2 ^ nat (bitlen p)"
    proof -
      have "p < (2::int) ^ nat (bitlen p)"
        using bitlen_bounds[OF p] by simp
      then have "(of_int p :: rat) < of_int ((2::int) ^ nat (bitlen p))"
        by (simp only: of_int_less_iff)
      then show ?thesis
        by simp
    qed
    have lo: "(2::rat) ^ nat (bitlen q - 1) \<le> of_int q"
    proof -
      have "(2::int) ^ nat (bitlen q - 1) \<le> q"
        using bitlen_bounds[OF q] by simp
      then have "(of_int ((2::int) ^ nat (bitlen q - 1)) :: rat) \<le> of_int q"
        by (simp only: of_int_le_iff)
      then show ?thesis
        by simp
    qed
    have "of_int p / of_int q < (2::rat) ^ nat (bitlen p) / 2 ^ nat (bitlen q - 1)"
      using lo hi q p by (intro frac_less) simp_all
    also have "\<dots> = 2 powi (bitlen p) / 2 powi (bitlen q - 1)"
      using bp bq by (simp add: power_int_def)
    also have "\<dots> = 2 powi (k + 1)"
      unfolding k_def by (simp add: power_int_diff[symmetric] algebra_simps)
    finally show ?thesis
      using e True x by simp
  next
    case False
    with e show ?thesis
      by simp
  qed
qed

lemma roundFloat64_between:
  assumes lo: "of_int lo \<le> x" and hi: "x \<le> of_int hi" and small: "\<bar>x\<bar> < 2 ^ 53"
  shows "\<exists>y. roundFloat64 x = Finite y \<and> of_int lo \<le> y \<and> y \<le> of_int hi"
proof (cases "x = 0")
  case True
  with lo hi show ?thesis
    by (simp add: roundFloat64_def)
next
  case False
  define e where "e = max (exponent \<bar>x\<bar>) (- 1022)"
  have "2 powi (exponent \<bar>x\<bar>) \<le> \<bar>x\<bar>"
    using False by (intro exponent_le) simp
  with small have "(2::rat) powi (exponent \<bar>x\<bar>) < 2 powi 53"
    by simp
  then have "exponent \<bar>x\<bar> < 53"
    by (rule power_int_le_imp_less_exp[rotated]) simp_all
  then have e52: "e \<le> 52"
    by (simp add: e_def)
  define K :: int where "K = 2 ^ nat (52 - e)"
  have K: "0 < K"
    by (simp add: K_def)
  have ulp: "(2::rat) powi (e - 52) = 1 / of_int K"
  proof -
    have "(2::rat) powi (e - 52) = 2 powi (- (52 - e))"
      by simp
    also have "\<dots> = 1 / 2 powi (52 - e)"
      by (rule power_int_minus_divide)
    also have "\<dots> = 1 / of_int K"
      using e52 by (simp add: K_def power_int_def)
    finally show ?thesis .
  qed
  define m where "m = roundHalfEven (x * of_int K)"
  have r: "roundFloat64 x = Finite (of_int m / of_int K)"
    using False e52
    by (simp add: roundFloat64_def Let_def e_def[symmetric] ulp m_def)
  have "of_int (lo * K) \<le> x * of_int K"
    using lo K by simp
  then have l: "lo * K \<le> m"
    unfolding m_def by (rule roundHalfEven_ge)
  have "x * of_int K \<le> of_int (hi * K)"
    using hi K by simp
  then have h: "m \<le> hi * K"
    unfolding m_def by (rule roundHalfEven_le)
  from l have "(of_int (lo * K) :: rat) \<le> of_int m"
    by (simp only: of_int_le_iff)
  then have l': "(of_int lo :: rat) \<le> of_int m / of_int K"
    using K by (simp add: pos_le_divide_eq)
  from h have "(of_int m :: rat) \<le> of_int (hi * K)"
    by (simp only: of_int_le_iff)
  then have h': "(of_int m :: rat) / of_int K \<le> of_int hi"
    using K by (simp add: pos_divide_le_eq)
  from r l' h' show ?thesis
    by blast
qed

lemma roundFloat64_of_int:
  assumes "\<bar>i\<bar> < 2 ^ 53"
  shows "roundFloat64 (of_int i) = Finite (of_int i)"
proof -
  have "\<bar>of_int i :: rat\<bar> < 2 ^ 53"
  proof -
    have "(of_int \<bar>i\<bar> :: rat) < of_int (2 ^ 53)"
      using assms by (simp only: of_int_less_iff)
    then show ?thesis
      by simp
  qed
  from roundFloat64_between[OF order_refl order_refl this] show ?thesis
    by auto
qed

lemma truncRat_between:
  assumes "of_int lo \<le> y" and "y \<le> of_int hi"
  shows "lo \<le> truncRat y \<and> truncRat y \<le> hi"
proof (cases "0 \<le> y")
  case True
  have "lo \<le> \<lfloor>y\<rfloor>"
    using assms(1) by (simp add: le_floor_iff)
  moreover have "\<lfloor>y\<rfloor> \<le> hi"
    using assms(2) by (simp add: floor_le_iff)
  ultimately show ?thesis
    using True by (simp add: truncRat_def)
next
  case False
  have "lo \<le> \<lceil>y\<rceil>"
    using assms(1) by (simp add: le_ceiling_iff)
  moreover have "\<lceil>y\<rceil> \<le> hi"
    using assms(2) by (simp add: ceiling_le_iff)
  ultimately show ?thesis
    using False by (simp add: truncRat_def ceiling_def)
qed

lemma truncRat_of_int: "truncRat (of_int i) = i"
  by (simp add: truncRat_def)

lemma int64_id: "- (2 ^ 63) \<le> x \<Longrightarrow> x < 2 ^ 63 \<Longrightarrow> int64 x = x"
  by (simp add: int64_def)

lemma tenth_eq: "tenth = Finite (3602879701896397 / 36028797018963968)"
  unfolding tenth_def by code_simp

lemma jitterFactor_between:
  assumes "0 \<le> nanos"
  shows "\<exists>f. jitterFactor nanos = Finite f \<and> - 1 \<le> f \<and> f \<le> 1"
proof -
  define r where "r = nanos mod 1000"
  have g: "goRem nanos 1000 = r"
    using assms by (simp add: goRem_def r_def)
  have r: "0 \<le> r" "r < 1000"
    by (simp_all add: r_def)
  have a: "float64OfInt r = Finite (of_int r)"
    unfolding float64OfInt_def using r by (intro roundFloat64_of_int) simp
  have "roundFloat64 (of_int (2 * r)) = Finite (of_int (2 * r))"
    using r by (intro roundFloat64_of_int) simp
  then have b: "fmul (Finite 2) (Finite (of_int r)) = Finite (of_int (2 * r))"
    by (simp add: fmul_def)
  have rr: "(0::rat) \<le> of_int r" "(of_int r :: rat) \<le> 1000"
  proof -
    show "(0::rat) \<le> of_int r"
      using r(1) by simp
    have "(of_int r :: rat) \<le> of_int 1000"
      using r(2) by (simp only: of_int_le_iff)
    then show "(of_int r :: rat) \<le> 1000"
      by simp
  qed
  have "\<exists>y. roundFloat64 (of_int (2 * r) / 1000) = Finite y \<and> of_int 0 \<le> y \<and> y \<le> of_int 2"
    using rr by (intro roundFloat64_between) simp_all
  then obtain y where y: "fdiv (Finite (of_int (2 * r))) (Finite 1000) = Finite y" "0 \<le> y" "y \<le> 2"
    by (auto simp: fdiv_def)
  have "\<exists>f. roundFloat64 (y - 1) = Finite f \<and> of_int (- 1) \<le> f \<and> f \<le> of_int 1"
    using y(2,3) by (intro roundFloat64_between) simp_all
  then obtain f where f: "fsub (Finite y) (Finite 1) = Finite f" "- 1 \<le> f" "f \<le> 1"
    by (auto simp: fsub_def)
  show ?thesis
    unfolding jitterFactor_def g a b y(1) using f by blast
qed

lemma tenth_between:
  assumes d: "0 \<le> d" and small: "d < 2 ^ 53"
  shows "\<exists>y. fmul (float64OfInt d) tenth = Finite y \<and> of_int (d div 10) \<le> y
           \<and> y \<le> of_int (d div 10 + 1)"
proof -
  define c :: rat where "c = 3602879701896397 / 36028797018963968"
  have a: "float64OfInt d = Finite (of_int d)"
    unfolding float64OfInt_def using d small by (intro roundFloat64_of_int) simp
  have m: "fmul (float64OfInt d) tenth = roundFloat64 (of_int d * c)"
    by (simp add: a tenth_eq fmul_def c_def)
  define q where "q = d div 10"
  have dq: "10 * q \<le> d" "d \<le> 10 * q + 9"
    by (simp_all add: q_def)
  have q0: "0 \<le> q"
    using d by (simp add: q_def pos_imp_zdiv_nonneg_iff)
  have D: "(of_int (10 * q) :: rat) \<le> of_int d" "(of_int d :: rat) \<le> of_int (10 * q + 9)"
    "(0::rat) \<le> of_int d" "(of_int d :: rat) < of_int (2 ^ 53)" "(0::rat) \<le> of_int q"
    using dq d small q0 by (simp_all only: of_int_le_iff of_int_less_iff of_int_0_le_iff)
  have lo: "(of_int q :: rat) \<le> of_int d * c"
    using D unfolding c_def by (simp; linarith)
  have hi: "of_int d * c \<le> (of_int (q + 1) :: rat)"
    using D unfolding c_def by (simp; linarith)
  have ab: "\<bar>of_int d * c\<bar> < (2::rat) ^ 53"
    using D unfolding c_def by (simp add: abs_mult; linarith)
  from roundFloat64_between[OF lo hi ab] show ?thesis
    unfolding m q_def by simp
qed

lemma int64OfFloat64_between:
  assumes "of_int lo \<le> y" and "y \<le> of_int hi" and "- (2 ^ 63) \<le> lo" and "hi < 2 ^ 63"
  shows "\<exists>t. int64OfFloat64 (Finite y) = Some t \<and> lo \<le> t \<and> t \<le> hi"
  using truncRat_between[OF assms(1,2)] assms(3,4)
  by (simp add: int64OfFloat64_def Let_def)

lemma calculateRetryDelay_linear:
  assumes B: "0 \<le> BaseDelay cfg" "BaseDelay cfg < 2 ^ 53"
      and n: "0 \<le> attempt" "attempt < 2 ^ 53"
      and Bn: "BaseDelay cfg * attempt < 2 ^ 53"
      and M: "Multiplier cfg = Finite m"
      and P: "of_int p = of_int (BaseDelay cfg * attempt) * m" "0 \<le> p" "p < 2 ^ 53"
      and X: "0 \<le> MaxDelay cfg"
      and u: "0 \<le> nanos"
  shows "\<exists>delay. calculateRetryDelay cfg attempt nanos = Some delay \<and>
           (if Jitter cfg
            then (\<exists>jitter shift.
                    int64OfFloat64 (fmul (float64OfInt (min p (MaxDelay cfg))) tenth) = Some jitter \<and>
                    int64OfFloat64 (fmul (float64OfInt jitter) (jitterFactor nanos)) = Some shift \<and>
                    min p (MaxDelay cfg) div 10 \<le> jitter \<and>
                    jitter \<le> min p (MaxDelay cfg) div 10 + 1 \<and>
                    \<bar>shift\<bar> \<le> jitter \<and>
                    delay = min p (MaxDelay cfg) + shift) \<and>
                 \<bar>delay - min p (MaxDelay cfg)\<bar> \<le> min p (MaxDelay cfg) div 10 + 1
            else delay = min p (MaxDelay cfg))"
proof -
  define capped where "capped = min p (MaxDelay cfg)"
  have c0: "0 \<le> capped" and c53: "capped < 2 ^ 53"
    using P(2,3) X by (simp_all add: capped_def)
  have f1: "float64OfInt (BaseDelay cfg) = Finite (of_int (BaseDelay cfg))"
    unfolding float64OfInt_def using B by (intro roundFloat64_of_int) simp
  have f2: "float64OfInt attempt = Finite (of_int attempt)"
    unfolding float64OfInt_def using n by (intro roundFloat64_of_int) simp
  have Bn0: "0 \<le> BaseDelay cfg * attempt"
    using B(1) n(1) by simp
  have "roundFloat64 (of_int (BaseDelay cfg * attempt)) = Finite (of_int (BaseDelay cfg * attempt))"
    using Bn Bn0 by (intro roundFloat64_of_int) simp
  then have f3: "fmul (Finite (of_int (BaseDelay cfg))) (Finite (of_int attempt))
                   = Finite (of_int (BaseDelay cfg * attempt))"
    by (simp add: fmul_def)
  have f4: "fmul (Finite (of_int (BaseDelay cfg * attempt))) (Finite m) = Finite (of_int p)"
  proof -
    have "fmul (Finite (of_int (BaseDelay cfg * attempt))) (Finite m)
            = roundFloat64 (of_int (BaseDelay cfg * attempt) * m)"
      by (simp add: fmul_def del: of_int_mult)
    also have "\<dots> = roundFloat64 (of_int p)"
      by (simp only: P(1))
    also have "\<dots> = Finite (of_int p)"
      using P(2,3) by (intro roundFloat64_of_int) simp
    finally show ?thesis .
  qed
  have d0: "int64OfFloat64 (Finite (of_int p)) = Some p"
    using P(2,3) by (simp add: int64OfFloat64_def truncRat_of_int Let_def)
  have cap: "(if p > MaxDelay cfg then MaxDelay cfg else p) = capped"
    by (simp add: capped_def min_def)
  have head: "calculateRetryDelay cfg attempt nanos =
     (if Jitter cfg then
        (case int64OfFloat64 (fmul (float64OfInt capped) tenth) of
           None \<Rightarrow> None
         | Some jitter \<Rightarrow>
             (case int64OfFloat64 (fmul (float64OfInt jitter) (jitterFactor nanos)) of
                None \<Rightarrow> None
              | Some shift \<Rightarrow> Some (int64 (capped + shift))))
      else Some capped)"
    by (simp add: calculateRetryDelay_def f1 f2 f3 M f4 d0 cap Let_def del: of_int_mult)
  show ?thesis
  proof (cases "Jitter cfg")
    case False
    with head show ?thesis
      by (simp add: capped_def)
  next
    case True
    define q where "q = capped div 10"
    have q0: "0 \<le> q" and q53: "q + 1 < 2 ^ 53"
      using c0 c53 by (simp_all add: q_def pos_imp_zdiv_nonneg_iff)
    from tenth_between[OF c0 c53] obtain y1
      where y1: "fmul (float64OfInt capped) tenth = Finite y1"
        "of_int q \<le> y1" "y1 \<le> of_int (q + 1)"
      unfolding q_def by blast
    from int64OfFloat64_between[OF y1(2,3)] q0 q53 obtain jitter
      where j: "int64OfFloat64 (Finite y1) = Some jitter" "q \<le> jitter" "jitter \<le> q + 1"
      by auto
    have j0: "0 \<le> jitter" and j53: "jitter < 2 ^ 53"
      using j(2,3) q0 q53 by simp_all
    have fj: "float64OfInt jitter = Finite (of_int jitter)"
      unfolding float64OfInt_def using j0 j53 by (intro roundFloat64_of_int) simp
    from jitterFactor_between[OF u] obtain f
      where f: "jitterFactor nanos = Finite f" "- 1 \<le> f" "f \<le> 1"
      by blast
    have J: "(0::rat) \<le> of_int jitter" "(of_int jitter :: rat) < of_int (2 ^ 53)"
      using j0 j53 by (simp_all only: of_int_0_le_iff of_int_less_iff)
    have lo: "of_int (- jitter) \<le> of_int jitter * f"
    proof -
      have "of_int jitter * (- 1) \<le> of_int jitter * f"
        using J(1) f(2) by (intro mult_left_mono) simp_all
      then show ?thesis
        by simp
    qed
    have hi: "of_int jitter * f \<le> of_int jitter"
    proof -
      have "of_int jitter * f \<le> of_int jitter * 1"
        using J(1) f(3) by (intro mult_left_mono) simp_all
      then show ?thesis
        by simp
    qed
    have ab: "\<bar>of_int jitter * f\<bar> < (2::rat) ^ 53"
    proof -
      have "\<bar>of_int jitter * f\<bar> \<le> of_int jitter"
        using lo hi by (simp add: abs_le_iff)
      with J(2) show ?thesis
        by simp
    qed
    from roundFloat64_between[OF lo hi ab] obtain y3
      where y3: "roundFloat64 (of_int jitter * f) = Finite y3"
        "of_int (- jitter) \<le> y3" "y3 \<le> of_int jitter"
      by blast
    from int64OfFloat64_between[OF y3(2,3)] j0 j53 obtain shift
      where s: "int64OfFloat64 (Finite y3) = Some shift" "- jitter \<le> shift" "shift \<le> jitter"
      by auto
    have m3: "fmul (float64OfInt jitter) (jitterFactor nanos) = Finite y3"
      by (simp add: fj f(1) fmul_def y3(1))
    have w: "int64 (capped + shift) = capped + shift"
      using c0 c53 s(2,3) j53 by (intro int64_id) simp_all
    have r: "calculateRetryDelay cfg attempt nanos = Some (capped + shift)"
      using True by (simp add: head y1(1) j(1) m3 s(1) w)
    have b: "\<bar>(capped + shift) - capped\<bar> \<le> q + 1"
      using s(2,3) j(3) by simp
    have sh: "\<bar>shift\<bar> \<le> jitter"
      using s(2,3) by simp
    have "\<exists>jit sh.
            int64OfFloat64 (fmul (float64OfInt capped) tenth) = Some jit \<and>
            int64OfFloat64 (fmul (float64OfInt jit) (jitterFactor nanos)) = Some sh \<and>
            q \<le> jit \<and> jit \<le> q + 1 \<and> \<bar>sh\<bar> \<le> jit \<and>
            capped + shift = capped + sh"
      by (intro exI[of _ jitter] exI[of _ shift]) (simp add: y1(1) j m3 s(1) sh)
    with r True b show ?thesis
      unfolding capped_def[symmetric] q_def by simp
  qed
qed

text \<open>The delays that the retry loop waits out, in order.\<close>

lemma performRequest_slept: "slept (snd (performRequest a io)) = slept a"
  by (auto simp: performRequest_def Let_def split: option.splits prod.splits result.splits)

lemma retryLoop_slept:
  "\<exists>j \<le> k. slept (snd (retryLoop cfg ios k attempt lastErr a)) =
            slept a @ map (\<lambda>n. calculateRetryDelay cfg (int n) (unixNano (ios n)))
                        [max 1 attempt ..< attempt + j]"
proof (induction k arbitrary: attempt lastErr a)
  case 0
  show ?case
    by simp
next
  case (Suc k)
  let ?D = "\<lambda>n. calculateRetryDelay cfg (int n) (unixNano (ios n))"
  show ?case
  proof (cases "attempt > 0 \<and> ctxDone (ios attempt) \<noteq> None")
    case True
    then have "retryLoop cfg ios (Suc k) attempt lastErr a = (ctxDone (ios attempt), a)"
      by simp
    then show ?thesis
      by (intro exI[of _ 0]) simp
  next
    case False
    define a1 where "a1 = (if attempt > 0 then a\<lparr>slept := slept a @ [?D attempt]\<rparr> else a)"
    obtain e a2 where p: "performRequest a1 (ios attempt) = (e, a2)"
      by (cases "performRequest a1 (ios attempt)")
    have s2: "slept a2 = slept a1"
      using performRequest_slept[of a1 "ios attempt"] p by simp
    have s1: "slept a1 = slept a @ map ?D [max 1 attempt ..< attempt + 1]"
      by (cases "attempt > 0") (simp_all add: a1_def max_def)
    show ?thesis
    proof (cases "e \<noteq> None \<and> isRetryableError cfg e")
      case stop: False
      have "slept (snd (retryLoop cfg ios (Suc k) attempt lastErr a)) = slept a2"
        using False p stop unfolding a1_def
        by (auto simp: Let_def split: option.splits)
      with s1 s2 show ?thesis
        by (intro exI[of _ 1]) simp
    next
      case True
      then obtain m where e: "e = Some m" and rt: "isRetryableError cfg (Some m)"
        by auto
      have r: "retryLoop cfg ios (Suc k) attempt lastErr a
                 = retryLoop cfg ios k (Suc attempt) (Some m) a2"
        using False p e rt unfolding a1_def by (auto simp: Let_def)
      from Suc.IH[of "Suc attempt" "Some m" a2] obtain j where j: "j \<le> k"
        "slept (snd (retryLoop cfg ios k (Suc attempt) (Some m) a2)) =
           slept a2 @ map ?D [max 1 (Suc attempt) ..< Suc attempt + j]"
        by blast
      have "[max 1 attempt ..< attempt + 1] @ [max 1 (Suc attempt) ..< Suc attempt + j]
              = [max 1 attempt ..< attempt + Suc j]"
        by (cases "attempt > 0") (simp_all add: max_def upt_rec[of attempt])
      then have "map ?D [max 1 attempt ..< attempt + 1] @ map ?D [max 1 (Suc attempt) ..< Suc attempt + j]
              = map ?D [max 1 attempt ..< attempt + Suc j]"
        by (metis map_append)
      with j s1 s2 r show ?thesis
        by (intro exI[of _ "Suc j"]) simp
    qed
  qed
qed

lemma retryLoop_all_retryable:
  assumes fail: "\<And>n b. n < attempt + k \<Longrightarrow>
                   \<exists>e. fst (performRequest b (ios n)) = Some e \<and> isRetryableError cfg (Some e)"
      and ctx: "\<And>n. 0 < n \<Longrightarrow> n < attempt + k \<Longrightarrow> ctxDone (ios n) = None"
  shows "slept (snd (retryLoop cfg ios k attempt lastErr a)) =
            slept a @ map (\<lambda>n. calculateRetryDelay cfg (int n) (unixNano (ios n)))
                        [max 1 attempt ..< attempt + k]"
  using assms
proof (induction k arbitrary: attempt lastErr a)
  case 0
  show ?case
    by simp
next
  case (Suc k)
  let ?D = "\<lambda>n. calculateRetryDelay cfg (int n) (unixNano (ios n))"
  define a1 where "a1 = (if attempt > 0 then a\<lparr>slept := slept a @ [?D attempt]\<rparr> else a)"
  have c: "\<not> (attempt > 0 \<and> ctxDone (ios attempt) \<noteq> None)"
    using Suc.prems(2)[of attempt] by (cases "attempt > 0") auto
  obtain e a2 where p: "performRequest a1 (ios attempt) = (e, a2)"
    by (cases "performRequest a1 (ios attempt)")
  from Suc.prems(1)[of attempt a1] p obtain m where e: "e = Some m"
    and rt: "isRetryableError cfg (Some m)"
    by auto
  have s2: "slept a2 = slept a1"
    using performRequest_slept[of a1 "ios attempt"] p by simp
  have s1: "slept a1 = slept a @ map ?D [max 1 attempt ..< attempt + 1]"
    by (cases "attempt > 0") (simp_all add: a1_def max_def)
  have r: "retryLoop cfg ios (Suc k) attempt lastErr a
             = retryLoop cfg ios k (Suc attempt) (Some m) a2"
    using c p e rt unfolding a1_def by (auto simp: Let_def)
  have ih: "slept (snd (retryLoop cfg ios k (Suc attempt) (Some m) a2)) =
           slept a2 @ map ?D [max 1 (Suc attempt) ..< Suc attempt + k]"
    using Suc.prems by (intro Suc.IH) simp_all
  have "[max 1 attempt ..< attempt + 1] @ [max 1 (Suc attempt) ..< Suc attempt + k]
          = [max 1 attempt ..< attempt + Suc k]"
    by (cases "attempt > 0") (simp_all add: max_def upt_rec[of attempt])
  then have "map ?D [max 1 attempt ..< attempt + 1] @ map ?D [max 1 (Suc attempt) ..< Suc attempt + k]
          = map ?D [max 1 attempt ..< attempt + Suc k]"
    by (metis map_append)
  with ih s1 s2 r show ?case
    by simp
qed

text \<open>
  C5, as the code has it. The delays that the retry loop waits are those of
  \<open>calculateRetryDelay\<close>: a run of \<open>executeWithRetry\<close> that makes \<open>j\<close> attempts has
  waited, in this order, \<open>calculateRetryDelay\<close> of \<open>n\<close> before each attempt
  \<open>n = 1, ..., j - 1\<close>, and nothing before attempt 0; when every attempt fails with a
  retryable error and the context is never done, it has waited before each of the
  attempts \<open>1, ..., MaxRetries\<close>. The delay before attempt \<open>n\<close> is linear in \<open>n\<close>, not
  geometric: where \<open>BaseDelay\<close>, \<open>n\<close> and \<open>MaxDelay\<close> are not negative, the clock
  is not before the epoch, \<open>BaseDelay\<close>, \<open>n\<close> and their product stay below \<open>2^53\<close>
  (so that \<open>float64\<close> holds them exactly), and \<open>BaseDelay * n * Multiplier\<close> is the
  whole number \<open>p\<close> below \<open>2^53\<close>, the delay is
  \<open>p\<close> capped at \<open>MaxDelay\<close>; with jitter the capped value is then shifted: the
  code takes a tenth of the capped value (in \<open>float64\<close>, truncated, which gives that
  tenth or one nanosecond more), multiplies it by the jitter factor, truncates, and adds
  the result, which in magnitude is at most that tenth, to the capped value. So the
  jitter is applied after the cap, the delay differs from the capped value by at most a
  tenth of it and one nanosecond, and a jittered delay can exceed \<open>MaxDelay\<close>.
\<close>

theorem retry_delay_linear_capped_jittered:
  fixes cfg ios a attempt nanos m p
  defines "waited \<equiv> slept (snd (executeWithRetry cfg ios a))"
      and "delayBefore \<equiv> \<lambda>n. calculateRetryDelay cfg (int n) (unixNano (ios n))"
      and "capped \<equiv> min p (MaxDelay cfg)"
  shows "(\<exists>j \<le> nat (MaxRetries cfg + 1). waited = slept a @ map delayBefore [1 ..< j]) \<and>
         ((\<forall>n < nat (MaxRetries cfg + 1).
             (\<forall>b. \<exists>e. fst (performRequest b (ios n)) = Some e \<and> isRetryableError cfg (Some e)) \<and>
             (0 < n \<longrightarrow> ctxDone (ios n) = None))
            \<longrightarrow> waited = slept a @ map delayBefore [1 ..< nat (MaxRetries cfg + 1)]) \<and>
         (0 \<le> BaseDelay cfg \<and> BaseDelay cfg < 2 ^ 53 \<and> 0 \<le> attempt \<and> attempt < 2 ^ 53 \<and>
          BaseDelay cfg * attempt < 2 ^ 53 \<and> Multiplier cfg = Finite m \<and>
          of_int p = of_int (BaseDelay cfg * attempt) * m \<and> 0 \<le> p \<and> p < 2 ^ 53 \<and>
          0 \<le> MaxDelay cfg \<and> 0 \<le> nanos
            \<longrightarrow> (\<exists>delay. calculateRetryDelay cfg attempt nanos = Some delay \<and>
                   (if Jitter cfg
                    then (\<exists>jitter shift.
                            int64OfFloat64 (fmul (float64OfInt capped) tenth) = Some jitter \<and>
                            int64OfFloat64 (fmul (float64OfInt jitter) (jitterFactor nanos))
                              = Some shift \<and>
                            capped div 10 \<le> jitter \<and> jitter \<le> capped div 10 + 1 \<and>
                            \<bar>shift\<bar> \<le> jitter \<and> delay = capped + shift) \<and>
                         \<bar>delay - capped\<bar> \<le> capped div 10 + 1
                    else delay = capped)))"
proof -
  have 1: "\<exists>j \<le> nat (MaxRetries cfg + 1). waited = slept a @ map delayBefore [1 ..< j]"
    using retryLoop_slept[of "nat (MaxRetries cfg + 1)" cfg ios 0 None a]
    by (simp add: waited_def delayBefore_def executeWithRetry_def)
  have 2: "waited = slept a @ map delayBefore [1 ..< nat (MaxRetries cfg + 1)]"
    if "\<forall>n < nat (MaxRetries cfg + 1).
             (\<forall>b. \<exists>e. fst (performRequest b (ios n)) = Some e \<and> isRetryableError cfg (Some e)) \<and>
             (0 < n \<longrightarrow> ctxDone (ios n) = None)"
    using retryLoop_all_retryable[of 0 "nat (MaxRetries cfg + 1)" ios cfg None a] that
    by (simp add: waited_def delayBefore_def executeWithRetry_def)
  have 3: "\<exists>delay. calculateRetryDelay cfg attempt nanos = Some delay \<and>
                   (if Jitter cfg
                    then (\<exists>jitter shift.
                            int64OfFloat64 (fmul (float64OfInt capped) tenth) = Some jitter \<and>
                            int64OfFloat64 (fmul (float64OfInt jitter) (jitterFactor nanos))
                              = Some shift \<and>
                            capped div 10 \<le> jitter \<and> jitter \<le> capped div 10 + 1 \<and>
                            \<bar>shift\<bar> \<le> jitter \<and> delay = capped + shift) \<and>
                         \<bar>delay - capped\<bar> \<le> capped div 10 + 1
                    else delay = capped)"
    if "0 \<le> BaseDelay cfg \<and> BaseDelay cfg < 2 ^ 53 \<and> 0 \<le> attempt \<and> attempt < 2 ^ 53 \<and>
          BaseDelay cfg * attempt < 2 ^ 53 \<and> Multiplier cfg = Finite m \<and>
          of_int p = of_int (BaseDelay cfg * attempt) * m \<and> 0 \<le> p \<and> p < 2 ^ 53 \<and>
          0 \<le> MaxDelay cfg \<and> 0 \<le> nanos"
    unfolding capped_def using that calculateRetryDelay_linear[of cfg attempt m p nanos] by blast
  from 1 2 3 show ?thesis
    by blast
qed

text \<open>
  On the worker's own configuration (base delay 1 s, multiplier 2, maximum 30 s, jitter
  on, three retries), against an upstream that answers 503 every time, with the clock at
  165 ns: the loop waits before the attempts 1, 2 and 3, each time the delay of
  \<open>calculateRetryDelay\<close>, which is 2 s, 4 s and 6 s less the jitter.
\<close>

theorem retry_delay_witness:
  "slept (snd (executeWithRetry exampleConfig always503 exampleAdapter))
     = [Some 1866000001, Some 3732000001, Some 5598000001] \<and>
   (\<exists>delay. calculateRetryDelay exampleConfig 3 165 = Some delay \<and>
      \<bar>delay - 6 * second\<bar> \<le> (6 * second) div 10 + 1)"
proof -
  have r1: "isRetryableError exampleConfig (Some ''circuit breaker is open'')"
    by code_simp
  have r2: "isRetryableError exampleConfig (Some ''too many requests'')"
    by code_simp
  have r3: "isRetryableError exampleConfig (Some (httpError 503 ''busy''))"
    by code_simp
  have cb: "breakerCallback (Responded 503 ''busy'' None) = (Nil, Some (httpError 503 ''busy''))"
    by code_simp
  have fails: "\<exists>e. fst (performRequest b (always503 n)) = Some e
                 \<and> isRetryableError exampleConfig (Some e)" for b n
    using r1 r2 r3
    by (simp add: performRequest_def Execute_def beforeRequest_def always503_def cb Let_def)
  have ctx: "ctxDone (always503 n) = None" for n
    by (simp add: always503_def)
  have c: "MaxRetries exampleConfig = 3" "BaseDelay exampleConfig = second"
    "MaxDelay exampleConfig = 30 * second" "Multiplier exampleConfig = Finite 2"
    "Jitter exampleConfig"
    by (simp_all add: exampleConfig_def NewRetryConfig_def)
  have d: "calculateRetryDelay exampleConfig 1 165 = Some 1866000001"
    "calculateRetryDelay exampleConfig 2 165 = Some 3732000001"
    "calculateRetryDelay exampleConfig 3 165 = Some 5598000001"
    by code_simp+
  have u: "unixNano (always503 n) = 165" for n
    by (simp add: always503_def)
  have s: "slept exampleAdapter = []"
    by (simp add: exampleAdapter_def)
  have l: "[1 ..< nat (3 + 1)] = [1, 2, 3]"
    by (simp add: upt_rec)
  show ?thesis
    using retry_delay_linear_capped_jittered
            [of exampleConfig always503 exampleAdapter 3 2 "6 * second" 165]
          fails ctx
    unfolding c u s l by (simp add: d second_def)
qed

text \<open>
  The claim as the specification states it (geometric growth with the configured
  multiplier, capped at the maximum) fails on the worker's own configuration. With the
  clock at a value whose jitter term is zero the delays before attempts 1, 2, 3 are 2 s,
  4 s and 6 s: the third is neither twice the second nor in constant ratio with it, all
  far below the cap. And the delay before attempt 20 exceeds the maximum delay.
\<close>

theorem retry_delay_not_geometric:
  "calculateRetryDelay exampleConfig 1 500 = Some (2 * second) \<and>
   calculateRetryDelay exampleConfig 2 500 = Some (4 * second) \<and>
   calculateRetryDelay exampleConfig 3 500 = Some (6 * second) \<and>
   6 * second < MaxDelay exampleConfig \<and>
   Multiplier exampleConfig = Finite 2 \<and>
   6 * second \<noteq> 2 * (4 * second) \<and>
   (4 * second) * (4 * second) \<noteq> (2 * second) * (6 * second) \<and>
   calculateRetryDelay exampleConfig 20 999 = Some 32994000000 \<and>
   MaxDelay exampleConfig < 32994000000"
  by code_simp

subsection \<open>The dispatcher's page loop\<close>







subsection \<open>The enumeration at startup\<close>

text \<open>Every job that a run of \<open>processBatch\<close> publishes has the kind of the run.\<close>

lemma pageJobs_kind: "msg \<in> set (pageJobs k p) \<Longrightarrow> MsgType msg = k"
  by (cases p) (auto simp: pageJobs_def recordJob_def missingTranslationJob_def)

lemma iteration_kinds:
  assumes "\<forall>msg\<in>set (concat (published acc)). MsgType msg = k"
  shows "case iteration s k col n i c acc of
           Stop r \<Rightarrow> \<forall>msg\<in>set (concat (published r)). MsgType msg = k
         | Continue c' acc' \<Rightarrow> \<forall>msg\<in>set (concat (published acc')). MsgType msg = k"
  using assms
  by (auto simp: iteration_def Let_def dest: pageJobs_kind split: option.splits sum.splits)

lemma pageLoop_kinds:
  assumes "\<forall>msg\<in>set (concat (published acc)). MsgType msg = k"
  shows "\<forall>msg\<in>set (concat (published (pageLoop s k col n i c acc))). MsgType msg = k"
  using assms
proof (induction s k col n i c acc rule: pageLoop.induct)
  case (1 s k col n i c acc)
  show ?case
  proof (cases "iteration s k col n i c acc")
    case (Stop r)
    with iteration_kinds[OF "1.prems", of s col n i c] show ?thesis
      by (simp add: pageLoop.simps)
  next
    case (Continue c' acc')
    with iteration_kinds[OF "1.prems", of s col n i c]
    have "\<forall>msg\<in>set (concat (published acc')). MsgType msg = k"
      by simp
    from "1.IH"[OF Continue this] Continue show ?thesis
      by (simp add: pageLoop.simps)
  qed
qed

lemma processBatch_kinds:
  "msg \<in> set (concat (published (processBatch s k col))) \<Longrightarrow> MsgType msg = k"
  using pageLoop_kinds[of emptyBatch k s col "if BatchSize s \<le> 0 then 1000 else BatchSize s" 0 0]
  by (auto simp: processBatch_def emptyBatch_def Let_def)

text \<open>
  C6, as the code has it. \<open>runOnce\<close> calls \<open>processBatch\<close> for three kinds, in the
  order \<open>update_hotel\<close>, \<open>fetch_translation\<close>, \<open>fetch_review\<close>, and stops after the
  first call that returns an error; when no call fails it makes all three. It never
  calls \<open>processBatch\<close> for \<open>update_review\<close> or \<open>update_translation\<close>, and every job
  that a call publishes has the kind of that call, so \<open>runOnce\<close> publishes no job of
  those two kinds. Each call is one pass of the page loop of \<open>processBatch\<close> with its
  keyset cursor; that pass need not reach every eligible row (see the keyset cursor
  below).
\<close>

theorem runOnce_enumerates_three_kinds:
  "(\<exists>n \<in> {1, 2, 3}. map fst (runOnce s) =
        take n [MessageTypeUpdateHotel, MessageTypeFetchTranslation, MessageTypeFetchReview])
   \<and> list_all (\<lambda>(k, b). b = processBatch s k False) (runOnce s)
   \<and> list_all (\<lambda>(k, b). err b = None) (butlast (runOnce s))
   \<and> (list_all (\<lambda>(k, b). err b = None) (runOnce s) \<longrightarrow> length (runOnce s) = 3)
   \<and> MessageTypeUpdateReview \<notin> set (map fst (runOnce s))
   \<and> MessageTypeUpdateTranslation \<notin> set (map fst (runOnce s))
   \<and> list_all (\<lambda>(k, b). list_all (\<lambda>msg. MsgType msg = k) (concat (published b))) (runOnce s)
   \<and> list_all (\<lambda>msg. MsgType msg \<noteq> MessageTypeUpdateReview \<and>
                       MsgType msg \<noteq> MessageTypeUpdateTranslation)
       (concat (concat (map (\<lambda>(k, b). published b) (runOnce s))))"
proof -
  have runs: "list_all (\<lambda>(k, b). b = processBatch s k False) (runOnce s)"
    by (auto simp: runOnce_def Let_def)
  have kinds: "set (map fst (runOnce s))
                 \<subseteq> {MessageTypeUpdateHotel, MessageTypeFetchTranslation, MessageTypeFetchReview}"
    by (auto simp: runOnce_def Let_def)
  have own: "MsgType msg = k" if "(k, b) \<in> set (runOnce s)" "msg \<in> set (concat (published b))"
    for k b msg
  proof -
    from that(1) runs have "b = processBatch s k False"
      by (auto simp: list_all_iff)
    with that(2) show ?thesis
      using processBatch_kinds by simp
  qed
  have a: "list_all (\<lambda>(k, b). list_all (\<lambda>msg. MsgType msg = k) (concat (published b))) (runOnce s)"
    unfolding list_all_iff using own by (auto simp del: set_concat)
  have b: "list_all (\<lambda>msg. MsgType msg \<noteq> MessageTypeUpdateReview \<and>
                       MsgType msg \<noteq> MessageTypeUpdateTranslation)
       (concat (concat (map (\<lambda>(k, b). published b) (runOnce s))))"
  proof -
    have "MsgType msg \<noteq> MessageTypeUpdateReview \<and> MsgType msg \<noteq> MessageTypeUpdateTranslation"
      if "(k, b) \<in> set (runOnce s)" "msg \<in> set (concat (published b))" for k b msg
    proof -
      from that(1) kinds have "k \<in> {MessageTypeUpdateHotel, MessageTypeFetchTranslation, MessageTypeFetchReview}"
        by force
      with own[OF that] kinds_distinct show ?thesis
        by auto
    qed
    then show ?thesis
      unfolding list_all_iff by (auto simp del: set_concat) (auto simp: set_concat)
  qed
  have c: "(\<exists>n \<in> {1, 2, 3}. map fst (runOnce s) =
        take n [MessageTypeUpdateHotel, MessageTypeFetchTranslation, MessageTypeFetchReview])
   \<and> list_all (\<lambda>(k, b). err b = None) (butlast (runOnce s))
   \<and> (list_all (\<lambda>(k, b). err b = None) (runOnce s) \<longrightarrow> length (runOnce s) = 3)
   \<and> MessageTypeUpdateReview \<notin> set (map fst (runOnce s))
   \<and> MessageTypeUpdateTranslation \<notin> set (map fst (runOnce s))"
    using kinds_distinct by (auto simp: runOnce_def Let_def)
  from a b c runs show ?thesis
    by blast
qed

theorem runOnce_witness:
  "list_all (\<lambda>(k, b). err b = None) (runOnce (exampleServer 1000)) \<and>
   map fst (runOnce (exampleServer 1000)) = [''update_hotel'', ''fetch_translation'', ''fetch_review''] \<and>
   MessageTypeUpdateReview \<notin> set (map fst (runOnce (exampleServer 1000))) \<and>
   list_all (\<lambda>msg. MsgType msg \<noteq> ''update_review'' \<and> MsgType msg \<noteq> ''update_translation'')
     (concat (concat (map (\<lambda>(k, b). published b) (runOnce (exampleServer 1000)))))"
proof -
  have e: "list_all (\<lambda>(k, b). err b = None) (runOnce (exampleServer 1000))"
    by code_simp
  have m: "map fst (runOnce (exampleServer 1000)) = [''update_hotel'', ''fetch_translation'', ''fetch_review'']"
    by code_simp
  from runOnce_enumerates_three_kinds[of "exampleServer 1000"] e m show ?thesis
    by (simp add: MessageTypeUpdateHotel_def MessageTypeUpdateReview_def
        MessageTypeUpdateTranslation_def MessageTypeFetchTranslation_def
        MessageTypeFetchReview_def)
qed

text \<open>
  The claim as the specification states it fails: on the example store three review
  rows and two translation rows are due (a run of \<open>update_review\<close> would enqueue three
  jobs, one of \<open>update_translation\<close> two), and \<open>runOnce\<close> enqueues none of them: its runs
  are exactly the three kinds above. Nor is a run a full enumeration: hotel 5 lacks the
  translations \<open>es\<close> and \<open>fr\<close>, and with the batch size 1 the run of
  \<open>fetch_translation\<close> publishes the job for \<open>es\<close> only and ends without an error.
\<close>

theorem runOnce_skips_update_kinds:
  "map fst (runOnce (exampleServer 1000)) = [''update_hotel'', ''fetch_translation'', ''fetch_review''] \<and>
   jobsTotal (processBatch (exampleServer 1000) MessageTypeUpdateReview False) = 3 \<and>
   jobsTotal (processBatch (exampleServer 1000) MessageTypeUpdateTranslation False) = 2 \<and>
   list_all (\<lambda>m. MsgType m \<noteq> ''update_review'' \<and> MsgType m \<noteq> ''update_translation'')
     (concat (concat (map (\<lambda>(k, b). published b) (runOnce (exampleServer 1000))))) \<and>
   map (\<lambda>m. (MHotelID m, MissingLang m))
     (missingLang (db (exampleServer 1)) 0 ''es'' @ missingLang (db (exampleServer 1)) 0 ''fr'')
     = [(5, ''es''), (5, ''fr'')] \<and>
   map (\<lambda>(k, b). (k, map (map MsgID) (published b), err b)) (runOnce (exampleServer 1))
     = [(''update_hotel'', [[''h1''], [''h2'']], None),
        (''fetch_translation'', [[''5_es'']], None),
        (''fetch_review'', [], None)]"
  by code_simp

subsection \<open>The keyset cursor\<close>

text \<open>
  C2 fails on the code. The cursor is the hotel id alone, and the next page asks for
  hotel ids greater than the last one seen; rows that share the hotel id of the last row
  of a page and fall behind the page boundary are never queried again. On the example
  store with batch size 2, the reviews \<open>r2\<close> and \<open>r3\<close> both belong to hotel 7: the
  first page is \<open>r1, r2\<close>, the second query asks for hotel ids above 7 and is empty, and
  the run ends without an error and without a job for \<open>r3\<close>, a row that is due. With
  batch size 1 the same happens to the translation \<open>t2\<close> (hotel 7, \<open>fr\<close>) after
  \<open>t1\<close> (hotel 7, \<open>es\<close>).
\<close>

theorem keyset_cursor_skips_rows_sharing_a_hotel_id:
  "err (processBatch (exampleServer 2) MessageTypeUpdateReview False) = None \<and>
   queries (processBatch (exampleServer 2) MessageTypeUpdateReview False) = [(0, 2), (7, 0)] \<and>
   map (map MsgID) (published (processBatch (exampleServer 2) MessageTypeUpdateReview False))
     = [[''r1'', ''r2'']] \<and>
   list_ex (\<lambda>r. RID r = ''r3'' \<and> RNextUpdateAt r < clock (exampleServer 2) \<and> RHotelID r > 0)
     (reviews_tbl (db (exampleServer 2))) \<and>
   err (processBatch (exampleServer 1) MessageTypeUpdateTranslation False) = None \<and>
   map (map MsgID) (published (processBatch (exampleServer 1) MessageTypeUpdateTranslation False))
     = [[''t1'']] \<and>
   list_ex (\<lambda>t. TID t = ''t2'' \<and> TNextUpdateAt t < clock (exampleServer 1) \<and> THotelID t > 0)
     (translations_tbl (db (exampleServer 1)))"
  by code_simp

text \<open>
  Where the hotel ids of the rows that are due are pairwise distinct, the cursor loses
  nothing. For \<open>update_hotel\<close>, with no database fault, no cancellation and no publish
  failure, the run ends without an error and the jobs it hands to the publisher are, in
  order, exactly one job per due row of \<open>hotels\<close>, whatever the batch size.
\<close>

lemma filter_above_last_take:
  assumes s: "sorted (map f xs)" and d: "distinct (map f xs)" and ne: "take n xs \<noteq> []"
  shows "filter (\<lambda>r. f (last (take n xs)) < f r) xs = drop n xs"
proof -
  define a where "a = take n xs"
  define b where "b = drop n xs"
  have xs: "xs = a @ b" by (simp add: a_def b_def)
  from s d have "sorted_wrt (<) (map f (a @ b))"
    unfolding xs by (simp add: strict_sorted_iff)
  then have sa: "sorted_wrt (<) (map f a)" and ab: "\<forall>x\<in>set a. \<forall>y\<in>set b. f x < f y"
    by (auto simp: sorted_wrt_append)
  have la: "last a \<in> set a" using ne by (simp add: a_def)
  have "\<forall>x\<in>set a. f x \<le> f (last a)"
    using sa ne unfolding a_def[symmetric]
  proof (induction a)
    case Nil
    then show ?case by simp
  next
    case (Cons x a)
    then show ?case by (cases "a = []") (auto simp: less_imp_le)
  qed
  then have "filter (\<lambda>r. f (last a) < f r) a = []"
    by (auto simp: filter_empty_conv)
  moreover have "filter (\<lambda>r. f (last a) < f r) b = b"
    using ab la by (auto simp: filter_id_conv)
  ultimately have "filter (\<lambda>r. f (last a) < f r) (a @ b) = b" by simp
  then show ?thesis by (simp add: a_def b_def)
qed

lemma dueHotels_pos: "r \<in> set (dueHotels s) \<Longrightarrow> 0 < QHotelID r"
  by (auto simp: dueHotels_def)

lemma QueryHotelIDsByID_due:
  assumes "fault (db s) = None" and "0 \<le> c"
  shows "QueryHotelIDsByID (db s) (clock s) c n
           = Inr (take (nat n) (filter (\<lambda>r. c < QHotelID r) (dueHotels s)))"
proof -
  have "filter (\<lambda>h. NextUpdateAt h < clock s \<and> HotelID h > 0 \<and> cursorFilter c (HotelID h)) (hotels_tbl (db s))
      = filter (\<lambda>h. c < HotelID h) (filter (\<lambda>h. NextUpdateAt h < clock s \<and> HotelID h > 0) (hotels_tbl (db s)))"
    using assms(2) by (auto simp: cursorFilter_def intro!: filter_cong)
  then have "sort_key QHotelID (map (\<lambda>h. \<lparr>QID = ID h, QHotelID = HotelID h\<rparr>)
        (filter (\<lambda>h. NextUpdateAt h < clock s \<and> HotelID h > 0 \<and> cursorFilter c (HotelID h)) (hotels_tbl (db s))))
      = filter (\<lambda>r. c < QHotelID r) (dueHotels s)"
    by (simp add: dueHotels_def filter_sort filter_map comp_def)
  then show ?thesis
    using assms(1) by (simp add: QueryHotelIDsByID_def limitRows_def)
qed

lemma iteration_update_hotel:
  assumes f: "fault (db s) = None" and ctx: "\<And>i. ctxErr s MessageTypeUpdateHotel i = None"
      and pub: "\<And>i jobs. publishErr s MessageTypeUpdateHotel i jobs = None"
      and c: "0 \<le> c"
  shows "iteration s MessageTypeUpdateHotel col n i c acc =
     (let p = take (nat n) (filter (\<lambda>r. c < QHotelID r) (dueHotels s));
          acc1 = acc\<lparr>queries := queries acc @ [(c, length p)]\<rparr>
      in if p = [] then Stop acc1
         else Continue (QHotelID (last p))
                ((if col then acc1\<lparr>jobInfos := jobInfos acc1 @ pageJobInfos MessageTypeUpdateHotel (Records p)\<rparr> else acc1)
                   \<lparr>jobsTotal := jobsTotal acc1 + length p,
                     published := published acc1 @ [map (recordJob MessageTypeUpdateHotel) p]\<rparr>))"
  using ctx pub
  by (simp add: iteration_def queryPage_def QueryHotelIDsByID_due[OF f c] pageHotelIDs_def
      pageJobs_def Let_def last_map)

lemma pageLoop_update_hotel:
  assumes "k = MessageTypeUpdateHotel"
      and "fault (db s) = None" and "\<And>i. ctxErr s MessageTypeUpdateHotel i = None"
      and "\<And>i jobs. publishErr s MessageTypeUpdateHotel i jobs = None"
      and "distinct (map QHotelID (dueHotels s))"
      and "0 < n" and "0 \<le> c" and "err acc = None"
  shows "err (pageLoop s k col n i c acc) = None \<and>
         concat (published (pageLoop s k col n i c acc))
           = concat (published acc)
               @ map (recordJob MessageTypeUpdateHotel) (filter (\<lambda>r. c < QHotelID r) (dueHotels s))"
  using assms
proof (induction s k col n i c acc rule: pageLoop.induct)
  case (1 s k col n i c acc)
  note k = "1.prems"(1) and f = "1.prems"(2) and ctx = "1.prems"(3) and pub = "1.prems"(4)
    and d = "1.prems"(5) and n = "1.prems"(6) and c = "1.prems"(7) and e = "1.prems"(8)
  define R where "R = filter (\<lambda>r. c < QHotelID r) (dueHotels s)"
  define p where "p = take (nat n) R"
  define acc1 where "acc1 = acc\<lparr>queries := queries acc @ [(c, length p)]\<rparr>"
  define acc' where "acc' =
      (if col then acc1\<lparr>jobInfos := jobInfos acc1 @ pageJobInfos MessageTypeUpdateHotel (Records p)\<rparr> else acc1)
         \<lparr>jobsTotal := jobsTotal acc1 + length p,
           published := published acc1 @ [map (recordJob MessageTypeUpdateHotel) p]\<rparr>"
  have it: "iteration s k col n i c acc =
              (if p = [] then Stop acc1 else Continue (QHotelID (last p)) acc')"
    unfolding k iteration_update_hotel[OF f ctx pub c] Let_def R_def p_def acc1_def acc'_def ..
  show ?case
  proof (cases "p = []")
    case True
    then have "R = []" using n by (simp add: p_def)
    moreover have "pageLoop s k col n i c acc = acc1"
      using it True by (simp add: pageLoop.simps)
    ultimately show ?thesis
      using e by (simp add: acc1_def R_def[symmetric])
  next
    case False
    define c' where "c' = QHotelID (last p)"
    have lp: "last p \<in> set R"
      using False by (metis in_set_takeD last_in_set p_def)
    then have cc': "c < c'" by (simp add: R_def c'_def)
    have step: "pageLoop s k col n i c acc = pageLoop s k col n (Suc i) c' acc'"
      using it False by (simp add: pageLoop.simps c'_def)
    have cont: "iteration s k col n i c acc = Continue c' acc'"
      using it False by (simp add: c'_def)
    have e': "err acc' = None"
      using e by (simp add: acc'_def acc1_def)
    have c0: "0 \<le> c'" using cc' c by simp
    from "1.IH"[OF cont k f ctx pub d n c0 e']
    have ih: "err (pageLoop s k col n (Suc i) c' acc') = None"
      "concat (published (pageLoop s k col n (Suc i) c' acc'))
         = concat (published acc') @ map (recordJob MessageTypeUpdateHotel)
             (filter (\<lambda>r. c' < QHotelID r) (dueHotels s))"
      by simp_all
    have sR: "sorted (map QHotelID R)"
      unfolding R_def dueHotels_def by (intro sorted_filter sorted_sort_key)
    have dR: "distinct (map QHotelID R)"
      unfolding R_def using d by (rule distinct_map_filter)
    have "filter (\<lambda>r. c' < QHotelID r) (dueHotels s) = filter (\<lambda>r. c' < QHotelID r) R"
      unfolding R_def using cc' by (auto intro!: filter_cong)
    also have "\<dots> = drop (nat n) R"
      using filter_above_last_take[OF sR dR, of "nat n"] False
      by (simp add: p_def c'_def)
    finally have rest: "filter (\<lambda>r. c' < QHotelID r) (dueHotels s) = drop (nat n) R" .
    have "p @ drop (nat n) R = R" by (simp add: p_def)
    then have "map (recordJob MessageTypeUpdateHotel) p @ map (recordJob MessageTypeUpdateHotel) (drop (nat n) R)
                 = map (recordJob MessageTypeUpdateHotel) R"
      by (metis map_append)
    then show ?thesis
      unfolding step using ih rest
      by (simp add: acc'_def acc1_def R_def[symmetric])
  qed
qed

theorem keyset_cursor_complete_for_distinct_hotel_ids:
  assumes f: "fault (db s) = None" and ctx: "\<And>i. ctxErr s MessageTypeUpdateHotel i = None"
      and pub: "\<And>i jobs. publishErr s MessageTypeUpdateHotel i jobs = None"
      and d: "distinct (map QHotelID (dueHotels s))"
  shows "err (processBatch s MessageTypeUpdateHotel col) = None \<and>
         concat (published (processBatch s MessageTypeUpdateHotel col))
           = map (recordJob MessageTypeUpdateHotel) (dueHotels s)"
proof -
  define n where "n = (if BatchSize s \<le> 0 then 1000 else BatchSize s)"
  have n: "0 < n" by (simp add: n_def)
  have all: "filter (\<lambda>r. 0 < QHotelID r) (dueHotels s) = dueHotels s"
    by (auto simp: filter_id_conv dueHotels_pos)
  have "processBatch s MessageTypeUpdateHotel col = pageLoop s MessageTypeUpdateHotel col n 0 0 emptyBatch"
    by (simp add: processBatch_def n_def)
  with pageLoop_update_hotel[OF refl f ctx pub d n, of 0 emptyBatch col 0] all
  show ?thesis by (simp add: emptyBatch_def)
qed

theorem keyset_cursor_complete_witness:
  "distinct (map QHotelID (dueHotels (exampleServer 1))) \<and>
   err (processBatch (exampleServer 1) MessageTypeUpdateHotel False) = None \<and>
   map MsgID (concat (published (processBatch (exampleServer 1) MessageTypeUpdateHotel False)))
     = [''h1'', ''h2'']"
proof -
  have f: "fault (db (exampleServer 1)) = None" by code_simp
  have ctx: "\<And>i. ctxErr (exampleServer 1) MessageTypeUpdateHotel i = None"
    by (simp add: exampleServer_def)
  have pub: "\<And>i jobs. publishErr (exampleServer 1) MessageTypeUpdateHotel i jobs = None"
    by (simp add: exampleServer_def)
  have d: "distinct (map QHotelID (dueHotels (exampleServer 1)))" by code_simp
  have m: "map MsgID (map (recordJob MessageTypeUpdateHotel) (dueHotels (exampleServer 1)))
             = [''h1'', ''h2'']" by code_simp
  from keyset_cursor_complete_for_distinct_hotel_ids[OF f ctx pub d, of False] d m
  show ?thesis by simp
qed

subsection \<open>The lock\<close>

text \<open>
  C3. For every message that decodes: when \<open>Acquire\<close> returns false, \<open>processMessage\<close>
  returns nil without touching anything (no API call, no write), and the consumer loop
  acks the delivery; when \<open>Acquire\<close> returns an error, \<open>processMessage\<close> returns an
  error and the consumer loop nacks the delivery with \<open>requeue = false\<close>, which sends
  it to the dead-letter queue.
\<close>

theorem lock_not_acquired_acks_lock_error_nacks:
  fixes w st m
  defines "ttl \<equiv> LockSeconds (getTTLConfigForEntity (TTL w) (MMessageType m)) * second"
  shows "(Acquire w (lockKey m) ttl = Inr False \<longrightarrow>
            processMessage w st (Inr m) = (Success, st) \<and>
            consumeMessages w st [Inr m] = ([Ack False], st)) \<and>
         (\<forall>e. Acquire w (lockKey m) ttl = Inl e \<longrightarrow>
            processMessage w st (Inr m) = (Failure (''failed to acquire lock: '' @ e), st) \<and>
            consumeMessages w st [Inr m] = ([Nack False False], st))"
  by (auto simp: processMessage_def ttl_def Let_def settle_def)

theorem lock_witness:
  "consumeMessages (exampleWorld (Inr False)) exampleWorker
     [Inr (exampleMessage ''h1'' MessageTypeUpdateHotel)] = ([Ack False], exampleWorker) \<and>
   consumeMessages (exampleWorld (Inl ''connection refused'')) exampleWorker
     [Inr (exampleMessage ''h1'' MessageTypeUpdateHotel)] = ([Nack False False], exampleWorker) \<and>
   processMessage (exampleWorld (Inl ''connection refused'')) exampleWorker
     (Inr (exampleMessage ''h1'' MessageTypeUpdateHotel))
     = (Failure ''failed to acquire lock: connection refused'', exampleWorker)"
proof -
  have a: "Acquire (exampleWorld lock) k t = lock" for lock k t
    by (simp add: exampleWorld_def)
  show ?thesis
    using lock_not_acquired_acks_lock_error_nacks
            [of "exampleWorld (Inr False)" "exampleMessage ''h1'' MessageTypeUpdateHotel"
                exampleWorker]
          lock_not_acquired_acks_lock_error_nacks
            [of "exampleWorld (Inl ''connection refused'')"
                "exampleMessage ''h1'' MessageTypeUpdateHotel" exampleWorker]
    unfolding a by (simp add: settle_def)
qed

subsection \<open>A job whose row is gone\<close>

text \<open>
  C4, as the code has it. Take a job whose lock is acquired and that misses the cache.
  For a job \<open>update_review\<close>, when the lookup of the review row by id yields the hotel
  id 0, \<open>processMessage\<close> returns nil and the consumer loop acks the delivery; the
  worker has made no API call and no write, it has only released the lock. For a job
  \<open>update_translation\<close> the hotel id is taken from the job's data, which carries it
  as a string; when the lookup of the translation row by id yields the empty language,
  \<open>processMessage\<close> returns the error
  \<open>failed to process update_translation job: lang is empty\<close> and the consumer loop
  nacks the delivery with \<open>requeue = false\<close>, again with no API call and no write.
\<close>

theorem missing_row_review_acks_translation_nacks:
  fixes w st m
  defines "ttl \<equiv> LockSeconds (getTTLConfigForEntity (TTL w) (MMessageType m)) * second"
      and "st' \<equiv> st\<lparr>released := released st @ [lockKey m]\<rparr>"
  shows "(MMessageType m = MessageTypeUpdateReview \<and>
          Acquire w (lockKey m) ttl = Inr True \<and>
          \<not> cacheFound w (''reviews_data_'' @ MID m) \<and>
          GetHotelIdFromReviewByPk (store st) (MID m) = 0
            \<longrightarrow> processMessage w st (Inr m) = (Success, st') \<and>
                consumeMessages w st [Inr m] = ([Ack False], st') \<and>
                apiCalls st' = apiCalls st \<and> store st' = store st) \<and>
         (\<forall>data h.
            MMessageType m = MessageTypeUpdateTranslation \<and>
            Acquire w (lockKey m) ttl = Inr True \<and>
            \<not> cacheFound w (''translations_data_'' @ MID m) \<and>
            Data m = Some data \<and> map_of data HotelId = Some (String h) \<and>
            GetLangById (store st) (MID m) = []
            \<longrightarrow> processMessage w st (Inr m)
                  = (Failure ''failed to process update_translation job: lang is empty'', st') \<and>
                consumeMessages w st [Inr m] = ([Nack False False], st') \<and>
                apiCalls st' = apiCalls st \<and> store st' = store st)"
proof -
  have rv: "processMessage w st (Inr m) = (Success, st') \<and>
            consumeMessages w st [Inr m] = ([Ack False], st')"
    if "MMessageType m = MessageTypeUpdateReview" "Acquire w (lockKey m) ttl = Inr True"
       "\<not> cacheFound w (''reviews_data_'' @ MID m)"
       "GetHotelIdFromReviewByPk (store st) (MID m) = 0"
  proof -
    have h: "processReviewsMessage w st m = (Success, st)"
      using that kinds_distinct
      by (simp add: processReviewsMessage_def reviewsTarget_def Let_def)
    have d: "dispatch w st m = (Success, st)"
      using that(1) kinds_distinct h by (simp add: dispatch_def)
    have p: "processMessage w st (Inr m) = (Success, st')"
      using that(2) d by (simp add: processMessage_def ttl_def st'_def Let_def)
    then show ?thesis by (simp add: settle_def)
  qed
  have tr: "processMessage w st (Inr m)
              = (Failure ''failed to process update_translation job: lang is empty'', st') \<and>
            consumeMessages w st [Inr m] = ([Nack False False], st')"
    if "MMessageType m = MessageTypeUpdateTranslation" "Acquire w (lockKey m) ttl = Inr True"
       "\<not> cacheFound w (''translations_data_'' @ MID m)"
       "Data m = Some data" "map_of data HotelId = Some (String h)"
       "GetLangById (store st) (MID m) = []" for data h
  proof -
    have h: "processTranslationsMessage w st m = (Failure ''lang is empty'', st)"
      using that kinds_distinct
      by (simp add: processTranslationsMessage_def Let_def)
    have d: "dispatch w st m = (Failure ''lang is empty'', st)"
      using that(1) kinds_distinct h by (simp add: dispatch_def)
    have p: "processMessage w st (Inr m)
               = (Failure (''failed to process '' @ MessageTypeUpdateTranslation
                             @ '' job: lang is empty''), st')"
      using that(1,2) d by (simp add: processMessage_def ttl_def st'_def Let_def)
    then show ?thesis by (simp add: settle_def MessageTypeUpdateTranslation_def)
  qed
  have fr: "apiCalls st' = apiCalls st \<and> store st' = store st"
    by (simp add: st'_def)
  from rv tr fr show ?thesis by blast
qed

theorem missing_row_witness:
  "processMessage (exampleWorld (Inr True)) exampleWorker
     (Inr (exampleMessage ''gone'' MessageTypeUpdateReview))
     = (Success, exampleWorker\<lparr>released := [''hotel_lock_gone'']\<rparr>) \<and>
   consumeMessages (exampleWorld (Inr True)) exampleWorker
     [Inr (exampleMessage ''gone'' MessageTypeUpdateReview)]
     = ([Ack False], exampleWorker\<lparr>released := [''hotel_lock_gone'']\<rparr>) \<and>
   processMessage (exampleWorld (Inr True)) exampleWorker
     (Inr (exampleMessage ''gone'' MessageTypeUpdateTranslation))
     = (Failure ''failed to process update_translation job: lang is empty'',
        exampleWorker\<lparr>released := [''hotel_lock_gone'']\<rparr>) \<and>
   consumeMessages (exampleWorld (Inr True)) exampleWorker
     [Inr (exampleMessage ''gone'' MessageTypeUpdateTranslation)]
     = ([Nack False False], exampleWorker\<lparr>released := [''hotel_lock_gone'']\<rparr>)"
proof -
  have a: "GetHotelIdFromReviewByPk (store exampleWorker) ''gone'' = 0"
    by code_simp
  have b: "GetLangById (store exampleWorker) ''gone'' = []"
    by code_simp
  have c: "\<not> cacheFound (exampleWorld (Inr True)) k" for k
    by (simp add: exampleWorld_def)
  have l: "Acquire (exampleWorld (Inr True)) k t = Inr True" for k t
    by (simp add: exampleWorld_def)
  have m: "MMessageType (exampleMessage pk kind) = kind" "MID (exampleMessage pk kind) = pk"
    "Data (exampleMessage pk kind) = Some [(HotelId, String ''7'')]"
    "lockKey (exampleMessage pk kind) = ''hotel_lock_'' @ pk" for pk kind
    by (simp_all add: exampleMessage_def lockKey_def)
  have r: "released exampleWorker = []"
    by (simp add: exampleWorker_def)
  show ?thesis
    using missing_row_review_acks_translation_nacks
            [of "exampleMessage ''gone'' MessageTypeUpdateReview" "exampleWorld (Inr True)"
                exampleWorker]
          missing_row_review_acks_translation_nacks
            [of "exampleMessage ''gone'' MessageTypeUpdateTranslation" "exampleWorld (Inr True)"
                exampleWorker]
          a b c l
    unfolding m r by (simp add: settle_def)
qed

text \<open>
  The claim as the specification states it fails. A job \<open>update_translation\<close> whose row
  is gone is not treated as a success: the worker returns an error and nacks the
  delivery. And a job \<open>update_hotel\<close> whose row is gone does not stop before the
  upstream call: the worker asks the API for the hotel id 0.
\<close>

theorem missing_row_not_always_success:
  "fst (processMessage (exampleWorld (Inr True)) exampleWorker
          (Inr (exampleMessage ''gone'' MessageTypeUpdateTranslation)))
     = Failure ''failed to process update_translation job: lang is empty'' \<and>
   fst (consumeMessages (exampleWorld (Inr True)) exampleWorker
          [Inr (exampleMessage ''gone'' MessageTypeUpdateTranslation)]) = [Nack False False] \<and>
   GetHotelIdByPk (store exampleWorker) ''gone'' = 0 \<and>
   apiCalls (snd (processMessage (exampleWorld (Inr True)) exampleWorker
                    (Inr (exampleMessage ''gone'' MessageTypeUpdateHotel))))
     = [CallFetchHotelData 0]"
  by code_simp

subsection \<open>Upserts of hotels and translations\<close>

lemma firstRow_Inr:
  "firstRow del cond rows = Inr r \<Longrightarrow> r \<in> set rows \<and> \<not> Valid (del r) \<and> cond r"
  by (auto simp: firstRow_def find_Some_iff split: option.splits)

lemma saveRow_present:
  assumes "existing \<in> set rows" and "key r = key existing"
      and "\<And>x. clash r x \<Longrightarrow> key x = key r"
  shows "saveRow key clash r rows = Inr (map (\<lambda>x. if key x = key r then r else x) rows)"
  using assms by (auto simp: saveRow_def list_ex_iff)

text \<open>
  C10, as the code has it. When \<open>First\<close> finds a row with the same \<open>hotel_id\<close> (for a
  translation: the same \<open>hotel_id\<close> and \<open>lang\<close>) and that row has a non-empty primary
  key, the upsert succeeds and replaces the row by the incoming record with four
  fields set otherwise: \<open>id\<close> and \<open>created_at\<close> are those of the stored row,
  \<open>updated_at\<close> is the current time, and \<open>status\<close> is \<open>active\<close> unless the incoming
  record is soft-deleted. Every other field is the incoming record's, and every other
  row is untouched.
\<close>

theorem upsert_existing_keeps_id_and_created_at:
  "(First_HotelData d (\<lambda>x. HotelID x = HotelID hotel) = Inr existing \<and> ID existing \<noteq> [] \<longrightarrow>
      existing \<in> set (hotels_tbl d) \<and> HotelID existing = HotelID hotel \<and>
      UpsertHotel now uuid d hotel =
        (None, d\<lparr>hotels_tbl :=
           map (\<lambda>x. if ID x = ID existing
                     then hotel\<lparr>ID := ID existing, CreatedAt := CreatedAt existing,
                                UpdatedAt := now,
                                Status := (if Valid (DeletedAt hotel) then Status hotel
                                           else ''active'')\<rparr>
                     else x) (hotels_tbl d)\<rparr>)) \<and>
   (First_HotelTranslation d (\<lambda>x. THotelID x = THotelID tr \<and> TLang x = TLang tr) = Inr existingT
      \<and> TID existingT \<noteq> [] \<longrightarrow>
      existingT \<in> set (translations_tbl d) \<and> THotelID existingT = THotelID tr \<and>
      TLang existingT = TLang tr \<and>
      UpsertHotelTranslations now uuid d tr =
        (None, d\<lparr>translations_tbl :=
           map (\<lambda>x. if TID x = TID existingT
                     then tr\<lparr>TID := TID existingT, TCreatedAt := TCreatedAt existingT,
                             TUpdatedAt := now,
                             TStatus := (if Valid (TDeletedAt tr) then TStatus tr
                                         else ''active'')\<rparr>
                     else x) (translations_tbl d)\<rparr>))"
proof (intro conjI impI)
  assume a: "First_HotelData d (\<lambda>x. HotelID x = HotelID hotel) = Inr existing \<and> ID existing \<noteq> []"
  then have f: "fault d = None"
    and fr: "firstRow DeletedAt (\<lambda>x. HotelID x = HotelID hotel) (hotels_tbl d) = Inr existing"
    by (auto simp: First_HotelData_def split: option.splits)
  from firstRow_Inr[OF fr]
  show "existing \<in> set (hotels_tbl d)" "HotelID existing = HotelID hotel"
    by simp_all
  let ?r = "HotelData_BeforeUpdate now (hotel\<lparr>ID := ID existing, CreatedAt := CreatedAt existing\<rparr>)"
  have k: "ID ?r = ID existing"
    by (simp add: HotelData_BeforeUpdate_def Let_def)
  have "saveRow ID hotelClash ?r (hotels_tbl d)
          = Inr (map (\<lambda>x. if ID x = ID ?r then ?r else x) (hotels_tbl d))"
    using firstRow_Inr[OF fr] k
    by (intro saveRow_present[of existing]) (auto simp: hotelClash_def)
  then have s: "saveRow ID hotelClash ?r (hotels_tbl d)
          = Inr (map (\<lambda>x. if ID x = ID existing then ?r else x) (hotels_tbl d))"
    unfolding k .
  have r: "?r = hotel\<lparr>ID := ID existing, CreatedAt := CreatedAt existing, UpdatedAt := now,
                      Status := (if Valid (DeletedAt hotel) then Status hotel else ''active'')\<rparr>"
    by (simp add: HotelData_BeforeUpdate_def Let_def)
  show "UpsertHotel now uuid d hotel =
        (None, d\<lparr>hotels_tbl :=
           map (\<lambda>x. if ID x = ID existing
                     then hotel\<lparr>ID := ID existing, CreatedAt := CreatedAt existing,
                                UpdatedAt := now,
                                Status := (if Valid (DeletedAt hotel) then Status hotel
                                           else ''active'')\<rparr>
                     else x) (hotels_tbl d)\<rparr>)"
    using a f s
    by (simp add: UpsertHotel_def Save_HotelData_def r)
next
  assume a: "First_HotelTranslation d (\<lambda>x. THotelID x = THotelID tr \<and> TLang x = TLang tr)
               = Inr existingT \<and> TID existingT \<noteq> []"
  then have f: "fault d = None"
    and fr: "firstRow TDeletedAt (\<lambda>x. THotelID x = THotelID tr \<and> TLang x = TLang tr)
               (translations_tbl d) = Inr existingT"
    by (auto simp: First_HotelTranslation_def split: option.splits)
  from firstRow_Inr[OF fr]
  show "existingT \<in> set (translations_tbl d)" "THotelID existingT = THotelID tr"
    "TLang existingT = TLang tr"
    by simp_all
  let ?r = "HotelTranslation_BeforeUpdate now
              (tr\<lparr>TID := TID existingT, TCreatedAt := TCreatedAt existingT\<rparr>)"
  have k: "TID ?r = TID existingT"
    by (simp add: HotelTranslation_BeforeUpdate_def Let_def)
  have "saveRow TID translationClash ?r (translations_tbl d)
          = Inr (map (\<lambda>x. if TID x = TID ?r then ?r else x) (translations_tbl d))"
    using firstRow_Inr[OF fr] k
    by (intro saveRow_present[of existingT]) (auto simp: translationClash_def)
  then have s: "saveRow TID translationClash ?r (translations_tbl d)
          = Inr (map (\<lambda>x. if TID x = TID existingT then ?r else x) (translations_tbl d))"
    unfolding k .
  have r: "?r = tr\<lparr>TID := TID existingT, TCreatedAt := TCreatedAt existingT, TUpdatedAt := now,
                   TStatus := (if Valid (TDeletedAt tr) then TStatus tr else ''active'')\<rparr>"
    by (simp add: HotelTranslation_BeforeUpdate_def Let_def)
  show "UpsertHotelTranslations now uuid d tr =
        (None, d\<lparr>translations_tbl :=
           map (\<lambda>x. if TID x = TID existingT
                     then tr\<lparr>TID := TID existingT, TCreatedAt := TCreatedAt existingT,
                             TUpdatedAt := now,
                             TStatus := (if Valid (TDeletedAt tr) then TStatus tr
                                         else ''active'')\<rparr>
                     else x) (translations_tbl d)\<rparr>)"
    using a f s
    by (simp add: UpsertHotelTranslations_def Save_HotelTranslation_def r)
qed

theorem upsert_existing_witness:
  "UpsertHotel 1000 ''u'' exampleDB incomingHotel =
     (None, exampleDB\<lparr>hotels_tbl :=
        [incomingHotel\<lparr>ID := ''h1'', CreatedAt := 100, UpdatedAt := 1000, Status := ''active''\<rparr>,
         mkHotel ''h2'' 7]\<rparr>) \<and>
   UpsertHotelTranslations 1000 ''u'' exampleDB incomingTranslation =
     (None, exampleDB\<lparr>translations_tbl :=
        [mkTranslation ''t1'' 7 ''es'',
         incomingTranslation\<lparr>TID := ''t2'', TCreatedAt := 100, TUpdatedAt := 1000,
                              TStatus := ''active''\<rparr>]\<rparr>)"
proof -
  have h: "First_HotelData exampleDB (\<lambda>x. HotelID x = HotelID incomingHotel)
             = Inr (mkHotel ''h1'' 5)"
    by (simp add: First_HotelData_def firstRow_def exampleDB_def mkHotel_def incomingHotel_def
        ToHotelData_def notDeleted_def)
  have t: "First_HotelTranslation exampleDB
             (\<lambda>x. THotelID x = THotelID incomingTranslation \<and> TLang x = TLang incomingTranslation)
             = Inr (mkTranslation ''t2'' 7 ''fr'')"
    by (simp add: First_HotelTranslation_def firstRow_def exampleDB_def mkTranslation_def
        incomingTranslation_def ToHotelTranslations_def notDeleted_def)
  show ?thesis
    using upsert_existing_keeps_id_and_created_at
            [of exampleDB incomingHotel "mkHotel ''h1'' 5" 1000 "''u''" incomingTranslation
                "mkTranslation ''t2'' 7 ''fr''"] h t
    by (simp add: exampleDB_def mkHotel_def mkTranslation_def incomingHotel_def
        incomingTranslation_def ToHotelData_def ToHotelTranslations_def zeroDeletedAt_def)
qed

text \<open>
  The claim as the specification states it fails: not every remaining field is the
  incoming record's. The record that the worker maps from upstream's answer has the
  empty status and the zero \<open>updated_at\<close>; the row stored by the upsert has the status
  \<open>active\<close> and the current time.
\<close>

theorem upsert_existing_overrides_status_and_updated_at:
  "fst (UpsertHotel 1000 ''u'' exampleDB incomingHotel) = None \<and>
   Status incomingHotel = [] \<and> UpdatedAt incomingHotel = 0 \<and>
   map (\<lambda>x. (ID x, Status x, UpdatedAt x))
     (hotels_tbl (snd (UpsertHotel 1000 ''u'' exampleDB incomingHotel)))
     = [(''h1'', ''active'', 1000), (''h2'', ''active'', 100)]"
  by code_simp

subsection \<open>Reviews keep their identity\<close>

lemma distinct_map_eq:
  assumes "distinct (map k xs)" and "x \<in> set xs" and "y \<in> set xs" and "k x = k y"
  shows "x = y"
  using assms by (meson distinct_map inj_onD)

lemma map_replace_keys:
  assumes d: "distinct (map k xs)" and e: "e \<in> set xs" and k: "k r = k e" and f: "f r = f e"
  shows "map (\<lambda>y. (k y, f y)) (map (\<lambda>x. if k x = k r then r else x) xs)
           = map (\<lambda>y. (k y, f y)) xs"
proof -
  have "(k (if k x = k r then r else x), f (if k x = k r then r else x)) = (k x, f x)"
    if "x \<in> set xs" for x
  proof (cases "k x = k r")
    case True
    with k have "x = e"
      using distinct_map_eq[OF d that e] by simp
    with True f show ?thesis
      by simp
  next
    case False
    then show ?thesis
      by simp
  qed
  then show ?thesis
    by (simp add: comp_def cong: map_cong)
qed

lemma reviewsUnique_keys:
  "reviewsUnique d = (distinct (map fst (reviewKeys d)) \<and> distinct (map snd (reviewKeys d)))"
  by (simp add: reviewsUnique_def reviewKeys_def comp_def)

lemma GetReviewByReviewID_Inr:
  assumes "GetReviewByReviewID d rid = Inr existing"
  shows "fault d = None \<and> existing \<in> set (reviews_tbl d) \<and> ReviewID existing = rid"
proof -
  from assms have "fault d = None"
    and "firstRow RDeletedAt (\<lambda>x. ReviewID x = rid) (reviews_tbl d) = Inr existing"
    by (auto simp: GetReviewByReviewID_def First_ReviewData_def split: option.splits)
  then show ?thesis
    using firstRow_Inr by fastforce
qed

lemma UpdateReview_ok:
  assumes "RID rr \<noteq> []" and "UpdateReview now uuid d rr = (None, d')"
  shows "\<exists>rows. saveRow RID reviewClash (ReviewData_BeforeUpdate now rr) (reviews_tbl d) = Inr rows
           \<and> d' = d\<lparr>reviews_tbl := rows\<rparr>"
  using assms
  by (auto simp: UpdateReview_def Save_ReviewData_def split: sum.splits option.splits)

lemma saveRow_replace:
  assumes "saveRow key clash rr rows = Inr rows'" and "existing \<in> set rows"
      and "key rr = key existing"
  shows "rows' = map (\<lambda>x. if key x = key rr then rr else x) rows"
  using assms by (auto simp: saveRow_def list_ex_iff split: if_splits)

lemma UpdateReview_existing:
  assumes u: "reviewsUnique d"
      and g: "GetReviewByReviewID d rid = Inr existing"
      and ne: "RID existing \<noteq> []"
      and rid: "ReviewID r = rid"
      and ok: "UpdateReview now uuid d (r\<lparr>RID := RID existing\<rparr>) = (None, d')"
  shows "reviewKeys d' = reviewKeys d \<and> rid \<in> snd ` set (reviewKeys d')"
proof -
  define rr where "rr = ReviewData_BeforeUpdate now (r\<lparr>RID := RID existing\<rparr>)"
  have k1: "RID rr = RID existing"
    by (simp add: rr_def ReviewData_BeforeUpdate_def)
  have ex: "existing \<in> set (reviews_tbl d)" and exid: "ReviewID existing = rid"
    using GetReviewByReviewID_Inr[OF g] by simp_all
  have k2: "ReviewID rr = ReviewID existing"
    by (simp add: rr_def ReviewData_BeforeUpdate_def rid exid)
  have "RID (r\<lparr>RID := RID existing\<rparr>) \<noteq> []"
    using ne by simp
  from UpdateReview_ok[OF this ok] obtain rows
    where s: "saveRow RID reviewClash rr (reviews_tbl d) = Inr rows"
      and d': "d' = d\<lparr>reviews_tbl := rows\<rparr>"
    unfolding rr_def by blast
  have rows: "rows = map (\<lambda>x. if RID x = RID rr then rr else x) (reviews_tbl d)"
    using saveRow_replace[OF s ex k1] .
  have dk: "distinct (map RID (reviews_tbl d))"
    using u by (simp add: reviewsUnique_def)
  have "map (\<lambda>y. (RID y, ReviewID y)) rows = map (\<lambda>y. (RID y, ReviewID y)) (reviews_tbl d)"
    unfolding rows using map_replace_keys[OF dk ex k1 k2] .
  then have eq: "reviewKeys d' = reviewKeys d"
    by (simp add: reviewKeys_def d')
  have "(RID existing, rid) \<in> set (reviewKeys d)"
    unfolding reviewKeys_def using ex exid by force
  then have "rid \<in> snd ` set (reviewKeys d)"
    by force
  with eq show ?thesis
    by simp
qed

lemma CreateReview_ok:
  assumes u: "reviewsUnique d"
      and ok: "CreateReview now uuid d r = (None, d')"
  shows "\<exists>k. reviewKeys d' = reviewKeys d @ [(k, ReviewID r)] \<and> reviewsUnique d'"
proof -
  define rr where "rr = ReviewData_BeforeCreate now uuid r"
  have rid: "ReviewID rr = ReviewID r"
    by (simp add: rr_def ReviewData_BeforeCreate_def Let_def)
  from ok have ins: "insertRow reviewClash rr (reviews_tbl d) = Inr (reviews_tbl d @ [rr])"
    and d': "d' = d\<lparr>reviews_tbl := reviews_tbl d @ [rr]\<rparr>"
    unfolding rr_def
    by (auto simp: CreateReview_def Create_ReviewData_def insertRow_def
        split: option.splits sum.splits if_splits)
  from ins have nc: "\<forall>x\<in>set (reviews_tbl d). RID x \<noteq> RID rr \<and> ReviewID x \<noteq> ReviewID rr"
    by (auto simp: insertRow_def list_ex_iff reviewClash_def split: if_splits)
  have "reviewKeys d' = reviewKeys d @ [(RID rr, ReviewID r)]"
    by (simp add: reviewKeys_def d' rid)
  moreover have "reviewsUnique d'"
    using u nc by (auto simp: reviewsUnique_def d')
  ultimately show ?thesis
    by blast
qed

lemma upsertReview_keys:
  assumes u: "reviewsUnique (store st)"
      and ok: "upsertReview w ttl st x = (None, st')"
  shows "\<exists>extra. reviewKeys (store st') = reviewKeys (store st) @ extra
           \<and> reviewsUnique (store st')
           \<and> ReviewID x \<in> snd ` set (reviewKeys (store st'))"
proof -
  let ?review = "x\<lparr>RNextUpdateAt := nextUpdateAt w ttl\<rparr>"
  have rid: "ReviewID ?review = ReviewID x"
    by simp
  show ?thesis
  proof (cases "case GetReviewByReviewID (store st) (ReviewID ?review) of
                  Inl e \<Rightarrow> False | Inr y \<Rightarrow> RID y \<noteq> []")
    case True
    then obtain existing
      where g: "GetReviewByReviewID (store st) (ReviewID x) = Inr existing"
        and ne: "RID existing \<noteq> []"
      by (auto split: sum.splits)
    from ok True g obtain d
      where upd: "UpdateReview (timeNow w) (newUUID w (uuidsDrawn st)) (store st)
                    (?review\<lparr>RID := RID existing\<rparr>) = (None, d)"
        and st': "store st' = d"
      by (auto simp: upsertReview_def Let_def split: prod.splits option.splits)
    have keq: "reviewKeys d = reviewKeys (store st)"
      using UpdateReview_existing[OF u g ne rid upd, THEN conjunct1] .
    have mem: "ReviewID x \<in> snd ` set (reviewKeys d)"
      using UpdateReview_existing[OF u g ne rid upd, THEN conjunct2] .
    have un: "reviewsUnique d"
      using u keq by (simp add: reviewsUnique_keys)
    have "reviewKeys (store st') = reviewKeys (store st) @ []"
      using keq st' by simp
    with un mem st' show ?thesis
      by blast
  next
    case False
    from ok False obtain d
      where cr: "CreateReview (timeNow w) (newUUID w (uuidsDrawn st)) (store st) ?review = (None, d)"
        and st': "store st' = d"
      by (auto simp: upsertReview_def Let_def split: prod.splits option.splits)
    from CreateReview_ok[OF u cr] obtain k
      where keq: "reviewKeys d = reviewKeys (store st) @ [(k, ReviewID x)]"
        and un: "reviewsUnique d"
      by auto
    have mem: "ReviewID x \<in> snd ` set (reviewKeys d)"
      unfolding keq by simp
    from keq un mem st' show ?thesis
      by blast
  qed
qed

lemma upsertReviews_keys:
  assumes "reviewsUnique (store st)" and "upsertReviews w ttl st rs = (None, st')"
  shows "\<exists>extra. reviewKeys (store st') = reviewKeys (store st) @ extra
           \<and> reviewsUnique (store st')
           \<and> ReviewID ` set rs \<subseteq> snd ` set (reviewKeys (store st'))"
  using assms
proof (induction rs arbitrary: st)
  case Nil
  then show ?case
    by simp
next
  case (Cons x rs)
  from Cons.prems(2) obtain st1 where s1: "upsertReview w ttl st x = (None, st1)"
    and rest: "upsertReviews w ttl st1 rs = (None, st')"
    by (auto split: prod.splits option.splits)
  from upsertReview_keys[OF Cons.prems(1) s1] obtain e1 where e1:
    "reviewKeys (store st1) = reviewKeys (store st) @ e1" "reviewsUnique (store st1)"
    "ReviewID x \<in> snd ` set (reviewKeys (store st1))"
    by blast
  from Cons.IH[OF e1(2) rest] obtain e2 where e2:
    "reviewKeys (store st') = reviewKeys (store st1) @ e2" "reviewsUnique (store st')"
    "ReviewID ` set rs \<subseteq> snd ` set (reviewKeys (store st'))"
    by blast
  have "ReviewID x \<in> snd ` set (reviewKeys (store st'))"
    using e1(3) e2(1) by auto
  with e1 e2 show ?case
    by (intro exI[of _ "e1 @ e2"]) simp
qed

lemma filter_unique:
  assumes "distinct (map f xs)" and "x \<in> set xs"
  shows "filter (\<lambda>y. f y = f x) xs = [x]"
  using assms
proof (induction xs)
  case Nil
  then show ?case
    by simp
next
  case (Cons a xs)
  show ?case
  proof (cases "a = x")
    case True
    with Cons.prems(1) have "filter (\<lambda>y. f y = f x) xs = []"
      by (auto simp: filter_empty_conv image_iff)
    with True show ?thesis
      by simp
  next
    case False
    with Cons have "filter (\<lambda>y. f y = f x) xs = [x]" "f a \<noteq> f x"
      by (auto simp: image_iff)
    then show ?thesis
      by simp
  qed
qed

text \<open>What a successful run of the handler that received the review \<open>r\<close> did to the store.\<close>

lemma processReviewsMessage_keys:
  assumes u: "reviewsUnique (store st)"
      and ok: "processReviewsMessage w st m = (Success, st')"
      and rc: "receives w st m r"
  shows "\<exists>extra. reviewKeys (store st') = reviewKeys (store st) @ extra
           \<and> reviewsUnique (store st')
           \<and> r \<in> snd ` set (reviewKeys (store st'))"
proof -
  from rc have c: "\<not> cacheFound w (''reviews_data_'' @ MID m)"
    by (simp add: receives_def)
  from rc obtain h n where t: "reviewsTarget st m = Inr (h, n)"
    by (cases "reviewsTarget st m") (auto simp: receives_def)
  from rc t obtain resp where f: "FetchHotelReviews w h n = Inr resp"
    and r: "r \<in> CReviewID ` set resp"
    by (cases "FetchHotelReviews w h n") (auto simp: receives_def)
  define st1 where "st1 = st\<lparr>apiCalls := apiCalls st @ [CallFetchHotelReviews h n]\<rparr>"
  define ttl where "ttl = getTTLConfigForEntity (TTL w) ''reviews''"
  from ok t c f obtain st2 where loop: "upsertReviews w ttl st1 (ToReviewDataList resp h) = (None, st2)"
    and st': "store st' = store st2"
    unfolding st1_def ttl_def
    by (auto simp: processReviewsMessage_def Let_def split: prod.splits option.splits)
  have u1: "reviewsUnique (store st1)"
    using u by (simp add: st1_def)
  have "r \<in> ReviewID ` set (ToReviewDataList resp h)"
    using r by (force simp: ToReviewDataList_def ToReviewData_def)
  with upsertReviews_keys[OF u1 loop] show ?thesis
    unfolding st' by (auto simp: st1_def)
qed

text \<open>
  What a successful run did to the rows: a review that upstream sent and whose
  \<open>review_id\<close> the table already held is now the record mapped from upstream, under
  the old primary key; a row whose \<open>review_id\<close> upstream did not send is untouched.
\<close>

lemma in_reviewKeys: "y \<in> set (reviews_tbl d) \<Longrightarrow> (RID y, ReviewID y) \<in> set (reviewKeys d)"
  by (force simp: reviewKeys_def)

lemma upsertReview_rows:
  assumes u: "reviewsUnique (store st)"
      and ok: "upsertReview w ttl st x = (None, st')"
  shows "(\<forall>old\<in>set (reviews_tbl (store st)). ReviewID old = ReviewID x \<longrightarrow>
            ReviewData_BeforeUpdate (timeNow w)
              (x\<lparr>RNextUpdateAt := nextUpdateAt w ttl, RID := RID old\<rparr>)
              \<in> set (reviews_tbl (store st')))
       \<and> (\<forall>z\<in>set (reviews_tbl (store st)). ReviewID z \<noteq> ReviewID x \<longrightarrow>
            z \<in> set (reviews_tbl (store st')))"
proof -
  let ?review = "x\<lparr>RNextUpdateAt := nextUpdateAt w ttl\<rparr>"
  have dk: "distinct (map RID (reviews_tbl (store st)))"
    and dr: "distinct (map ReviewID (reviews_tbl (store st)))"
    using u by (simp_all add: reviewsUnique_def)
  show ?thesis
  proof (cases "case GetReviewByReviewID (store st) (ReviewID ?review) of
                  Inl e \<Rightarrow> False | Inr y \<Rightarrow> RID y \<noteq> []")
    case True
    then obtain existing
      where g: "GetReviewByReviewID (store st) (ReviewID x) = Inr existing"
        and ne: "RID existing \<noteq> []"
      by (auto split: sum.splits)
    from ok True g obtain d
      where upd: "UpdateReview (timeNow w) (newUUID w (uuidsDrawn st)) (store st)
                    (?review\<lparr>RID := RID existing\<rparr>) = (None, d)"
        and st': "store st' = d"
      by (auto simp: upsertReview_def Let_def split: prod.splits option.splits)
    define rr where "rr = ReviewData_BeforeUpdate (timeNow w) (?review\<lparr>RID := RID existing\<rparr>)"
    have k1: "RID rr = RID existing"
      by (simp add: rr_def ReviewData_BeforeUpdate_def)
    have ex: "existing \<in> set (reviews_tbl (store st))" and exid: "ReviewID existing = ReviewID x"
      using GetReviewByReviewID_Inr[OF g] by simp_all
    have "RID (?review\<lparr>RID := RID existing\<rparr>) \<noteq> []"
      using ne by simp
    from UpdateReview_ok[OF this upd] obtain rows
      where s: "saveRow RID reviewClash rr (reviews_tbl (store st)) = Inr rows"
        and d: "d = (store st)\<lparr>reviews_tbl := rows\<rparr>"
      unfolding rr_def by blast
    have rows: "rows = map (\<lambda>z. if RID z = RID rr then rr else z) (reviews_tbl (store st))"
      using saveRow_replace[OF s ex k1] .
    have tbl: "reviews_tbl (store st') = rows"
      by (simp add: st' d)
    have in_rr: "rr \<in> set rows"
      unfolding rows using ex k1 by (force simp: image_iff)
    have s1: "ReviewData_BeforeUpdate (timeNow w)
                (x\<lparr>RNextUpdateAt := nextUpdateAt w ttl, RID := RID old\<rparr>) \<in> set rows"
      if "old \<in> set (reviews_tbl (store st))" "ReviewID old = ReviewID x" for old
    proof -
      have "old = existing"
        using distinct_map_eq[OF dr that(1) ex] that(2) exid by simp
      with in_rr show ?thesis
        by (simp add: rr_def)
    qed
    have s2: "z \<in> set rows" if "z \<in> set (reviews_tbl (store st))" "ReviewID z \<noteq> ReviewID x" for z
    proof -
      have "RID z \<noteq> RID rr"
      proof
        assume "RID z = RID rr"
        then have "z = existing"
          using distinct_map_eq[OF dk that(1) ex] k1 by simp
        with that(2) exid show False
          by simp
      qed
      then show ?thesis
        unfolding rows using that(1) by (force simp: image_iff)
    qed
    from s1 s2 show ?thesis
      unfolding tbl by blast
  next
    case False
    from ok False obtain d
      where cr: "CreateReview (timeNow w) (newUUID w (uuidsDrawn st)) (store st) ?review = (None, d)"
        and st': "store st' = d"
      by (auto simp: upsertReview_def Let_def split: prod.splits option.splits)
    define rr where "rr = ReviewData_BeforeCreate (timeNow w) (newUUID w (uuidsDrawn st)) ?review"
    have rid: "ReviewID rr = ReviewID x"
      by (simp add: rr_def ReviewData_BeforeCreate_def Let_def)
    from cr have ins: "insertRow reviewClash rr (reviews_tbl (store st))
                         = Inr (reviews_tbl (store st) @ [rr])"
      and d: "d = (store st)\<lparr>reviews_tbl := reviews_tbl (store st) @ [rr]\<rparr>"
      unfolding rr_def
      by (auto simp: CreateReview_def Create_ReviewData_def insertRow_def
          split: option.splits sum.splits if_splits)
    from ins have nc: "\<forall>z\<in>set (reviews_tbl (store st)). ReviewID z \<noteq> ReviewID x"
      using rid by (auto simp: insertRow_def list_ex_iff reviewClash_def split: if_splits)
    have tbl: "reviews_tbl (store st') = reviews_tbl (store st) @ [rr]"
      by (simp add: st' d)
    from nc show ?thesis
      unfolding tbl by simp
  qed
qed

lemma upsertReviews_rows:
  assumes "reviewsUnique (store st)" and "upsertReviews w ttl st rs = (None, st')"
  shows "(\<forall>k r. (k, r) \<in> set (reviewKeys (store st)) \<and> r \<in> ReviewID ` set rs \<longrightarrow>
            (\<exists>y\<in>set rs. ReviewID y = r \<and>
               ReviewData_BeforeUpdate (timeNow w)
                 (y\<lparr>RNextUpdateAt := nextUpdateAt w ttl, RID := k\<rparr>)
                 \<in> set (reviews_tbl (store st'))))
       \<and> (\<forall>z\<in>set (reviews_tbl (store st)). ReviewID z \<notin> ReviewID ` set rs \<longrightarrow>
            z \<in> set (reviews_tbl (store st')))"
  using assms
proof (induction rs arbitrary: st)
  case Nil
  then show ?case
    by simp
next
  case (Cons x rs)
  let ?U = "\<lambda>y k. ReviewData_BeforeUpdate (timeNow w)
                     (y\<lparr>RNextUpdateAt := nextUpdateAt w ttl, RID := k\<rparr>)"
  from Cons.prems(2) obtain st1 where s1: "upsertReview w ttl st x = (None, st1)"
    and rest: "upsertReviews w ttl st1 rs = (None, st')"
    by (auto split: prod.splits option.splits)
  from upsertReview_keys[OF Cons.prems(1) s1] have u1: "reviewsUnique (store st1)"
    by blast
  note step = upsertReview_rows[OF Cons.prems(1) s1]
  note ih = Cons.IH[OF u1 rest]
  have frame: "z \<in> set (reviews_tbl (store st'))"
    if "z \<in> set (reviews_tbl (store st))" "ReviewID z \<notin> ReviewID ` set (x # rs)" for z
  proof -
    from that have "z \<in> set (reviews_tbl (store st1))"
      using step by simp
    with that(2) ih show ?thesis
      by simp
  qed
  have upd: "\<exists>y\<in>set (x # rs). ReviewID y = r \<and> ?U y k \<in> set (reviews_tbl (store st'))"
    if kr: "(k, r) \<in> set (reviewKeys (store st))" and r: "r \<in> ReviewID ` set (x # rs)" for k r
  proof -
    from kr obtain old where old: "old \<in> set (reviews_tbl (store st))" "RID old = k" "ReviewID old = r"
      by (auto simp: reviewKeys_def)
    show ?thesis
    proof (cases "r = ReviewID x")
      case True
      with step old have in1: "?U x k \<in> set (reviews_tbl (store st1))"
        by auto
      show ?thesis
      proof (cases "r \<in> ReviewID ` set rs")
        case True
        have "(RID (?U x k), ReviewID (?U x k)) \<in> set (reviewKeys (store st1))"
          using in1 by (rule in_reviewKeys)
        then have "(k, r) \<in> set (reviewKeys (store st1))"
          using \<open>r = ReviewID x\<close> by (simp add: ReviewData_BeforeUpdate_def)
        with ih True show ?thesis
          by auto
      next
        case False
        have "ReviewID (?U x k) \<notin> ReviewID ` set rs"
          using False \<open>r = ReviewID x\<close> by (simp add: ReviewData_BeforeUpdate_def)
        with ih in1 have "?U x k \<in> set (reviews_tbl (store st'))"
          by blast
        with \<open>r = ReviewID x\<close> show ?thesis
          by auto
      qed
    next
      case False
      with r have rr: "r \<in> ReviewID ` set rs"
        by auto
      from False old step have "old \<in> set (reviews_tbl (store st1))"
        by auto
      with old have "(k, r) \<in> set (reviewKeys (store st1))"
        by (force simp: reviewKeys_def)
      with ih rr show ?thesis
        by auto
    qed
  qed
  from frame upd show ?case
    by blast
qed

lemma processReviewsMessage_rows:
  assumes u: "reviewsUnique (store st)"
      and ok: "processReviewsMessage w st m = (Success, st')"
      and f: "fetched w st m = Some (h, resp)"
  shows "reviewsUnique (store st')
       \<and> (\<exists>extra. reviewKeys (store st') = reviewKeys (store st) @ extra)
       \<and> (\<forall>k r. (k, r) \<in> set (reviewKeys (store st)) \<and> r \<in> CReviewID ` set resp \<longrightarrow>
            (\<exists>c\<in>set resp. CReviewID c = r \<and>
               ReviewData_BeforeUpdate (timeNow w)
                 ((ToReviewData c h)
                    \<lparr>RNextUpdateAt := nextUpdateAt w (getTTLConfigForEntity (TTL w) ''reviews''),
                      RID := k\<rparr>)
                 \<in> set (reviews_tbl (store st'))))"
proof -
  from f have c: "\<not> cacheFound w (''reviews_data_'' @ MID m)"
    by (auto simp: fetched_def split: if_splits)
  from f obtain n where t: "reviewsTarget st m = Inr (h, n)"
    by (cases "reviewsTarget st m") (auto simp: fetched_def split: if_splits sum.splits)
  from f t have fe: "FetchHotelReviews w h n = Inr resp"
    by (cases "FetchHotelReviews w h n") (auto simp: fetched_def split: if_splits)
  define st1 where "st1 = st\<lparr>apiCalls := apiCalls st @ [CallFetchHotelReviews h n]\<rparr>"
  define ttl where "ttl = getTTLConfigForEntity (TTL w) ''reviews''"
  from ok t c fe obtain st2 where loop: "upsertReviews w ttl st1 (ToReviewDataList resp h) = (None, st2)"
    and st': "store st' = store st2"
    unfolding st1_def ttl_def
    by (auto simp: processReviewsMessage_def Let_def split: prod.splits option.splits)
  have u1: "reviewsUnique (store st1)"
    using u by (simp add: st1_def)
  have s1: "store st1 = store st"
    by (simp add: st1_def)
  have ids: "ReviewID ` set (ToReviewDataList resp h) = CReviewID ` set resp"
    by (force simp: ToReviewDataList_def ToReviewData_def)
  from upsertReviews_keys[OF u1 loop] have a: "reviewsUnique (store st')"
    "\<exists>extra. reviewKeys (store st') = reviewKeys (store st) @ extra"
    unfolding st' s1 by blast+
  have b: "\<exists>c\<in>set resp. CReviewID c = r \<and>
               ReviewData_BeforeUpdate (timeNow w)
                 ((ToReviewData c h)\<lparr>RNextUpdateAt := nextUpdateAt w ttl, RID := k\<rparr>)
                 \<in> set (reviews_tbl (store st'))"
    if "(k, r) \<in> set (reviewKeys (store st))" "r \<in> CReviewID ` set resp" for k r
  proof -
    from upsertReviews_rows[OF u1 loop] that obtain y
      where y: "y \<in> set (ToReviewDataList resp h)" "ReviewID y = r"
        "ReviewData_BeforeUpdate (timeNow w) (y\<lparr>RNextUpdateAt := nextUpdateAt w ttl, RID := k\<rparr>)
           \<in> set (reviews_tbl (store st2))"
      unfolding s1 ids by blast
    from y(1) obtain c where c: "c \<in> set resp" "y = ToReviewData c h"
      by (auto simp: ToReviewDataList_def)
    with y have "CReviewID c = r"
      by (simp add: ToReviewData_def)
    with c y(3) show ?thesis
      unfolding st' by blast
  qed
  from a b show ?thesis
    unfolding ttl_def by blast
qed

lemma fetched_receives:
  "fetched w st m = Some (h, resp) \<Longrightarrow> r \<in> CReviewID ` set resp \<Longrightarrow> receives w st m r"
  by (auto simp: fetched_def receives_def split: if_splits sum.splits)

text \<open>
  C8. Start from a table \<open>reviews\<close> that meets its uniqueness constraints. Let a run of
  the review handler succeed and receive from upstream a review with the \<open>review_id\<close>
  \<open>r\<close>. Let a second run succeed and receive such a review too, starting from the
  store the first run left, or from any later store that still meets the constraints and
  still holds every pair of primary key and \<open>review_id\<close> that the first run left. Then
  after the first run the table holds exactly one row with that \<open>review_id\<close>, after
  the second run it again holds exactly one, with the same primary key, and that row is
  the existing row updated in place: it is the record mapped from one of upstream's
  reviews with the \<open>review_id\<close> \<open>r\<close>, with the next update time of the second run,
  under the old primary key, as \<open>BeforeUpdate\<close> stamps it. The second run keeps the
  constraints and every pair it found, so the same holds for any number of runs.
\<close>

theorem review_identity_stable:
  assumes u: "reviewsUnique (store st0)"
      and run1: "processReviewsMessage w1 st0 m1 = (Success, st1)"
      and rc1: "receives w1 st0 m1 r"
      and later: "reviewsUnique (store st1')"
                 "set (reviewKeys (store st1)) \<subseteq> set (reviewKeys (store st1'))"
      and run2: "processReviewsMessage w2 st1' m2 = (Success, st2)"
      and f2: "fetched w2 st1' m2 = Some (h2, resp2)"
      and r2: "r \<in> CReviewID ` set resp2"
  shows "\<exists>row1 row2 c.
           filter (\<lambda>y. ReviewID y = r) (reviews_tbl (store st1)) = [row1] \<and>
           filter (\<lambda>y. ReviewID y = r) (reviews_tbl (store st2)) = [row2] \<and>
           RID row2 = RID row1 \<and>
           c \<in> set resp2 \<and> CReviewID c = r \<and>
           row2 = ReviewData_BeforeUpdate (timeNow w2)
                    ((ToReviewData c h2)
                       \<lparr>RNextUpdateAt :=
                          nextUpdateAt w2 (getTTLConfigForEntity (TTL w2) ''reviews''),
                        RID := RID row1\<rparr>) \<and>
           reviewsUnique (store st2) \<and>
           set (reviewKeys (store st1')) \<subseteq> set (reviewKeys (store st2))"
proof -
  from processReviewsMessage_keys[OF u run1 rc1] obtain e1 where k1:
    "reviewKeys (store st1) = reviewKeys (store st0) @ e1" "reviewsUnique (store st1)"
    "r \<in> snd ` set (reviewKeys (store st1))"
    by blast
  from k1(3) obtain row1 where row1: "row1 \<in> set (reviews_tbl (store st1))" "ReviewID row1 = r"
    by (auto simp: reviewKeys_def)
  have f1: "filter (\<lambda>y. ReviewID y = r) (reviews_tbl (store st1)) = [row1]"
    using filter_unique[of ReviewID _ row1] k1(2) row1 by (simp add: reviewsUnique_def)
  have "(RID row1, r) \<in> set (reviewKeys (store st1))"
    using row1 by (force simp: reviewKeys_def)
  with later(2) have kr: "(RID row1, r) \<in> set (reviewKeys (store st1'))"
    by blast
  note rows = processReviewsMessage_rows[OF later(1) run2 f2]
  from rows have u2: "reviewsUnique (store st2)"
    by blast
  from rows obtain extra where ext: "reviewKeys (store st2) = reviewKeys (store st1') @ extra"
    by blast
  from rows kr r2 obtain c where c: "c \<in> set resp2" "CReviewID c = r"
    "ReviewData_BeforeUpdate (timeNow w2)
       ((ToReviewData c h2)
          \<lparr>RNextUpdateAt := nextUpdateAt w2 (getTTLConfigForEntity (TTL w2) ''reviews''),
            RID := RID row1\<rparr>) \<in> set (reviews_tbl (store st2))"
    by blast
  define row2 where "row2 = ReviewData_BeforeUpdate (timeNow w2)
       ((ToReviewData c h2)
          \<lparr>RNextUpdateAt := nextUpdateAt w2 (getTTLConfigForEntity (TTL w2) ''reviews''),
            RID := RID row1\<rparr>)"
  have in2: "row2 \<in> set (reviews_tbl (store st2))"
    using c(3) by (simp add: row2_def)
  have id2: "ReviewID row2 = r" "RID row2 = RID row1"
    using c(2) by (simp_all add: row2_def ReviewData_BeforeUpdate_def ToReviewData_def)
  have f2: "filter (\<lambda>y. ReviewID y = r) (reviews_tbl (store st2)) = [row2]"
    using filter_unique[of ReviewID _ row2] u2 in2 id2(1) by (simp add: reviewsUnique_def)
  from f1 f2 id2(2) c(1,2) u2 ext show ?thesis
    unfolding row2_def by (intro exI[of _ row1] exI[of _ row2] exI[of _ c]) (simp add: row2_def)
qed

text \<open>
  On the example: the review 703 is new to the store. The first run creates its row
  with a fresh primary key; the second run, later and with an edited review from
  upstream, writes the new contents to that row and keeps its primary key.
\<close>

theorem review_identity_witness:
  "reviewsUnique (store exampleWorker) \<and>
   (\<exists>st1 st2 row1.
      processReviewsMessage (exampleWorld (Inr True)) exampleWorker
        (exampleMessage ''r2'' MessageTypeUpdateReview) = (Success, st1) \<and>
      processReviewsMessage laterWorld st1
        (exampleMessage ''r3'' MessageTypeUpdateReview) = (Success, st2) \<and>
      filter (\<lambda>y. ReviewID y = 703) (reviews_tbl (store st1)) = [row1] \<and>
      RColumns row1 = ''{}'' \<and> RUpdatedAt row1 = 1000 \<and>
      filter (\<lambda>y. ReviewID y = 703) (reviews_tbl (store st2)) =
        [\<lparr>RID = RID row1, RHotelID = 7, ReviewID = 703, Language = ''fr'',
          RColumns = ''{edited}'', RCreatedAt = 0, RUpdatedAt = 2000,
          RDeletedAt = zeroDeletedAt, RNextUpdateAt = 2000 + 3600 * second\<rparr>])"
proof -
  let ?w = "exampleWorld (Inr True)"
  let ?m1 = "exampleMessage ''r2'' MessageTypeUpdateReview"
  let ?m2 = "exampleMessage ''r3'' MessageTypeUpdateReview"
  let ?c = "\<lparr>CReviewID = 703, CLanguage = ''fr'', CColumns = ''{edited}''\<rparr>"
  define st1 where "st1 = snd (processReviewsMessage ?w exampleWorker ?m1)"
  define st2 where "st2 = snd (processReviewsMessage laterWorld st1 ?m2)"
  have u: "reviewsUnique (store exampleWorker)"
    by code_simp
  have "fst (processReviewsMessage ?w exampleWorker ?m1) = Success"
    by code_simp
  then have run1: "processReviewsMessage ?w exampleWorker ?m1 = (Success, st1)"
    unfolding st1_def by (metis prod.collapse)
  have rc1: "receives ?w exampleWorker ?m1 703"
    by code_simp
  have "fst (processReviewsMessage laterWorld
               (snd (processReviewsMessage ?w exampleWorker ?m1)) ?m2) = Success"
    by code_simp
  then have run2: "processReviewsMessage laterWorld st1 ?m2 = (Success, st2)"
    unfolding st1_def st2_def by (metis prod.collapse)
  have "fetched laterWorld (snd (processReviewsMessage ?w exampleWorker ?m1)) ?m2
          = Some (7, [?c])"
    by code_simp
  then have f2: "fetched laterWorld st1 ?m2 = Some (7, [?c])"
    unfolding st1_def .
  have "reviewsUnique (store (snd (processReviewsMessage ?w exampleWorker ?m1)))"
    by code_simp
  then have u1: "reviewsUnique (store st1)"
    unfolding st1_def .
  have "map (\<lambda>y. (RColumns y, RUpdatedAt y))
          (filter (\<lambda>y. ReviewID y = 703)
             (reviews_tbl (store (snd (processReviewsMessage ?w exampleWorker ?m1)))))
          = [(''{}'', 1000)]"
    by code_simp
  then have old: "map (\<lambda>y. (RColumns y, RUpdatedAt y))
          (filter (\<lambda>y. ReviewID y = 703) (reviews_tbl (store st1))) = [(''{}'', 1000)]"
    unfolding st1_def .
  have r2: "(703::int) \<in> CReviewID ` set [?c]"
    by simp
  have ttl: "nextUpdateAt laterWorld (getTTLConfigForEntity (TTL laterWorld) ''reviews'')
               = 2000 + 3600 * second"
    by code_simp
  from review_identity_stable[OF u run1 rc1 u1 subset_refl run2 f2 r2]
  obtain row1 row2 c where
    f: "filter (\<lambda>y. ReviewID y = 703) (reviews_tbl (store st1)) = [row1]"
       "filter (\<lambda>y. ReviewID y = 703) (reviews_tbl (store st2)) = [row2]"
    and c: "c \<in> set [?c]"
    and row2: "row2 = ReviewData_BeforeUpdate (timeNow laterWorld)
                 ((ToReviewData c 7)
                    \<lparr>RNextUpdateAt :=
                       nextUpdateAt laterWorld (getTTLConfigForEntity (TTL laterWorld) ''reviews''),
                     RID := RID row1\<rparr>)"
    by blast
  from c have c': "c = ?c"
    by simp
  have row2': "row2 = \<lparr>RID = RID row1, RHotelID = 7, ReviewID = 703, Language = ''fr'',
          RColumns = ''{edited}'', RCreatedAt = 0, RUpdatedAt = 2000,
          RDeletedAt = zeroDeletedAt, RNextUpdateAt = 2000 + 3600 * second\<rparr>"
    unfolding row2 ttl c'
    by (simp add: ReviewData_BeforeUpdate_def ToReviewData_def laterWorld_def)
  from old f(1) have "RColumns row1 = ''{}''" "RUpdatedAt row1 = 1000"
    by simp_all
  with u run1 run2 f row2' show ?thesis
    by blast
qed

end
